(* ===== verification/Prelude.thy ===== *)
theory Prelude
  imports Main "HOL-Library.Sublist"
begin

text \<open>
  Shared vocabulary of the development: the Python exceptions the modelled code raises
  or catches, a state-and-exception monad that threads a handler's state through calls
  the way a Python method mutates \<open>self\<close> (an exception keeps the side effects made
  before it), and the few Python string helpers the sources call
  (\<open>os.path.basename\<close>, \<open>os.path.join\<close>, \<open>str.join\<close>), with the generic
  lemmas the component theories share.
\<close>

named_theorems exc_simps "evaluation rules of the state-and-exception monad"

section \<open>Python exceptions\<close>

datatype py_exc =
    FileNotFoundError string
  | PermissionError string
  | OSError string
  | TypeError string
  | ValueError string

section \<open>State and exceptions\<close>

text \<open>
  A computation on a state \<open>'s\<close> returns either an escaping exception (\<open>Inl\<close>) or a
  value (\<open>Inr\<close>), together with the state reached; Python does not roll back the
  mutations made before a raise, so the state is returned on both branches.
\<close>

type_synonym ('s, 'a) exc_state = "'s \<Rightarrow> (py_exc + 'a) \<times> 's"

definition ret :: "'a \<Rightarrow> ('s, 'a) exc_state" where
  "ret x = (\<lambda>s. (Inr x, s))"

definition raise :: "py_exc \<Rightarrow> ('s, 'a) exc_state" where
  "raise e = (\<lambda>s. (Inl e, s))"

definition bindE :: "('s, 'a) exc_state \<Rightarrow> ('a \<Rightarrow> ('s, 'b) exc_state) \<Rightarrow> ('s, 'b) exc_state" where
  "bindE m f = (\<lambda>s. case m s of
      (Inl e, s') \<Rightarrow> (Inl e, s')
    | (Inr x, s') \<Rightarrow> f x s')"

definition modify :: "('s \<Rightarrow> 's) \<Rightarrow> ('s, unit) exc_state" where
  "modify g = (\<lambda>s. (Inr (), g s))"

text \<open>
  \<open>try: m except (E1, E2): h\<close>: the handler runs on an exception the predicate
  \<open>catches\<close> selects, in the state the body left; any other exception escapes.
\<close>

definition try_except ::
  "('s, 'a) exc_state \<Rightarrow> (py_exc \<Rightarrow> bool) \<Rightarrow> (py_exc \<Rightarrow> ('s, 'a) exc_state) \<Rightarrow> ('s, 'a) exc_state" where
  "try_except m catches h = (\<lambda>s. case m s of
      (Inl e, s') \<Rightarrow> (if catches e then h e s' else (Inl e, s'))
    | (Inr x, s') \<Rightarrow> (Inr x, s'))"

section \<open>Python string helpers\<close>

text \<open>\<open>os.path.basename\<close> (POSIX): the part after the last slash.\<close>

definition basename :: "string \<Rightarrow> string" where
  "basename p = rev (takeWhile (\<lambda>c. c \<noteq> CHR ''/'') (rev p))"

text \<open>\<open>os.path.join(a, b)\<close> (POSIX, two arguments): an absolute \<open>b\<close> replaces
  \<open>a\<close>; otherwise a slash is inserted unless \<open>a\<close> is empty or already ends in one.\<close>

definition path_join :: "string \<Rightarrow> string \<Rightarrow> string" where
  "path_join a b =
     (if b \<noteq> [] \<and> hd b = CHR ''/'' then b
      else if a = [] \<or> last a = CHR ''/'' then a @ b
      else a @ ''/'' @ b)"

text \<open>\<open>sep.join(xs)\<close>.\<close>

fun str_join :: "string \<Rightarrow> string list \<Rightarrow> string" where
  "str_join sep [] = []"
| "str_join sep [x] = x"
| "str_join sep (x # y # zs) = x @ sep @ str_join sep (y # zs)"

section \<open>Lemmas of the monad\<close>

lemma ret_apply [exc_simps]: "ret x s = (Inr x, s)"
  by (simp add: ret_def)

lemma raise_apply [exc_simps]: "raise e s = (Inl e, s)"
  by (simp add: raise_def)

lemma modify_apply [exc_simps]: "modify g s = (Inr (), g s)"
  by (simp add: modify_def)

lemma bindE_apply [exc_simps]:
  "bindE m f s = (case m s of (Inl e, s') \<Rightarrow> (Inl e, s') | (Inr x, s') \<Rightarrow> f x s')"
  by (simp add: bindE_def)

lemma try_except_apply [exc_simps]:
  "try_except m catches h s = (case m s of
      (Inl e, s') \<Rightarrow> (if catches e then h e s' else (Inl e, s'))
    | (Inr x, s') \<Rightarrow> (Inr x, s'))"
  by (simp add: try_except_def)

lemma bindE_ret_left: "bindE (ret x) f = f x"
  by (simp add: bindE_def ret_def)

lemma bindE_ret_right: "bindE m ret = m"
  by (rule ext) (simp add: bindE_def ret_def split: prod.splits sum.splits)

lemma bindE_assoc: "bindE (bindE m f) g = bindE m (\<lambda>x. bindE (f x) g)"
  by (rule ext) (simp add: bindE_def split: prod.splits sum.splits)

lemma bindE_Inr:
  "m s = (Inr x, s') \<Longrightarrow> bindE m f s = f x s'"
  by (simp add: bindE_def)

lemma bindE_Inl:
  "m s = (Inl e, s') \<Longrightarrow> bindE m f s = (Inl e, s')"
  by (simp add: bindE_def)

section \<open>Lemmas of the string helpers\<close>

lemma basename_no_slash [simp]:
  assumes "CHR ''/'' \<notin> set p"
  shows "basename p = p"
proof -
  from assms have "takeWhile (\<lambda>c. c \<noteq> CHR ''/'') (rev p) = rev p"
    by auto
  then show ?thesis unfolding basename_def by (simp only: rev_rev_ident)
qed

lemma basename_after_slash:
  assumes "CHR ''/'' \<notin> set b"
  shows "basename (a @ CHR ''/'' # b) = b"
proof -
  from assms have "takeWhile (\<lambda>c. c \<noteq> CHR ''/'') (rev b @ CHR ''/'' # rev a) = rev b"
    by (subst takeWhile_append2) auto
  then show ?thesis by (simp add: basename_def)
qed

lemma basename_path_join:
  "CHR ''/'' \<notin> set b \<Longrightarrow> basename (path_join a b) = b"
proof -
  assume b: "CHR ''/'' \<notin> set b"
  then have not_abs: "\<not> (b \<noteq> [] \<and> hd b = CHR ''/'')"
    by (cases b) auto
  show ?thesis
  proof (cases "a = []")
    case True
    with b not_abs show ?thesis by (simp add: path_join_def)
  next
    case False
    then obtain a' where a: "a = a' @ [last a]"
      by (metis append_butlast_last_id)
    show ?thesis
    proof (cases "last a = CHR ''/''")
      case True
      then have "path_join a b = a' @ CHR ''/'' # b"
        using not_abs False a by (simp add: path_join_def)
      with b show ?thesis by (simp add: basename_after_slash)
    next
      case last: False
      with not_abs False have "path_join a b = a @ CHR ''/'' # b"
        by (simp add: path_join_def)
      with b show ?thesis by (simp add: basename_after_slash)
    qed
  qed
qed

lemma sublist_str_join: "x \<in> set xs \<Longrightarrow> sublist x (str_join sep xs)"
proof (induction sep xs rule: str_join.induct)
  case (3 sep x y zs)
  then show ?case
    by (auto intro: sublist_order.order_trans [OF _ sublist_append_leftI [of _ "x @ sep"], simplified])
qed auto

end
