(* ===== verification/Poller.thy ===== *)
theory Poller
  imports Prelude
begin

text \<open>
  The local resource poller, \<open>LocalResourceHandler\<close> of
  \<^verbatim>\<open>src/server/runner/poller/app/resource_handler/local/local_resource_handler.py\<close>,
  and the members of its base class \<open>ResourceHandler\<close> that it calls (not under
  \<^verbatim>\<open>src/\<close>; modelled from the spec: \<open>is_object_outdated\<close>, \<open>download_file\<close>,
  \<open>get_destination_path\<close>, \<open>notify_executor\<close>).

  The operating system is an environment record \<open>os_env\<close> holding the results of the
  calls the code makes (\<open>os.path.exists\<close>, \<open>os.walk\<close>, \<open>os.path.getmtime\<close>,
  \<open>shutil.copy\<close>); the handler's mutable state is \<open>handler_state\<close>: the base class's
  table of last recorded modification times and the trace of observable effects
  (log records, copies, notifications), newest last.
\<close>

section \<open>Data\<close>

record handler_config =
  app_path :: string
  allowed_files :: "string list"
  download_dir :: string

record os_env =
  path_exists :: "string \<Rightarrow> bool"
  walk :: "string \<Rightarrow> (string \<times> string list \<times> string list) list"
  getmtime :: "string \<Rightarrow> int option"
  mtime_error :: "string \<Rightarrow> py_exc"
  copy_result :: "string \<Rightarrow> string \<Rightarrow> py_exc option"

datatype effect =
    LogPathMissing string
  | LogSkipped string
  | Copied string string
  | LogDownloadFailed string
  | NotifiedExecutor

record handler_state =
  last_seen :: "string \<rightharpoonup> int"
  effects :: "effect list"

type_synonym 'a handler_op = "(handler_state, 'a) exc_state"

definition log :: "effect \<Rightarrow> unit handler_op" where
  "log ev = modify (\<lambda>s. s\<lparr>effects := effects s @ [ev]\<rparr>)"

section \<open>Base-class collaborators\<close>

text \<open>\<open>is_object_outdated(file_time, name)\<close>: outdated when no time is recorded for the
  object or the file is strictly newer; an outdated object has its new time recorded at
  once (the spec's step 4, before the copy).\<close>

definition is_object_outdated :: "int \<Rightarrow> string \<Rightarrow> bool handler_op" where
  "is_object_outdated t name = (\<lambda>s.
     (case last_seen s name of
        Some t0 \<Rightarrow> if t0 < t then (Inr True, s\<lparr>last_seen := (last_seen s)(name \<mapsto> t)\<rparr>)
                   else (Inr False, s)
      | None \<Rightarrow> (Inr True, s\<lparr>last_seen := (last_seen s)(name \<mapsto> t)\<rparr>)))"

definition get_destination_path :: "handler_config \<Rightarrow> string \<Rightarrow> string" where
  "get_destination_path cfg name = path_join (download_dir cfg) name"

definition notify_executor :: "unit handler_op" where
  "notify_executor = log NotifiedExecutor"

section \<open>LocalResourceHandler\<close>

definition get_bucket :: string where
  "get_bucket = ''local''"

text \<open>\<open>_download_file\<close>: \<open>shutil.copy(object_name, download_path)\<close>; the bucket is
  ignored. A failing copy raises the exception the environment names.\<close>

definition local_download_file :: "os_env \<Rightarrow> string option \<Rightarrow> string \<Rightarrow> string \<Rightarrow> unit handler_op" where
  "local_download_file env bucket object_name download_path =
     (case copy_result env object_name download_path of
        None \<Rightarrow> log (Copied object_name download_path)
      | Some e \<Rightarrow> raise e)"

definition download_file :: "os_env \<Rightarrow> string \<Rightarrow> string \<Rightarrow> string \<Rightarrow> unit handler_op" where
  "download_file env bucket src dst = local_download_file env (Some bucket) src dst"

text \<open>The exceptions \<open>_process_file\<close> catches.\<close>

fun download_caught :: "py_exc \<Rightarrow> bool" where
  "download_caught (FileNotFoundError _) = True"
| "download_caught (PermissionError _) = True"
| "download_caught _ = False"

text \<open>\<open>_process_file(root_path, file)\<close>. \<open>os.path.getmtime\<close> is outside the
  \<open>try\<close>: where it fails, the exception it raises (\<open>mtime_error\<close>: a vanished file's
  \<open>FileNotFoundError\<close>, a \<open>PermissionError\<close>, any other \<open>OSError\<close>) leaves the poll.\<close>

definition process_file :: "handler_config \<Rightarrow> os_env \<Rightarrow> string \<Rightarrow> string \<Rightarrow> bool handler_op" where
  "process_file cfg env root_path file =
     (let file_path = path_join root_path file in
      case getmtime env file_path of
        None \<Rightarrow> raise (mtime_error env file_path)
      | Some file_time \<Rightarrow>
          try_except
            (bindE (is_object_outdated file_time file) (\<lambda>outdated.
               if outdated then
                 bindE (download_file env get_bucket file_path (get_destination_path cfg file))
                   (\<lambda>_. ret True)
               else ret False))
            download_caught
            (\<lambda>_. bindE (log (LogDownloadFailed file)) (\<lambda>_. ret False)))"

text \<open>The inner loop \<open>for file in files\<close>; \<open>notification_needed |= ...\<close> evaluates
  \<open>_process_file\<close> for every allowed file, whatever the flag already is.\<close>

fun poll_files :: "handler_config \<Rightarrow> os_env \<Rightarrow> string \<Rightarrow> string list \<Rightarrow> bool \<Rightarrow> bool handler_op" where
  "poll_files cfg env root [] needed = ret needed"
| "poll_files cfg env root (file # files) needed =
     (let file_name = basename file in
      if file_name \<notin> set (allowed_files cfg) then
        bindE (log (LogSkipped file_name)) (\<lambda>_. poll_files cfg env root files needed)
      else
        bindE (process_file cfg env root file_name) (\<lambda>changed.
          poll_files cfg env root files (needed \<or> changed)))"

text \<open>The outer loop \<open>for root, _, files in os.walk(path)\<close>.\<close>

fun poll_walk :: "handler_config \<Rightarrow> os_env \<Rightarrow> (string \<times> string list \<times> string list) list \<Rightarrow> bool \<Rightarrow> bool handler_op" where
  "poll_walk cfg env [] needed = ret needed"
| "poll_walk cfg env ((root, _, files) # rest) needed =
     bindE (poll_files cfg env root files needed) (\<lambda>needed'. poll_walk cfg env rest needed')"

definition poll :: "handler_config \<Rightarrow> os_env \<Rightarrow> unit handler_op" where
  "poll cfg env =
     (if \<not> path_exists env (app_path cfg) then log (LogPathMissing (app_path cfg))
      else bindE (poll_walk cfg env (walk env (app_path cfg)) False) (\<lambda>notification_needed.
        if notification_needed then notify_executor else ret ()))"

section \<open>Specification of a scan\<close>

definition newer :: "(string \<rightharpoonup> int) \<Rightarrow> string \<Rightarrow> int \<Rightarrow> bool" where
  "newer l name t = (case l name of None \<Rightarrow> True | Some t0 \<Rightarrow> t0 < t)"

fun copy_safe :: "handler_config \<Rightarrow> effect \<Rightarrow> bool" where
  "copy_safe cfg (Copied p d) =
     (basename p \<in> set (allowed_files cfg) \<and> d = get_destination_path cfg (basename p))"
| "copy_safe cfg _ = True"

definition seen_le :: "(string \<rightharpoonup> int) \<Rightarrow> (string \<rightharpoonup> int) \<Rightarrow> bool" where
  "seen_le l l' \<longleftrightarrow> (\<forall>n t. l n = Some t \<longrightarrow> (\<exists>t'. l' n = Some t' \<and> t \<le> t'))"

fun copies :: "effect list \<Rightarrow> (string \<times> string) list" where
  "copies [] = []"
| "copies (Copied p d # es) = (p, d) # copies es"
| "copies (_ # es) = copies es"

text \<open>The allowed files of one directory of the walk, in the order the loop visits
  them, as (path, name) pairs.\<close>

definition file_candidates :: "handler_config \<Rightarrow> string \<Rightarrow> string list \<Rightarrow> (string \<times> string) list" where
  "file_candidates cfg root files =
     map (\<lambda>f. (path_join root (basename f), basename f))
       (filter (\<lambda>f. basename f \<in> set (allowed_files cfg)) files)"

fun walk_candidates :: "handler_config \<Rightarrow> (string \<times> string list \<times> string list) list \<Rightarrow> (string \<times> string) list" where
  "walk_candidates cfg [] = []"
| "walk_candidates cfg ((root, _, files) # rest) = file_candidates cfg root files @ walk_candidates cfg rest"

text \<open>The abstract scan: which candidates are outdated, in order, and the table of
  recorded times afterwards. A candidate whose time cannot be read ends the scan.\<close>

fun scan :: "os_env \<Rightarrow> (string \<rightharpoonup> int) \<Rightarrow> (string \<times> string) list \<Rightarrow> (string \<times> string) list \<times> (string \<rightharpoonup> int)" where
  "scan env l [] = ([], l)"
| "scan env l ((p, n) # cs) =
     (case getmtime env p of
        None \<Rightarrow> ([], l)
      | Some t \<Rightarrow>
          if newer l n t then (let (ds, l') = scan env (l(n \<mapsto> t)) cs in ((p, n) # ds, l'))
          else scan env l cs)"

definition expected_copies :: "handler_config \<Rightarrow> os_env \<Rightarrow> (string \<times> string) list \<Rightarrow> (string \<times> string) list" where
  "expected_copies cfg env ds =
     map (\<lambda>(p, n). (p, get_destination_path cfg n))
       (filter (\<lambda>(p, n). copy_result env p (get_destination_path cfg n) = None) ds)"

fun copy_tolerated :: "handler_config \<Rightarrow> os_env \<Rightarrow> string \<times> string \<Rightarrow> bool" where
  "copy_tolerated cfg env (p, n) =
     (case copy_result env p (get_destination_path cfg n) of
        None \<Rightarrow> True
      | Some e \<Rightarrow> download_caught e)"

text \<open>The hypotheses of a scan without escaping exceptions: every candidate's time can
  be read, and every copy the scan attempts succeeds or fails with a caught error.\<close>

definition scan_ok :: "handler_config \<Rightarrow> os_env \<Rightarrow> (string \<rightharpoonup> int) \<Rightarrow> (string \<times> string) list \<Rightarrow> bool" where
  "scan_ok cfg env l cs \<longleftrightarrow>
     list_all (\<lambda>(p, n). getmtime env p \<noteq> None) cs \<and>
     list_all (copy_tolerated cfg env) (fst (scan env l cs))"

text \<open>What one call of a handler operation may do: append effects (never a
  notification), only raise recorded times, copy only allowed files to their
  destination, and report \<open>True\<close> exactly when it copied.\<close>

definition keys_allowed :: "handler_config \<Rightarrow> (string \<rightharpoonup> int) \<Rightarrow> (string \<rightharpoonup> int) \<Rightarrow> bool" where
  "keys_allowed cfg l l' \<longleftrightarrow> (\<forall>n. l' n \<noteq> None \<longrightarrow> l n \<noteq> None \<or> n \<in> set (allowed_files cfg))"

definition op_frame :: "handler_config \<Rightarrow> handler_state \<Rightarrow> handler_state \<Rightarrow> effect list \<Rightarrow> bool" where
  "op_frame cfg s s' es \<longleftrightarrow>
     effects s' = effects s @ es \<and> NotifiedExecutor \<notin> set es \<and>
     list_all (copy_safe cfg) es \<and> seen_le (last_seen s) (last_seen s') \<and>
     keys_allowed cfg (last_seen s) (last_seen s')"

definition covered :: "os_env \<Rightarrow> (string \<rightharpoonup> int) \<Rightarrow> (string \<times> string) list \<Rightarrow> bool" where
  "covered env l cs \<longleftrightarrow>
     list_all (\<lambda>(p, n). case getmtime env p of None \<Rightarrow> False | Some t \<Rightarrow> \<not> newer l n t) cs"

section \<open>Repeated polls\<close>

text \<open>The handler's states over its lifetime: it starts with nothing recorded and no
  effects, and each step is one call of \<open>poll\<close> against whatever the file system is at
  that moment, returning normally or not.\<close>

inductive reachable_handler :: "handler_config \<Rightarrow> handler_state \<Rightarrow> bool" for cfg where
  init: "reachable_handler cfg \<lparr>last_seen = Map.empty, effects = []\<rparr>"
| step: "reachable_handler cfg s \<Longrightarrow> poll cfg env s = (r, s') \<Longrightarrow> reachable_handler cfg s'"

text \<open>Only allowed names are ever recorded, every copy is of an allowed file to its
  destination, and the executor was never notified more often than files were copied.\<close>

definition handler_inv :: "handler_config \<Rightarrow> handler_state \<Rightarrow> bool" where
  "handler_inv cfg s \<longleftrightarrow>
     (\<forall>n. last_seen s n \<noteq> None \<longrightarrow> n \<in> set (allowed_files cfg)) \<and>
     list_all (copy_safe cfg) (effects s) \<and>
     count_list (effects s) NotifiedExecutor \<le> length (copies (effects s))"

section \<open>Example configurations\<close>

text \<open>A handler watching \<open>/app\<close> for \<open>a.json\<close> and \<open>b.json\<close>, with
  \<open>/app/a.json\<close>, \<open>/app/notes.txt\<close> and \<open>/app/sub/b.json\<close> on disk.\<close>

definition ex_cfg :: handler_config where
  "ex_cfg = \<lparr>app_path = ''/app'', allowed_files = [''a.json'', ''b.json''], download_dir = ''/dl''\<rparr>"

definition ex_env :: os_env where
  "ex_env = \<lparr>path_exists = (\<lambda>p. p = ''/app''),
     walk = (\<lambda>_. [(''/app'', [''sub''], [''a.json'', ''notes.txt'']), (''/app/sub'', [], [''b.json''])]),
     getmtime = map_of [(''/app/a.json'', 5), (''/app/sub/b.json'', 3)],
     mtime_error = FileNotFoundError,
     copy_result = (\<lambda>_ _. None)\<rparr>"

text \<open>The same tree with \<open>/app/sub\<close> listable but not searchable (no execute
  permission): \<open>os.walk\<close> lists \<open>b.json\<close>, and \<open>os.path.getmtime\<close> on it raises
  \<open>PermissionError\<close>.\<close>

definition ex_env_unsearchable :: os_env where
  "ex_env_unsearchable = ex_env\<lparr>getmtime := map_of [(''/app/a.json'', 5)], mtime_error := PermissionError\<rparr>"

text \<open>Two files named \<open>a.json\<close>, one in a subdirectory.\<close>

definition ex_env_twins :: os_env where
  "ex_env_twins = ex_env\<lparr>
     walk := (\<lambda>_. [(''/app'', [''sub''], [''a.json'']), (''/app/sub'', [], [''a.json''])]),
     getmtime := map_of [(''/app/a.json'', 5), (''/app/sub/a.json'', 9)]\<rparr>"

definition ex_state :: handler_state where
  "ex_state = \<lparr>last_seen = [''b.json'' \<mapsto> 7], effects = []\<rparr>"

section \<open>Lemmas\<close>

lemma log_apply [exc_simps]: "log ev s = (Inr (), s\<lparr>effects := effects s @ [ev]\<rparr>)"
  by (simp add: log_def modify_def)

lemma is_object_outdated_apply [exc_simps]:
  "is_object_outdated t name s =
     (Inr (newer (last_seen s) name t),
      if newer (last_seen s) name t then s\<lparr>last_seen := (last_seen s)(name \<mapsto> t)\<rparr> else s)"
  by (simp add: is_object_outdated_def newer_def split: option.splits)

lemma seen_le_refl [simp]: "seen_le l l"
  by (auto simp: seen_le_def)

lemma seen_le_trans: "seen_le l1 l2 \<Longrightarrow> seen_le l2 l3 \<Longrightarrow> seen_le l1 l3"
  by (fastforce simp: seen_le_def)

lemma seen_le_record: "newer l n t \<Longrightarrow> seen_le l (l(n \<mapsto> t))"
  by (auto simp: seen_le_def newer_def split: option.splits)

lemma process_file_unfold:
  "process_file cfg env root file s =
    (let p = path_join root file; d = get_destination_path cfg file in
     case getmtime env p of
       None \<Rightarrow> (Inl (mtime_error env p), s)
     | Some t \<Rightarrow>
        if newer (last_seen s) file t then
          (let s1 = s\<lparr>last_seen := (last_seen s)(file \<mapsto> t)\<rparr> in
           case copy_result env p d of
             None \<Rightarrow> (Inr True, s1\<lparr>effects := effects s @ [Copied p d]\<rparr>)
           | Some e \<Rightarrow>
               if download_caught e then (Inr False, s1\<lparr>effects := effects s @ [LogDownloadFailed file]\<rparr>)
               else (Inl e, s1))
        else (Inr False, s))"
  by (simp add: process_file_def download_file_def local_download_file_def exc_simps Let_def
      split: option.splits)


lemma op_frame_refl [simp]: "op_frame cfg s s []"
  by (simp add: op_frame_def keys_allowed_def)

lemma keys_allowed_trans:
  "keys_allowed cfg l1 l2 \<Longrightarrow> keys_allowed cfg l2 l3 \<Longrightarrow> keys_allowed cfg l1 l3"
  unfolding keys_allowed_def by blast

lemma op_frame_trans:
  "op_frame cfg s1 s2 es1 \<Longrightarrow> op_frame cfg s2 s3 es2 \<Longrightarrow> op_frame cfg s1 s3 (es1 @ es2)"
  unfolding op_frame_def by (auto intro: seen_le_trans keys_allowed_trans)

lemma copies_append [simp]: "copies (xs @ ys) = copies xs @ copies ys"
  by (induction xs rule: copies.induct) auto

lemma op_frame_log:
  "copies [ev] = [] \<Longrightarrow> ev \<noteq> NotifiedExecutor \<Longrightarrow> op_frame cfg s (s\<lparr>effects := effects s @ [ev]\<rparr>) [ev]"
  by (cases ev) (auto simp: op_frame_def keys_allowed_def)

lemma process_file_frame:
  assumes "process_file cfg env root file s = (r, s')"
    and "file \<in> set (allowed_files cfg)" and "CHR ''/'' \<notin> set file"
  shows "\<exists>es. op_frame cfg s s' es \<and> (\<forall>b. r = Inr b \<longrightarrow> b = (copies es \<noteq> []))"
  using assms
  by (auto simp: process_file_unfold Let_def op_frame_def basename_path_join seen_le_record
      keys_allowed_def split: option.splits if_splits)

lemma basename_no_slash_result: "CHR ''/'' \<notin> set (basename p)"
  by (auto simp: basename_def dest: set_takeWhileD)

lemma poll_files_frame:
  "poll_files cfg env root files needed s = (r, s') \<Longrightarrow>
   \<exists>es. op_frame cfg s s' es \<and> (\<forall>b. r = Inr b \<longrightarrow> b = (needed \<or> copies es \<noteq> []))"
proof (induction files arbitrary: needed s)
  case Nil
  then show ?case by (auto simp: exc_simps intro!: exI [of _ "[]"])
next
  case (Cons f files)
  let ?n = "basename f"
  show ?case
  proof (cases "?n \<in> set (allowed_files cfg)")
    case False
    let ?s1 = "s\<lparr>effects := effects s @ [LogSkipped ?n]\<rparr>"
    from False Cons.prems have "poll_files cfg env root files needed ?s1 = (r, s')"
      by (simp add: exc_simps Let_def)
    from Cons.IH [OF this] obtain es where
      f: "op_frame cfg ?s1 s' es" and b: "\<forall>b. r = Inr b \<longrightarrow> b = (needed \<or> copies es \<noteq> [])"
      by blast
    have "op_frame cfg s ?s1 [LogSkipped ?n]"
      by (rule op_frame_log) auto
    from this f have "op_frame cfg s s' ([LogSkipped ?n] @ es)"
      by (rule op_frame_trans)
    with b show ?thesis
      by (intro exI [of _ "[LogSkipped ?n] @ es"]) simp
  next
    case True
    obtain r1 s1 where pf: "process_file cfg env root ?n s = (r1, s1)"
      by fastforce
    from process_file_frame [OF pf True basename_no_slash_result] obtain es1 where
      f1: "op_frame cfg s s1 es1" and r1: "\<forall>b. r1 = Inr b \<longrightarrow> b = (copies es1 \<noteq> [])"
      by blast
    show ?thesis
    proof (cases r1)
      case (Inl e)
      with Cons.prems True pf have "r = Inl e" "s' = s1"
        by (simp_all add: exc_simps Let_def)
      with f1 show ?thesis by (intro exI [of _ es1]) simp
    next
      case (Inr c)
      with Cons.prems True pf have "poll_files cfg env root files (needed \<or> c) s1 = (r, s')"
        by (simp add: exc_simps Let_def)
      from Cons.IH [OF this] obtain es2 where
        f2: "op_frame cfg s1 s' es2" and b2: "\<forall>b. r = Inr b \<longrightarrow> b = ((needed \<or> c) \<or> copies es2 \<noteq> [])"
        by blast
      from r1 Inr have c: "c = (copies es1 \<noteq> [])"
        by simp
      show ?thesis
      proof (intro exI [of _ "es1 @ es2"] conjI allI impI)
        from f1 f2 show "op_frame cfg s s' (es1 @ es2)"
          by (rule op_frame_trans)
      next
        fix b
        assume "r = Inr b"
        with b2 c show "b = (needed \<or> copies (es1 @ es2) \<noteq> [])"
          by auto
      qed
    qed
  qed
qed

lemma poll_walk_frame:
  "poll_walk cfg env w needed s = (r, s') \<Longrightarrow>
   \<exists>es. op_frame cfg s s' es \<and> (\<forall>b. r = Inr b \<longrightarrow> b = (needed \<or> copies es \<noteq> []))"
proof (induction w arbitrary: needed s)
  case Nil
  then show ?case by (auto simp: exc_simps intro!: exI [of _ "[]"])
next
  case (Cons d w)
  obtain root dirs files where d: "d = (root, dirs, files)"
    by (cases d) blast
  obtain r1 s1 where pf: "poll_files cfg env root files needed s = (r1, s1)"
    by fastforce
  from poll_files_frame [OF pf] obtain es1 where
    f1: "op_frame cfg s s1 es1" and r1: "\<forall>b. r1 = Inr b \<longrightarrow> b = (needed \<or> copies es1 \<noteq> [])"
    by blast
  show ?case
  proof (cases r1)
    case (Inl e)
    with Cons.prems d pf have "r = Inl e" "s' = s1"
      by (simp_all add: exc_simps)
    with f1 show ?thesis by (intro exI [of _ es1]) simp
  next
    case (Inr c)
    with Cons.prems d pf have "poll_walk cfg env w c s1 = (r, s')"
      by (simp add: exc_simps)
    from Cons.IH [OF this] obtain es2 where
      f2: "op_frame cfg s1 s' es2" and b2: "\<forall>b. r = Inr b \<longrightarrow> b = (c \<or> copies es2 \<noteq> [])"
      by blast
    from r1 Inr have c: "c = (needed \<or> copies es1 \<noteq> [])"
      by simp
    show ?thesis
    proof (intro exI [of _ "es1 @ es2"] conjI allI impI)
      from f1 f2 show "op_frame cfg s s' (es1 @ es2)"
        by (rule op_frame_trans)
    next
      fix b
      assume "r = Inr b"
      with b2 c show "b = (needed \<or> copies (es1 @ es2) \<noteq> [])"
        by auto
    qed
  qed
qed


lemma expected_copies_Cons [simp]:
  "expected_copies cfg env ((p, n) # ds) =
     (if copy_result env p (get_destination_path cfg n) = None
      then (p, get_destination_path cfg n) # expected_copies cfg env ds
      else expected_copies cfg env ds)"
  by (simp add: expected_copies_def)

lemma expected_copies_Nil [simp]: "expected_copies cfg env [] = []"
  by (simp add: expected_copies_def)

lemma file_candidates_simps [simp]:
  "file_candidates cfg root [] = []"
  "file_candidates cfg root (f # fs) =
     (if basename f \<in> set (allowed_files cfg)
      then (path_join root (basename f), basename f) # file_candidates cfg root fs
      else file_candidates cfg root fs)"
  by (simp_all add: file_candidates_def)

lemma scan_Cons_Some:
  "getmtime env p = Some t \<Longrightarrow>
   scan env l ((p, n) # cs) =
     (if newer l n t then ((p, n) # fst (scan env (l(n \<mapsto> t)) cs), snd (scan env (l(n \<mapsto> t)) cs))
      else scan env l cs)"
  by (simp add: case_prod_beta)

lemma scan_Cons_None:
  "getmtime env p = None \<Longrightarrow> scan env l ((p, n) # cs) = ([], l)"
  by simp

declare scan.simps(2) [simp del]

lemma scan_ok_Cons:
  "scan_ok cfg env l ((p, n) # cs) \<longleftrightarrow>
     (\<exists>t. getmtime env p = Some t \<and>
        (if newer l n t then copy_tolerated cfg env (p, n) \<and> scan_ok cfg env (l(n \<mapsto> t)) cs
         else scan_ok cfg env l cs))"
  by (cases "getmtime env p")
    (auto simp: scan_ok_def scan_Cons_Some scan_Cons_None simp del: copy_tolerated.simps)

lemma poll_files_refines:
  "scan_ok cfg env (last_seen s) (file_candidates cfg root files) \<Longrightarrow>
   \<exists>es. poll_files cfg env root files needed s =
        (Inr (needed \<or> copies es \<noteq> []),
         s\<lparr>last_seen := snd (scan env (last_seen s) (file_candidates cfg root files)),
           effects := effects s @ es\<rparr>) \<and>
        copies es = expected_copies cfg env (fst (scan env (last_seen s) (file_candidates cfg root files))) \<and>
        NotifiedExecutor \<notin> set es"
proof (induction files arbitrary: needed s)
  case Nil
  then show ?case by (auto simp: exc_simps intro!: exI [of _ "[]"])
next
  case (Cons f files)
  let ?n = "basename f"
  show ?case
  proof (cases "?n \<in> set (allowed_files cfg)")
    case False
    let ?s1 = "s\<lparr>effects := effects s @ [LogSkipped ?n]\<rparr>"
    from False Cons.prems have "scan_ok cfg env (last_seen ?s1) (file_candidates cfg root files)"
      by simp
    from Cons.IH [OF this, of needed] obtain es where
      "poll_files cfg env root files needed ?s1 =
        (Inr (needed \<or> copies es \<noteq> []),
         ?s1\<lparr>last_seen := snd (scan env (last_seen ?s1) (file_candidates cfg root files)),
           effects := effects ?s1 @ es\<rparr>)"
      "copies es = expected_copies cfg env (fst (scan env (last_seen ?s1) (file_candidates cfg root files)))"
      "NotifiedExecutor \<notin> set es"
      by blast
    with False show ?thesis
      by (intro exI [of _ "LogSkipped ?n # es"]) (simp add: exc_simps Let_def)
  next
    case True
    let ?p = "path_join root ?n" and ?d = "get_destination_path cfg ?n"
    from Cons.prems True have ok: "scan_ok cfg env (last_seen s) ((?p, ?n) # file_candidates cfg root files)"
      by simp
    then obtain t where t: "getmtime env ?p = Some t"
      and ok_new: "newer (last_seen s) ?n t \<Longrightarrow> scan_ok cfg env ((last_seen s)(?n \<mapsto> t)) (file_candidates cfg root files)"
      and cp: "newer (last_seen s) ?n t \<Longrightarrow> copy_tolerated cfg env (?p, ?n)"
      and ok_old: "\<not> newer (last_seen s) ?n t \<Longrightarrow> scan_ok cfg env (last_seen s) (file_candidates cfg root files)"
      unfolding scan_ok_Cons by (auto split: if_splits)
    show ?thesis
    proof (cases "newer (last_seen s) ?n t")
      case False
      from Cons.IH [OF ok_old [OF False], of needed] obtain es where
        "poll_files cfg env root files needed s =
          (Inr (needed \<or> copies es \<noteq> []),
           s\<lparr>last_seen := snd (scan env (last_seen s) (file_candidates cfg root files)),
             effects := effects s @ es\<rparr>)"
        "copies es = expected_copies cfg env (fst (scan env (last_seen s) (file_candidates cfg root files)))"
        "NotifiedExecutor \<notin> set es"
        by blast
      with True False t show ?thesis
        by (intro exI [of _ es]) (simp add: exc_simps process_file_unfold scan_Cons_Some Let_def)
    next
      case new: True
      let ?l = "(last_seen s)(?n \<mapsto> t)"
      show ?thesis
      proof (cases "copy_result env ?p ?d")
        case None
        let ?s1 = "s\<lparr>last_seen := ?l, effects := effects s @ [Copied ?p ?d]\<rparr>"
        from ok_new [OF new] have "scan_ok cfg env (last_seen ?s1) (file_candidates cfg root files)"
          by simp
        from Cons.IH [OF this, of True] obtain es where
          "poll_files cfg env root files True ?s1 =
            (Inr (True \<or> copies es \<noteq> []), ?s1\<lparr>last_seen := snd (scan env (last_seen ?s1) (file_candidates cfg root files)),
               effects := effects ?s1 @ es\<rparr>)"
          "copies es = expected_copies cfg env (fst (scan env (last_seen ?s1) (file_candidates cfg root files)))"
          "NotifiedExecutor \<notin> set es"
          by blast
        with True new t None show ?thesis
          by (intro exI [of _ "Copied ?p ?d # es"])
            (simp add: exc_simps process_file_unfold scan_Cons_Some Let_def)
      next
        case (Some e)
        with cp new have caught: "download_caught e" by simp
        let ?s1 = "s\<lparr>last_seen := ?l, effects := effects s @ [LogDownloadFailed ?n]\<rparr>"
        from ok_new [OF new] have "scan_ok cfg env (last_seen ?s1) (file_candidates cfg root files)"
          by simp
        from Cons.IH [OF this, of needed] obtain es where
          "poll_files cfg env root files needed ?s1 =
            (Inr (needed \<or> copies es \<noteq> []),
             ?s1\<lparr>last_seen := snd (scan env (last_seen ?s1) (file_candidates cfg root files)),
               effects := effects ?s1 @ es\<rparr>)"
          "copies es = expected_copies cfg env (fst (scan env (last_seen ?s1) (file_candidates cfg root files)))"
          "NotifiedExecutor \<notin> set es"
          by blast
        with True new t Some caught show ?thesis
          by (intro exI [of _ "LogDownloadFailed ?n # es"])
            (simp add: exc_simps process_file_unfold scan_Cons_Some Let_def)
      qed
    qed
  qed
qed


lemma scan_append:
  "list_all (\<lambda>(p, n). getmtime env p \<noteq> None) xs \<Longrightarrow>
   scan env l (xs @ ys) =
     (fst (scan env l xs) @ fst (scan env (snd (scan env l xs)) ys),
      snd (scan env (snd (scan env l xs)) ys))"
proof (induction xs arbitrary: l)
  case Nil
  then show ?case by simp
next
  case (Cons x xs)
  obtain p n where x: "x = (p, n)" by fastforce
  with Cons.prems obtain t where t: "getmtime env p = Some t" by auto
  with Cons x show ?case by (simp add: scan_Cons_Some)
qed

lemma scan_ok_append:
  "scan_ok cfg env l (xs @ ys) \<Longrightarrow>
   scan_ok cfg env l xs \<and> scan_ok cfg env (snd (scan env l xs)) ys"
  by (auto simp: scan_ok_def scan_append)

lemma expected_copies_append [simp]:
  "expected_copies cfg env (xs @ ys) = expected_copies cfg env xs @ expected_copies cfg env ys"
  by (simp add: expected_copies_def)

lemma scan_ok_mtimes: "scan_ok cfg env l xs \<Longrightarrow> list_all (\<lambda>(p, n). getmtime env p \<noteq> None) xs"
  by (simp add: scan_ok_def)

lemma poll_walk_refines:
  "scan_ok cfg env (last_seen s) (walk_candidates cfg w) \<Longrightarrow>
   \<exists>es. poll_walk cfg env w needed s =
        (Inr (needed \<or> copies es \<noteq> []),
         s\<lparr>last_seen := snd (scan env (last_seen s) (walk_candidates cfg w)),
           effects := effects s @ es\<rparr>) \<and>
        copies es = expected_copies cfg env (fst (scan env (last_seen s) (walk_candidates cfg w))) \<and>
        NotifiedExecutor \<notin> set es"
proof (induction w arbitrary: needed s)
  case Nil
  then show ?case by (auto simp: exc_simps intro!: exI [of _ "[]"])
next
  case (Cons d w)
  obtain root dirs files where d: "d = (root, dirs, files)"
    by (cases d) blast
  let ?C = "file_candidates cfg root files"
  from Cons.prems d have ok: "scan_ok cfg env (last_seen s) (?C @ walk_candidates cfg w)"
    by simp
  from scan_ok_append [OF ok] have ok1: "scan_ok cfg env (last_seen s) ?C"
    and ok2: "scan_ok cfg env (snd (scan env (last_seen s) ?C)) (walk_candidates cfg w)"
    by blast+
  from poll_files_refines [OF ok1, of needed] obtain es1 where
    pf: "poll_files cfg env root files needed s =
          (Inr (needed \<or> copies es1 \<noteq> []),
           s\<lparr>last_seen := snd (scan env (last_seen s) ?C), effects := effects s @ es1\<rparr>)"
    and c1: "copies es1 = expected_copies cfg env (fst (scan env (last_seen s) ?C))"
    and n1: "NotifiedExecutor \<notin> set es1"
    by blast
  let ?s1 = "s\<lparr>last_seen := snd (scan env (last_seen s) ?C), effects := effects s @ es1\<rparr>"
  from ok2 have "scan_ok cfg env (last_seen ?s1) (walk_candidates cfg w)"
    by simp
  from Cons.IH [OF this, of "needed \<or> copies es1 \<noteq> []"] obtain es2 where
    pw: "poll_walk cfg env w (needed \<or> copies es1 \<noteq> []) ?s1 =
          (Inr ((needed \<or> copies es1 \<noteq> []) \<or> copies es2 \<noteq> []),
           ?s1\<lparr>last_seen := snd (scan env (last_seen ?s1) (walk_candidates cfg w)),
             effects := effects ?s1 @ es2\<rparr>)"
    and c2: "copies es2 = expected_copies cfg env (fst (scan env (last_seen ?s1) (walk_candidates cfg w)))"
    and n2: "NotifiedExecutor \<notin> set es2"
    by blast
  from scan_ok_mtimes [OF ok1] have app:
    "scan env (last_seen s) (?C @ walk_candidates cfg w) =
       (fst (scan env (last_seen s) ?C) @ fst (scan env (snd (scan env (last_seen s) ?C)) (walk_candidates cfg w)),
        snd (scan env (snd (scan env (last_seen s) ?C)) (walk_candidates cfg w)))"
    by (rule scan_append)
  show ?case
    using d pf pw c1 c2 n1 n2 app
    by (intro exI [of _ "es1 @ es2"]) (simp add: exc_simps)
qed

text \<open>C1. Refinement of the poll by the abstract scan: when the watched path exists,
  every allowed file's modification time can be read and every copy the scan attempts
  either succeeds or fails with \<open>FileNotFoundError\<close>/\<open>PermissionError\<close>, the poll
  returns normally, leaves the recorded times of \<open>scan\<close>, copies exactly the
  outdated files whose copy succeeds (in walk order, each to its destination path), and
  notifies the executor once at the end exactly when something was copied.\<close>

theorem poll_refines_scan:
  assumes "path_exists env (app_path cfg)"
    and "scan_ok cfg env (last_seen s) (walk_candidates cfg (walk env (app_path cfg)))"
  shows "\<exists>es. poll cfg env s =
           (Inr (),
            s\<lparr>last_seen := snd (scan env (last_seen s) (walk_candidates cfg (walk env (app_path cfg)))),
              effects := effects s @ es @
                (if copies es = [] then [] else [NotifiedExecutor])\<rparr>) \<and>
           copies es = expected_copies cfg env
                         (fst (scan env (last_seen s) (walk_candidates cfg (walk env (app_path cfg))))) \<and>
           NotifiedExecutor \<notin> set es"
proof -
  from poll_walk_refines [OF assms(2), of False] obtain es where
    pw: "poll_walk cfg env (walk env (app_path cfg)) False s =
          (Inr (False \<or> copies es \<noteq> []),
           s\<lparr>last_seen := snd (scan env (last_seen s) (walk_candidates cfg (walk env (app_path cfg)))),
             effects := effects s @ es\<rparr>)"
    and c: "copies es = expected_copies cfg env
              (fst (scan env (last_seen s) (walk_candidates cfg (walk env (app_path cfg)))))"
    and n: "NotifiedExecutor \<notin> set es"
    by blast
  show ?thesis
    using assms(1) pw c n
    by (intro exI [of _ es]) (simp add: poll_def notify_executor_def exc_simps)
qed


lemma not_newer_mono: "\<not> newer l n t \<Longrightarrow> seen_le l l' \<Longrightarrow> \<not> newer l' n t"
  by (fastforce simp: newer_def seen_le_def split: option.splits)

lemma covered_mono: "covered env l cs \<Longrightarrow> seen_le l l' \<Longrightarrow> covered env l' cs"
  by (fastforce simp: covered_def list_all_iff not_newer_mono split: option.splits)

lemma covered_append [simp]: "covered env l (xs @ ys) \<longleftrightarrow> covered env l xs \<and> covered env l ys"
  by (simp add: covered_def)

lemma scan_covered: "covered env l cs \<Longrightarrow> scan env l cs = ([], l)"
  by (induction cs) (auto simp: covered_def scan_Cons_Some split: option.splits)

lemma scan_ok_covered: "covered env l cs \<Longrightarrow> scan_ok cfg env l cs"
  by (auto simp: scan_ok_def scan_covered covered_def list_all_iff split: option.splits)

lemma process_file_covers:
  "process_file cfg env root n s = (Inr c, s') \<Longrightarrow> covered env (last_seen s') [(path_join root n, n)]"
  by (auto simp: process_file_unfold covered_def newer_def Let_def split: option.splits if_splits)

lemma poll_files_covers:
  "poll_files cfg env root files needed s = (Inr b, s') \<Longrightarrow>
   covered env (last_seen s') (file_candidates cfg root files)"
proof (induction files arbitrary: needed s)
  case Nil
  then show ?case by (simp add: covered_def)
next
  case (Cons f files)
  let ?n = "basename f"
  show ?case
  proof (cases "?n \<in> set (allowed_files cfg)")
    case False
    with Cons show ?thesis by (simp add: exc_simps Let_def)
  next
    case True
    obtain r1 s1 where pf: "process_file cfg env root ?n s = (r1, s1)"
      by fastforce
    show ?thesis
    proof (cases r1)
      case (Inl e)
      with Cons.prems True pf show ?thesis by (simp add: exc_simps Let_def)
    next
      case (Inr c)
      with Cons.prems True pf have rest: "poll_files cfg env root files (needed \<or> c) s1 = (Inr b, s')"
        by (simp add: exc_simps Let_def)
      from poll_files_frame [OF rest] have "seen_le (last_seen s1) (last_seen s')"
        by (auto simp: op_frame_def)
      with process_file_covers [OF pf [unfolded Inr]] have "covered env (last_seen s') [(path_join root ?n, ?n)]"
        by (rule covered_mono)
      with Cons.IH [OF rest] True show ?thesis
        by (simp add: covered_def)
    qed
  qed
qed

lemma poll_walk_covers:
  "poll_walk cfg env w needed s = (Inr b, s') \<Longrightarrow> covered env (last_seen s') (walk_candidates cfg w)"
proof (induction w arbitrary: needed s)
  case Nil
  then show ?case by (simp add: covered_def)
next
  case (Cons d w)
  obtain root dirs files where d: "d = (root, dirs, files)"
    by (cases d) blast
  obtain r1 s1 where pf: "poll_files cfg env root files needed s = (r1, s1)"
    by fastforce
  show ?case
  proof (cases r1)
    case (Inl e)
    with Cons.prems d pf show ?thesis by (simp add: exc_simps)
  next
    case (Inr c)
    with Cons.prems d pf have rest: "poll_walk cfg env w c s1 = (Inr b, s')"
      by (simp add: exc_simps)
    from poll_walk_frame [OF rest] have "seen_le (last_seen s1) (last_seen s')"
      by (auto simp: op_frame_def)
    with poll_files_covers [OF pf [unfolded Inr]]
    have "covered env (last_seen s') (file_candidates cfg root files)"
      by (rule covered_mono)
    with Cons.IH [OF rest] d show ?thesis
      by simp
  qed
qed

lemma poll_frame:
  assumes "poll cfg env s = (r, s')"
  shows "\<exists>es. effects s' = effects s @ es \<and>
           count_list es NotifiedExecutor = (if r = Inr () \<and> copies es \<noteq> [] then 1 else 0) \<and>
           list_all (copy_safe cfg) es \<and> seen_le (last_seen s) (last_seen s') \<and>
           keys_allowed cfg (last_seen s) (last_seen s')"
proof (cases "path_exists env (app_path cfg)")
  case False
  with assms show ?thesis
    by (intro exI [of _ "[LogPathMissing (app_path cfg)]"]) (auto simp: poll_def exc_simps keys_allowed_def)
next
  case True
  obtain r1 s1 where pw: "poll_walk cfg env (walk env (app_path cfg)) False s = (r1, s1)"
    by fastforce
  from poll_walk_frame [OF pw] obtain es where
    f: "op_frame cfg s s1 es" and b: "\<forall>b. r1 = Inr b \<longrightarrow> b = (False \<or> copies es \<noteq> [])"
    by blast
  from f have n: "count_list es NotifiedExecutor = 0"
    by (simp add: op_frame_def count_list_0_iff)
  show ?thesis
  proof (cases r1)
    case (Inl e)
    with assms True pw have "r = Inl e" "s' = s1"
      by (simp_all add: poll_def exc_simps)
    with f n show ?thesis
      by (intro exI [of _ es]) (simp add: op_frame_def)
  next
    case (Inr c)
    with b have c: "c = (copies es \<noteq> [])"
      by simp
    show ?thesis
    proof (cases c)
      case True
      with assms \<open>path_exists env (app_path cfg)\<close> pw Inr
      have "r = Inr ()" "s' = s1\<lparr>effects := effects s1 @ [NotifiedExecutor]\<rparr>"
        by (simp_all add: poll_def notify_executor_def exc_simps)
      with f n c True show ?thesis
        by (intro exI [of _ "es @ [NotifiedExecutor]"]) (simp add: op_frame_def)
    next
      case False
      with assms \<open>path_exists env (app_path cfg)\<close> pw Inr
      have "r = Inr ()" "s' = s1"
        by (simp_all add: poll_def exc_simps)
      with f n c False show ?thesis
        by (intro exI [of _ es]) (simp add: op_frame_def)
    qed
  qed
qed

lemma copies_safe:
  "list_all (copy_safe cfg) es \<Longrightarrow> (p, d) \<in> set (copies es) \<Longrightarrow>
   basename p \<in> set (allowed_files cfg) \<and> d = get_destination_path cfg (basename p)"
  by (induction es rule: copies.induct) auto

lemma handler_inv_init: "handler_inv cfg \<lparr>last_seen = Map.empty, effects = []\<rparr>"
  by (simp add: handler_inv_def)

lemma count_notified_le_copies:
  "count_list es NotifiedExecutor = (if b \<and> copies es \<noteq> [] then 1 else 0) \<Longrightarrow>
   count_list es NotifiedExecutor \<le> length (copies es)"
  by (cases "copies es") auto

lemma handler_inv_poll:
  assumes "handler_inv cfg s" and "poll cfg env s = (r, s')"
  shows "handler_inv cfg s'"
proof -
  from poll_frame [OF assms(2)] obtain es where
    e: "effects s' = effects s @ es"
    and n: "count_list es NotifiedExecutor = (if r = Inr () \<and> copies es \<noteq> [] then 1 else 0)"
    and c: "list_all (copy_safe cfg) es"
    and k: "keys_allowed cfg (last_seen s) (last_seen s')"
    by blast
  from count_notified_le_copies [OF n] have "count_list es NotifiedExecutor \<le> length (copies es)" .
  with assms(1) e c k show ?thesis
    by (auto simp: handler_inv_def keys_allowed_def)
qed

lemmas ex_unfold = ex_cfg_def ex_env_def ex_env_unsearchable_def ex_env_twins_def ex_state_def
  get_destination_path_def path_join_def newer_def notify_executor_def basename_def Let_def

lemma ex_poll_result:
  "poll ex_cfg ex_env ex_state =
     (Inr (), \<lparr>last_seen = [''b.json'' \<mapsto> 7, ''a.json'' \<mapsto> 5],
               effects = [Copied ''/app/a.json'' ''/dl/a.json'', LogSkipped ''notes.txt'', NotifiedExecutor]\<rparr>)"
  by (simp add: poll_def exc_simps process_file_unfold ex_unfold)

text \<open>C2. No retry: after a poll that returned normally, a second poll over the same
  filesystem returns normally, copies nothing, records nothing new and does not notify
  the executor; a copy that failed with a caught error is not attempted again until the
  file changes.\<close>

theorem poll_no_retry:
  assumes "poll cfg env s = (Inr (), s')"
  shows "\<exists>es. poll cfg env s' = (Inr (), s'\<lparr>effects := effects s' @ es\<rparr>) \<and>
              copies es = [] \<and> NotifiedExecutor \<notin> set es"
proof (cases "path_exists env (app_path cfg)")
  case False
  then show ?thesis
    by (intro exI [of _ "[LogPathMissing (app_path cfg)]"]) (simp add: poll_def exc_simps)
next
  case True
  let ?C = "walk_candidates cfg (walk env (app_path cfg))"
  obtain r1 s1 where pw: "poll_walk cfg env (walk env (app_path cfg)) False s = (r1, s1)"
    by fastforce
  with assms True obtain b where r1: "r1 = Inr b"
    and s': "last_seen s' = last_seen s1"
    by (cases r1) (auto simp: poll_def notify_executor_def exc_simps split: if_splits)
  from poll_walk_covers [OF pw [unfolded r1]] s' have cov: "covered env (last_seen s') ?C"
    by simp
  have sc: "scan env (last_seen s') ?C = ([], last_seen s')"
    by (rule scan_covered [OF cov])
  from poll_walk_refines [OF scan_ok_covered [OF cov], of False] obtain es where
    pw': "poll_walk cfg env (walk env (app_path cfg)) False s' =
       (Inr (False \<or> copies es \<noteq> []),
        s'\<lparr>last_seen := snd (scan env (last_seen s') ?C), effects := effects s' @ es\<rparr>)"
    and c: "copies es = expected_copies cfg env (fst (scan env (last_seen s') ?C))"
    and n: "NotifiedExecutor \<notin> set es"
    by blast
  from c sc have c': "copies es = []"
    by simp
  have eq: "s'\<lparr>last_seen := snd (scan env (last_seen s') ?C), effects := effects s' @ es\<rparr> =
            s'\<lparr>effects := effects s' @ es\<rparr>"
    by (simp only: sc snd_conv) simp
  from pw' have "poll_walk cfg env (walk env (app_path cfg)) False s' = (Inr False, s'\<lparr>effects := effects s' @ es\<rparr>)"
    by (simp only: eq c') simp
  with True have "poll cfg env s' = (Inr (), s'\<lparr>effects := effects s' @ es\<rparr>)"
    by (simp add: poll_def exc_simps)
  with c' n show ?thesis
    by blast
qed

text \<open>C3. The executor is notified at most once per poll, and exactly when the poll
  returned normally after copying at least one file.\<close>

theorem poll_notifies_once_iff_copied:
  "poll cfg env s = (r, s') \<Longrightarrow>
   \<exists>es. effects s' = effects s @ es \<and>
        count_list es NotifiedExecutor = (if r = Inr () \<and> copies es \<noteq> [] then 1 else 0)"
  by (blast dest: poll_frame)

text \<open>C4. Every copy a poll makes is of a file whose name is on the allow-list, to the
  destination path of that name, whatever the outcome of the poll.\<close>

theorem poll_copies_only_allowed:
  assumes "poll cfg env s = (r, s')" and "(p, d) \<in> set (copies (effects s'))"
  shows "(p, d) \<in> set (copies (effects s)) \<or>
         basename p \<in> set (allowed_files cfg) \<and> d = get_destination_path cfg (basename p)"
  using poll_frame [OF assms(1)] assms(2) copies_safe by fastforce

text \<open>C5. A missing root path is logged and ends the poll normally: no time is
  recorded, nothing is copied and the executor is not notified.\<close>

theorem poll_path_missing:
  "\<not> path_exists env (app_path cfg) \<Longrightarrow>
   poll cfg env s = (Inr (), s\<lparr>effects := effects s @ [LogPathMissing (app_path cfg)]\<rparr>)"
  by (simp add: poll_def exc_simps)

text \<open>Objects are keyed by base name only: two allowed files with the same name in
  different directories share one recorded time and one destination path, so the
  second copy overwrites the first.\<close>

lemma poll_twins_share_destination:
  "poll ex_cfg ex_env_twins ex_state =
     (Inr (),
      \<lparr>last_seen = [''b.json'' \<mapsto> 7, ''a.json'' \<mapsto> 9],
       effects = [Copied ''/app/a.json'' ''/dl/a.json'', Copied ''/app/sub/a.json'' ''/dl/a.json'',
                  NotifiedExecutor]\<rparr>)"
  by (simp add: poll_def exc_simps process_file_unfold ex_unfold)

text \<open>C26. Over any sequence of polls, against file systems that may change between
  them and whether or not each poll returns normally, only allowed names are ever
  recorded, every copy is of an allowed file to its destination, and the executor is
  never notified more often than files were copied.\<close>

theorem reachable_handler_inv:
  "reachable_handler cfg s \<Longrightarrow> handler_inv cfg s"
proof (induction rule: reachable_handler.induct)
  case init
  show ?case by (rule handler_inv_init)
next
  case (step s env r s')
  then show ?case by (blast intro: handler_inv_poll)
qed

section \<open>Witnesses\<close>

theorem poll_refines_scan_witness:
  "path_exists ex_env (app_path ex_cfg) \<and>
   scan_ok ex_cfg ex_env (last_seen ex_state) (walk_candidates ex_cfg (walk ex_env (app_path ex_cfg))) \<and>
   (\<exists>es. poll ex_cfg ex_env ex_state =
           (Inr (),
            ex_state\<lparr>last_seen := snd (scan ex_env (last_seen ex_state) (walk_candidates ex_cfg (walk ex_env (app_path ex_cfg)))),
              effects := effects ex_state @ es @
                (if copies es = [] then [] else [NotifiedExecutor])\<rparr>) \<and>
           copies es = expected_copies ex_cfg ex_env
                         (fst (scan ex_env (last_seen ex_state) (walk_candidates ex_cfg (walk ex_env (app_path ex_cfg))))) \<and>
           NotifiedExecutor \<notin> set es)"
proof -
  have h1: "path_exists ex_env (app_path ex_cfg)"
    by (simp add: ex_unfold)
  have h2: "scan_ok ex_cfg ex_env (last_seen ex_state) (walk_candidates ex_cfg (walk ex_env (app_path ex_cfg)))"
    by (simp add: scan_ok_def scan.simps ex_unfold)
  show ?thesis
    using h1 h2 poll_refines_scan [OF h1 h2] by blast
qed

theorem poll_no_retry_witness:
  "poll ex_cfg ex_env ex_state =
     (Inr (), \<lparr>last_seen = [''b.json'' \<mapsto> 7, ''a.json'' \<mapsto> 5],
               effects = [Copied ''/app/a.json'' ''/dl/a.json'', LogSkipped ''notes.txt'', NotifiedExecutor]\<rparr>) \<and>
   (\<exists>es. poll ex_cfg ex_env \<lparr>last_seen = [''b.json'' \<mapsto> 7, ''a.json'' \<mapsto> 5],
               effects = [Copied ''/app/a.json'' ''/dl/a.json'', LogSkipped ''notes.txt'', NotifiedExecutor]\<rparr> =
          (Inr (), \<lparr>last_seen = [''b.json'' \<mapsto> 7, ''a.json'' \<mapsto> 5],
               effects = [Copied ''/app/a.json'' ''/dl/a.json'', LogSkipped ''notes.txt'', NotifiedExecutor] @ es\<rparr>) \<and>
        copies es = [] \<and> NotifiedExecutor \<notin> set es)"
  using ex_poll_result poll_no_retry [OF ex_poll_result] by simp

theorem poll_notifies_once_iff_copied_witness:
  "poll ex_cfg ex_env ex_state =
     (Inr (), \<lparr>last_seen = [''b.json'' \<mapsto> 7, ''a.json'' \<mapsto> 5],
               effects = [Copied ''/app/a.json'' ''/dl/a.json'', LogSkipped ''notes.txt'', NotifiedExecutor]\<rparr>) \<and>
   (\<exists>es. [Copied ''/app/a.json'' ''/dl/a.json'', LogSkipped ''notes.txt'', NotifiedExecutor] = effects ex_state @ es \<and>
        count_list es NotifiedExecutor = (if Inr () = (Inr () :: py_exc + unit) \<and> copies es \<noteq> [] then 1 else 0))"
  using ex_poll_result poll_notifies_once_iff_copied [OF ex_poll_result] by simp

theorem poll_copies_only_allowed_witness:
  "poll ex_cfg ex_env ex_state =
     (Inr (), \<lparr>last_seen = [''b.json'' \<mapsto> 7, ''a.json'' \<mapsto> 5],
               effects = [Copied ''/app/a.json'' ''/dl/a.json'', LogSkipped ''notes.txt'', NotifiedExecutor]\<rparr>) \<and>
   (''/app/a.json'', ''/dl/a.json'') \<in> set (copies [Copied ''/app/a.json'' ''/dl/a.json'', LogSkipped ''notes.txt'', NotifiedExecutor]) \<and>
   (basename ''/app/a.json'' \<in> set (allowed_files ex_cfg) \<and>
    ''/dl/a.json'' = get_destination_path ex_cfg (basename ''/app/a.json''))"
proof -
  have h2: "(''/app/a.json'', ''/dl/a.json'') \<in> set (copies (effects (snd (poll ex_cfg ex_env ex_state))))"
    by (simp add: ex_poll_result)
  have "(''/app/a.json'', ''/dl/a.json'') \<in> set (copies (effects ex_state)) \<or>
        basename ''/app/a.json'' \<in> set (allowed_files ex_cfg) \<and>
        ''/dl/a.json'' = get_destination_path ex_cfg (basename ''/app/a.json'')"
    using poll_copies_only_allowed [OF prod.collapse [symmetric] h2] by simp
  then show ?thesis
    using ex_poll_result by (simp add: ex_state_def)
qed

theorem poll_path_missing_witness:
  "\<not> path_exists ex_env (app_path (ex_cfg\<lparr>app_path := ''/missing''\<rparr>)) \<and>
   poll (ex_cfg\<lparr>app_path := ''/missing''\<rparr>) ex_env ex_state =
     (Inr (), ex_state\<lparr>effects := [LogPathMissing ''/missing'']\<rparr>)"
proof -
  have h: "\<not> path_exists ex_env (app_path (ex_cfg\<lparr>app_path := ''/missing''\<rparr>))"
    by (simp add: ex_unfold)
  show ?thesis
    using h poll_path_missing [OF h, of ex_state] by (simp add: ex_state_def)
qed


theorem reachable_handler_inv_witness:
  "reachable_handler ex_cfg \<lparr>last_seen = [''a.json'' \<mapsto> 5, ''b.json'' \<mapsto> 3],
     effects = [Copied ''/app/a.json'' ''/dl/a.json'', LogSkipped ''notes.txt'',
                Copied ''/app/sub/b.json'' ''/dl/b.json'', NotifiedExecutor]\<rparr> \<and>
   handler_inv ex_cfg \<lparr>last_seen = [''a.json'' \<mapsto> 5, ''b.json'' \<mapsto> 3],
     effects = [Copied ''/app/a.json'' ''/dl/a.json'', LogSkipped ''notes.txt'',
                Copied ''/app/sub/b.json'' ''/dl/b.json'', NotifiedExecutor]\<rparr>"
proof -
  have p: "poll ex_cfg ex_env \<lparr>last_seen = Map.empty, effects = []\<rparr> =
     (Inr (), \<lparr>last_seen = [''a.json'' \<mapsto> 5, ''b.json'' \<mapsto> 3],
     effects = [Copied ''/app/a.json'' ''/dl/a.json'', LogSkipped ''notes.txt'',
                Copied ''/app/sub/b.json'' ''/dl/b.json'', NotifiedExecutor]\<rparr>)"
    by (simp add: poll_def exc_simps process_file_unfold ex_unfold)
  have r: "reachable_handler ex_cfg \<lparr>last_seen = [''a.json'' \<mapsto> 5, ''b.json'' \<mapsto> 3],
     effects = [Copied ''/app/a.json'' ''/dl/a.json'', LogSkipped ''notes.txt'',
                Copied ''/app/sub/b.json'' ''/dl/b.json'', NotifiedExecutor]\<rparr>"
    by (rule reachable_handler.step [OF reachable_handler.init p])
  show ?thesis
    using r reachable_handler_inv [OF r] by blast
qed

end
