(* ===== verification/PollerTree.thy ===== *)
theory PollerTree
  imports Poller
begin

text \<open>
  The poller's loops and environment seen from several sides. The nested loop of
  \<open>poll\<close> visits the (directory, file) pairs of the walk in order (\<open>walk_pairs\<close>).
  \<open>escapes\<close> characterises the
  exceptions that can leave a poll. A model of the file system as a tree of directories
  and files with their modification times derives the environment record \<open>os_env\<close>
  (\<open>tree_env\<close>), so that the walk and \<open>getmtime\<close> agree: on a tree that does not
  change during the poll, the poll never raises and leaves every allowed file recorded.
  Work bounds of one poll, and \<open>poll_run\<close>, a sequence of polls, over which an
  unchanged file is never copied twice.
\<close>

section \<open>The walk as one loop\<close>

type_synonym walk_entry = "string \<times> string list \<times> string list"

text \<open>The (directory, file) pairs the two loops of \<open>poll\<close> visit, in order.\<close>

fun walk_pairs :: "walk_entry list \<Rightarrow> (string \<times> string) list" where
  "walk_pairs [] = []"
| "walk_pairs ((root, _, files) # rest) = map (\<lambda>f. (root, f)) files @ walk_pairs rest"

section \<open>A file system that does not change during the poll\<close>

text \<open>A directory's entries: files with their modification time, and subdirectories with
  their own entries, in the order the directory lists them.\<close>

datatype fs_entry = FsFile string int | FsDir string "fs_entry list"

fun entry_dirs :: "fs_entry list \<Rightarrow> string list" where
  "entry_dirs [] = []"
| "entry_dirs (FsFile n t # es) = entry_dirs es"
| "entry_dirs (FsDir n cs # es) = n # entry_dirs es"

fun entry_files :: "fs_entry list \<Rightarrow> string list" where
  "entry_files [] = []"
| "entry_files (FsFile n t # es) = n # entry_files es"
| "entry_files (FsDir n cs # es) = entry_files es"

text \<open>\<open>os.walk(top)\<close>, top-down: the directory's own triple first, then the walk of
  each subdirectory in listing order.\<close>

fun fs_walk :: "string \<Rightarrow> fs_entry list \<Rightarrow> walk_entry list"
and subdir_walks :: "string \<Rightarrow> fs_entry list \<Rightarrow> walk_entry list" where
  "fs_walk dir es = (dir, entry_dirs es, entry_files es) # subdir_walks dir es"
| "subdir_walks dir [] = []"
| "subdir_walks dir (FsFile n t # es) = subdir_walks dir es"
| "subdir_walks dir (FsDir n cs # es) = fs_walk (path_join dir n) cs @ subdir_walks dir es"

text \<open>Every file of the tree as (path, name, modification time), in walk order.\<close>

fun local_files :: "string \<Rightarrow> fs_entry list \<Rightarrow> (string \<times> string \<times> int) list" where
  "local_files dir [] = []"
| "local_files dir (FsFile n t # es) = (path_join dir n, n, t) # local_files dir es"
| "local_files dir (FsDir n cs # es) = local_files dir es"

fun tree_files :: "string \<Rightarrow> fs_entry list \<Rightarrow> (string \<times> string \<times> int) list"
and subdir_files :: "string \<Rightarrow> fs_entry list \<Rightarrow> (string \<times> string \<times> int) list" where
  "tree_files dir es = local_files dir es @ subdir_files dir es"
| "subdir_files dir [] = []"
| "subdir_files dir (FsFile n t # es) = subdir_files dir es"
| "subdir_files dir (FsDir n cs # es) = tree_files (path_join dir n) cs @ subdir_files dir es"

text \<open>File names are single path components.\<close>

fun names_ok :: "fs_entry list \<Rightarrow> bool" where
  "names_ok [] = True"
| "names_ok (FsFile n t # es) = (CHR ''/'' \<notin> set n \<and> names_ok es)"
| "names_ok (FsDir n cs # es) = (names_ok cs \<and> names_ok es)"

text \<open>The environment a tree rooted at \<open>dir\<close> presents: \<open>dir\<close> exists, walking it
  yields \<open>fs_walk\<close> (walking a path that does not exist yields nothing, as
  \<open>os.walk\<close> does), \<open>getmtime\<close> reads the tree and fails only on a path that is
  not in it (\<open>FileNotFoundError\<close>), and copies behave as \<open>cp\<close> says.\<close>

definition tree_env :: "string \<Rightarrow> fs_entry list \<Rightarrow> (string \<Rightarrow> string \<Rightarrow> py_exc option) \<Rightarrow> os_env" where
  "tree_env dir es cp =
     \<lparr>path_exists = (\<lambda>p. p = dir),
      walk = (\<lambda>p. if p = dir then fs_walk dir es else []),
      getmtime = map_of (map (\<lambda>(p, n, t). (p, t)) (tree_files dir es)),
      mtime_error = FileNotFoundError,
      copy_result = cp\<rparr>"

text \<open>Copy failures that \<open>_process_file\<close> catches.\<close>

definition copies_tolerated :: "(string \<Rightarrow> string \<Rightarrow> py_exc option) \<Rightarrow> bool" where
  "copies_tolerated cp \<longleftrightarrow> (\<forall>p d. case cp p d of None \<Rightarrow> True | Some e \<Rightarrow> download_caught e)"

section \<open>Exceptions that leave a poll\<close>

text \<open>An exception \<open>e\<close> can come out of processing the candidates \<open>cs\<close> when some
  candidate's modification time cannot be read (the exception \<open>getmtime\<close> raises at
  its path, whatever its kind, outside the \<open>try\<close>) or when the copy of a readable
  candidate fails with an error the \<open>except\<close> clause does not name.\<close>

definition escapes :: "handler_config \<Rightarrow> os_env \<Rightarrow> (string \<times> string) list \<Rightarrow> py_exc \<Rightarrow> bool" where
  "escapes cfg env cs e \<longleftrightarrow>
     (\<exists>(p, n) \<in> set cs.
        getmtime env p = None \<and> e = mtime_error env p \<or>
        getmtime env p \<noteq> None \<and> copy_result env p (get_destination_path cfg n) = Some e \<and>
        \<not> download_caught e)"

section \<open>Sequences of polls\<close>

text \<open>The poller calls \<open>poll\<close> again and again on the same handler; \<open>poll_run\<close>
  runs it once per environment of the list (the file system as each call finds it),
  keeping the handler's state whether the call returned or raised.\<close>

fun poll_run :: "handler_config \<Rightarrow> os_env list \<Rightarrow> handler_state \<Rightarrow> handler_state" where
  "poll_run cfg [] s = s"
| "poll_run cfg (env # envs) s = poll_run cfg envs (snd (poll cfg env s))"

text \<open>No candidate named \<open>n\<close> is newer than \<open>t\<close>.\<close>

definition not_newer_than :: "os_env \<Rightarrow> (string \<times> string) list \<Rightarrow> string \<Rightarrow> int \<Rightarrow> bool" where
  "not_newer_than env cs n t \<longleftrightarrow>
     (\<forall>(p, m) \<in> set cs. m = n \<longrightarrow> (\<forall>t'. getmtime env p = Some t' \<longrightarrow> t' \<le> t))"

text \<open>A name whose recorded time no candidate exceeds keeps that time and is not
  copied.\<close>

definition stays :: "string \<Rightarrow> int \<Rightarrow> handler_state \<Rightarrow> handler_state \<Rightarrow> bool" where
  "stays n t s s' \<longleftrightarrow> last_seen s' n = Some t \<and>
     (\<exists>es. effects s' = effects s @ es \<and> (\<forall>(p, d) \<in> set (copies es). basename p \<noteq> n))"

section \<open>Example tree\<close>

text \<open>The tree of the examples of \<^verbatim>\<open>Poller.thy\<close>: \<open>/app\<close> holds \<open>a.json\<close> (time 5),
  \<open>notes.txt\<close> and the directory \<open>sub\<close> with \<open>b.json\<close> (time 3).\<close>

definition ex_tree :: "fs_entry list" where
  "ex_tree = [FsFile ''a.json'' 5, FsFile ''notes.txt'' 1, FsDir ''sub'' [FsFile ''b.json'' 3]]"

section \<open>Lemmas\<close>

declare fs_walk.simps(1) [simp del] tree_files.simps(1) [simp del]

lemma walk_pairs_append [simp]: "walk_pairs (xs @ ys) = walk_pairs xs @ walk_pairs ys"
  by (induction xs rule: walk_pairs.induct) simp_all

lemma local_files_entry_files:
  "map (\<lambda>f. (path_join dir f, f)) (entry_files es) = map (\<lambda>(p, n, t). (p, n)) (local_files dir es)"
  by (induction es rule: entry_files.induct) simp_all

text \<open>The walk visits exactly the files of the tree, in the same order.\<close>

lemma walk_pairs_tree:
  "map (\<lambda>(r, f). (path_join r f, f)) (walk_pairs (fs_walk dir es)) = map (\<lambda>(p, n, t). (p, n)) (tree_files dir es)"
  "map (\<lambda>(r, f). (path_join r f, f)) (walk_pairs (subdir_walks dir es)) = map (\<lambda>(p, n, t). (p, n)) (subdir_files dir es)"
proof (induction dir es and dir es rule: fs_walk_subdir_walks.induct)
  case (1 dir es)
  then show ?case
    using local_files_entry_files [of dir es] by (simp add: fs_walk.simps(1) tree_files.simps(1) comp_def)
qed simp_all

lemma tree_files_names:
  "names_ok es \<Longrightarrow> (p, n, t) \<in> set (tree_files dir es) \<Longrightarrow> CHR ''/'' \<notin> set n"
  "names_ok es \<Longrightarrow> (p, n, t) \<in> set (subdir_files dir es) \<Longrightarrow> CHR ''/'' \<notin> set n"
proof (induction dir es and dir es rule: tree_files_subdir_files.induct)
  case (1 dir es)
  moreover have "names_ok es \<Longrightarrow> (p, n, t) \<in> set (local_files dir es) \<Longrightarrow> CHR ''/'' \<notin> set n"
    by (induction dir es rule: local_files.induct) auto
  ultimately show ?case by (auto simp: tree_files.simps(1))
qed auto

lemma walk_candidates_pairs:
  "walk_candidates cfg w =
     map (\<lambda>(r, f). (path_join r (basename f), basename f))
       (filter (\<lambda>(r, f). basename f \<in> set (allowed_files cfg)) (walk_pairs w))"
  by (induction cfg w rule: walk_candidates.induct) (simp_all add: file_candidates_def filter_map comp_def)

lemma candidates_no_slash:
  "\<forall>(r, f) \<in> set xs. basename f = f \<Longrightarrow>
   map (\<lambda>(r, f). (path_join r (basename f), basename f)) (filter (\<lambda>(r, f). basename f \<in> A) xs) =
   filter (\<lambda>(p, n). n \<in> A) (map (\<lambda>(r, f). (path_join r f, f)) xs)"
  by (induction xs) auto

text \<open>On a tree with well-formed names, the poll's candidates are the tree's allowed
  files, in walk order.\<close>

lemma tree_candidates:
  assumes "names_ok es"
  shows "walk_candidates cfg (fs_walk dir es) =
           filter (\<lambda>(p, n). n \<in> set (allowed_files cfg)) (map (\<lambda>(p, n, t). (p, n)) (tree_files dir es))"
proof -
  let ?wp = "walk_pairs (fs_walk dir es)"
  have "\<forall>(r, f) \<in> set ?wp. basename f = f"
  proof (intro ballI, clarify)
    fix r f
    assume "(r, f) \<in> set ?wp"
    then have "(path_join r f, f) \<in> set (map (\<lambda>(r, f). (path_join r f, f)) ?wp)"
      by force
    then obtain t where "(path_join r f, f, t) \<in> set (tree_files dir es)"
      unfolding walk_pairs_tree by auto
    with assms show "basename f = f"
      by (simp add: tree_files_names)
  qed
  then have "walk_candidates cfg (fs_walk dir es) =
               filter (\<lambda>(p, n). n \<in> set (allowed_files cfg)) (map (\<lambda>(r, f). (path_join r f, f)) ?wp)"
    unfolding walk_candidates_pairs by (rule candidates_no_slash)
  then show ?thesis
    by (simp only: walk_pairs_tree)
qed

lemma tree_env_getmtime:
  "(p, n, t) \<in> set (tree_files dir es) \<Longrightarrow> \<exists>t0. getmtime (tree_env dir es cp) p = Some t0"
proof -
  let ?xs = "map (\<lambda>(p, n, t). (p, t)) (tree_files dir es)"
  assume "(p, n, t) \<in> set (tree_files dir es)"
  then have "(p, t) \<in> set ?xs"
    by force
  then show ?thesis
    unfolding tree_env_def by (simp only: os_env.select_convs) (rule weak_map_of_SomeI)
qed

lemma tree_scan_ok:
  assumes "names_ok es" and "copies_tolerated cp"
  shows "scan_ok cfg (tree_env dir es cp) l (walk_candidates cfg (fs_walk dir es))"
proof -
  have "list_all (\<lambda>(p, n). getmtime (tree_env dir es cp) p \<noteq> None) (walk_candidates cfg (fs_walk dir es))"
    unfolding tree_candidates [OF assms(1)] by (auto simp: list_all_iff tree_env_getmtime)
  moreover have "copy_tolerated cfg (tree_env dir es cp) c" for c
    using assms(2) by (cases c) (simp add: copies_tolerated_def tree_env_def)
  ultimately show ?thesis
    by (simp add: scan_ok_def list_all_iff)
qed

lemma escapes_mono: "escapes cfg env cs e \<Longrightarrow> set cs \<subseteq> set cs' \<Longrightarrow> escapes cfg env cs' e"
  unfolding escapes_def by blast

lemma process_file_Inl:
  "process_file cfg env root n s = (Inl e, s') \<Longrightarrow> escapes cfg env [(path_join root n, n)] e"
  by (auto simp: process_file_unfold escapes_def Let_def split: option.splits if_splits)

lemma poll_files_Inl:
  "poll_files cfg env root files needed s = (Inl e, s') \<Longrightarrow>
   escapes cfg env (file_candidates cfg root files) e"
proof (induction files arbitrary: needed s)
  case (Cons f files)
  let ?n = "basename f"
  show ?case
  proof (cases "?n \<in> set (allowed_files cfg)")
    case False
    with Cons.prems have "poll_files cfg env root files needed (s\<lparr>effects := effects s @ [LogSkipped ?n]\<rparr>) = (Inl e, s')"
      by (simp add: exc_simps Let_def)
    with Cons.IH False show ?thesis
      by simp
  next
    case True
    obtain r1 s1 where pf: "process_file cfg env root ?n s = (r1, s1)"
      by fastforce
    show ?thesis
    proof (cases r1)
      case (Inl e1)
      with Cons.prems True pf have "e1 = e"
        by (simp add: exc_simps Let_def)
      with process_file_Inl [OF pf [unfolded Inl]] True show ?thesis
        by (auto elim: escapes_mono)
    next
      case (Inr c)
      with Cons.prems True pf have "poll_files cfg env root files (needed \<or> c) s1 = (Inl e, s')"
        by (simp add: exc_simps Let_def)
      from Cons.IH [OF this] show ?thesis
        by (auto elim: escapes_mono)
    qed
  qed
qed (simp add: exc_simps)

lemma poll_walk_Inl:
  "poll_walk cfg env w needed s = (Inl e, s') \<Longrightarrow> escapes cfg env (walk_candidates cfg w) e"
proof (induction w arbitrary: needed s)
  case (Cons d w)
  obtain root dirs files where d: "d = (root, dirs, files)"
    by (cases d) blast
  obtain r1 s1 where pf: "poll_files cfg env root files needed s = (r1, s1)"
    by fastforce
  show ?case
  proof (cases r1)
    case (Inl e1)
    with Cons.prems d pf have "e1 = e"
      by (simp add: exc_simps)
    with poll_files_Inl [OF pf [unfolded Inl]] d show ?thesis
      by (auto elim: escapes_mono)
  next
    case (Inr c)
    with Cons.prems d pf have "poll_walk cfg env w c s1 = (Inl e, s')"
      by (simp add: exc_simps)
    from Cons.IH [OF this] d show ?thesis
      by (auto elim: escapes_mono)
  qed
qed (simp add: exc_simps)

text \<open>Work bounds: one file contributes at most one effect and at most one copy.\<close>

lemma process_file_bound:
  "process_file cfg env root n s = (r, s') \<Longrightarrow>
   \<exists>es. effects s' = effects s @ es \<and> length es \<le> 1 \<and> length (copies es) \<le> 1"
  by (auto simp: process_file_unfold Let_def split: option.splits if_splits
      intro: exI [of _ "[]"] exI [of _ "[Copied _ _]"] exI [of _ "[LogDownloadFailed _]"])

lemma poll_files_bound:
  "poll_files cfg env root files needed s = (r, s') \<Longrightarrow>
   \<exists>es. effects s' = effects s @ es \<and> length es \<le> length files \<and>
        length (copies es) \<le> length (file_candidates cfg root files)"
proof (induction files arbitrary: needed s)
  case Nil
  then show ?case by (auto simp: exc_simps)
next
  case (Cons f files)
  let ?n = "basename f"
  show ?case
  proof (cases "?n \<in> set (allowed_files cfg)")
    case False
    with Cons.prems have "poll_files cfg env root files needed (s\<lparr>effects := effects s @ [LogSkipped ?n]\<rparr>) = (r, s')"
      by (simp add: exc_simps Let_def)
    from Cons.IH [OF this] obtain es where
      "effects s' = effects s @ LogSkipped ?n # es" "length es \<le> length files"
      "length (copies es) \<le> length (file_candidates cfg root files)"
      by auto
    with False show ?thesis
      by (intro exI [of _ "LogSkipped ?n # es"]) auto
  next
    case True
    obtain r1 s1 where pf: "process_file cfg env root ?n s = (r1, s1)"
      by fastforce
    from process_file_bound [OF pf] obtain es1 where
      e1: "effects s1 = effects s @ es1" "length es1 \<le> 1" "length (copies es1) \<le> 1"
      by blast
    show ?thesis
    proof (cases r1)
      case (Inl e)
      with Cons.prems True pf have "s' = s1"
        by (simp add: exc_simps Let_def)
      with e1 True show ?thesis
        by (intro exI [of _ es1]) auto
    next
      case (Inr c)
      with Cons.prems True pf have "poll_files cfg env root files (needed \<or> c) s1 = (r, s')"
        by (simp add: exc_simps Let_def)
      from Cons.IH [OF this] obtain es2 where
        "effects s' = effects s1 @ es2" "length es2 \<le> length files"
        "length (copies es2) \<le> length (file_candidates cfg root files)"
        by blast
      with e1 True show ?thesis
        by (intro exI [of _ "es1 @ es2"]) auto
    qed
  qed
qed

lemma poll_walk_bound:
  "poll_walk cfg env w needed s = (r, s') \<Longrightarrow>
   \<exists>es. effects s' = effects s @ es \<and> length es \<le> length (walk_pairs w) \<and>
        length (copies es) \<le> length (walk_candidates cfg w)"
proof (induction w arbitrary: needed s)
  case Nil
  then show ?case by (auto simp: exc_simps)
next
  case (Cons d w)
  obtain root dirs files where d: "d = (root, dirs, files)"
    by (cases d) blast
  obtain r1 s1 where pf: "poll_files cfg env root files needed s = (r1, s1)"
    by fastforce
  from poll_files_bound [OF pf] obtain es1 where
    e1: "effects s1 = effects s @ es1" "length es1 \<le> length files"
        "length (copies es1) \<le> length (file_candidates cfg root files)"
    by blast
  show ?case
  proof (cases r1)
    case (Inl e)
    with Cons.prems d pf have "s' = s1"
      by (simp add: exc_simps)
    with e1 d show ?thesis
      by (intro exI [of _ es1]) auto
  next
    case (Inr c)
    with Cons.prems d pf have "poll_walk cfg env w c s1 = (r, s')"
      by (simp add: exc_simps)
    from Cons.IH [OF this] obtain es2 where
      "effects s' = effects s1 @ es2" "length es2 \<le> length (walk_pairs w)"
      "length (copies es2) \<le> length (walk_candidates cfg w)"
      by blast
    with e1 d show ?thesis
      by (intro exI [of _ "es1 @ es2"]) auto
  qed
qed

lemma stays_refl: "last_seen s n = Some t \<Longrightarrow> stays n t s s"
  by (auto simp: stays_def intro: exI [of _ "[]"])

lemma stays_trans: "stays n t s1 s2 \<Longrightarrow> stays n t s2 s3 \<Longrightarrow> stays n t s1 s3"
  unfolding stays_def by (metis Un_iff append_assoc copies_append set_append)

lemma stays_log: "last_seen s n = Some t \<Longrightarrow> copies [ev] = [] \<Longrightarrow> stays n t s (s\<lparr>effects := effects s @ [ev]\<rparr>)"
  by (auto simp: stays_def intro!: exI [of _ "[ev]"])

lemma not_newer_than_Nil [simp]: "not_newer_than env [] n t"
  by (simp add: not_newer_than_def)

lemma not_newer_than_Cons [simp]:
  "not_newer_than env ((p, m) # cs) n t \<longleftrightarrow>
     (m = n \<longrightarrow> (\<forall>t'. getmtime env p = Some t' \<longrightarrow> t' \<le> t)) \<and> not_newer_than env cs n t"
  by (auto simp: not_newer_than_def)

lemma not_newer_than_append [simp]:
  "not_newer_than env (xs @ ys) n t \<longleftrightarrow> not_newer_than env xs n t \<and> not_newer_than env ys n t"
  by (auto simp: not_newer_than_def)

lemma process_file_stays:
  assumes "process_file cfg env root m s = (r, s')" and "last_seen s n = Some t"
    and "m = n \<longrightarrow> (\<forall>t'. getmtime env (path_join root m) = Some t' \<longrightarrow> t' \<le> t)"
    and "CHR ''/'' \<notin> set m"
  shows "stays n t s s'"
proof (cases "getmtime env (path_join root m)")
  case None
  with assms(1,2) show ?thesis
    by (simp add: process_file_unfold stays_refl Let_def)
next
  case (Some t1)
  show ?thesis
  proof (cases "newer (last_seen s) m t1")
    case False
    with Some assms(1,2) show ?thesis
      by (simp add: process_file_unfold stays_refl Let_def)
  next
    case True
    with Some assms(2,3) have mn: "m \<noteq> n"
      by (auto simp: newer_def)
    let ?p = "path_join root m" and ?d = "get_destination_path cfg m"
    let ?s1 = "s\<lparr>last_seen := (last_seen s)(m \<mapsto> t1)\<rparr>"
    have s1: "last_seen ?s1 n = Some t"
      using mn assms(2) by simp
    have bp: "basename ?p = m"
      using assms(4) by (rule basename_path_join)
    show ?thesis
    proof (cases "copy_result env ?p ?d")
      case None
      with Some True assms(1) have "s' = ?s1\<lparr>effects := effects s @ [Copied ?p ?d]\<rparr>"
        by (simp add: process_file_unfold Let_def)
      with s1 bp mn show ?thesis
        by (auto simp: stays_def)
    next
      case (Some e)
      with \<open>getmtime env ?p = Some t1\<close> True assms(1)
      have "s' = (if download_caught e then ?s1\<lparr>effects := effects s @ [LogDownloadFailed m]\<rparr> else ?s1)"
        by (simp add: process_file_unfold Let_def split: if_splits)
      with s1 show ?thesis
        by (auto simp: stays_def intro: exI [of _ "[]"] exI [of _ "[LogDownloadFailed m]"])
    qed
  qed
qed

lemma poll_files_stays:
  "poll_files cfg env root files needed s = (r, s') \<Longrightarrow> last_seen s n = Some t \<Longrightarrow>
   not_newer_than env (file_candidates cfg root files) n t \<Longrightarrow> stays n t s s'"
proof (induction files arbitrary: needed s)
  case Nil
  then show ?case by (simp add: exc_simps stays_refl)
next
  case (Cons f files)
  let ?m = "basename f"
  show ?case
  proof (cases "?m \<in> set (allowed_files cfg)")
    case False
    let ?s1 = "s\<lparr>effects := effects s @ [LogSkipped ?m]\<rparr>"
    from False Cons.prems(1) have "poll_files cfg env root files needed ?s1 = (r, s')"
      by (simp add: exc_simps Let_def)
    from Cons.IH [OF this] Cons.prems(2,3) False have "stays n t ?s1 s'"
      by simp
    have "stays n t s ?s1"
      using Cons.prems(2) by (rule stays_log) simp
    from this \<open>stays n t ?s1 s'\<close> show ?thesis
      by (rule stays_trans)
  next
    case True
    obtain r1 s1 where pf: "process_file cfg env root ?m s = (r1, s1)"
      by fastforce
    from Cons.prems(3) True have nn: "not_newer_than env (file_candidates cfg root files) n t"
      and hd: "?m = n \<longrightarrow> (\<forall>t'. getmtime env (path_join root ?m) = Some t' \<longrightarrow> t' \<le> t)"
      by simp_all
    from process_file_stays [OF pf Cons.prems(2) hd basename_no_slash_result]
    have st1: "stays n t s s1" .
    show ?thesis
    proof (cases r1)
      case (Inl e)
      with Cons.prems(1) True pf have "s' = s1"
        by (simp add: exc_simps Let_def)
      with st1 show ?thesis by simp
    next
      case (Inr c)
      with Cons.prems(1) True pf have "poll_files cfg env root files (needed \<or> c) s1 = (r, s')"
        by (simp add: exc_simps Let_def)
      from Cons.IH [OF this _ nn] st1 have "stays n t s1 s'"
        by (simp add: stays_def)
      with st1 show ?thesis
        by (rule stays_trans)
    qed
  qed
qed

lemma poll_walk_stays:
  "poll_walk cfg env w needed s = (r, s') \<Longrightarrow> last_seen s n = Some t \<Longrightarrow>
   not_newer_than env (walk_candidates cfg w) n t \<Longrightarrow> stays n t s s'"
proof (induction w arbitrary: needed s)
  case Nil
  then show ?case by (simp add: exc_simps stays_refl)
next
  case (Cons d w)
  obtain root dirs files where d: "d = (root, dirs, files)"
    by (cases d) blast
  obtain r1 s1 where pf: "poll_files cfg env root files needed s = (r1, s1)"
    by fastforce
  from Cons.prems(3) d have nn1: "not_newer_than env (file_candidates cfg root files) n t"
    and nn2: "not_newer_than env (walk_candidates cfg w) n t"
    by simp_all
  from poll_files_stays [OF pf Cons.prems(2) nn1] have st1: "stays n t s s1" .
  show ?case
  proof (cases r1)
    case (Inl e)
    with Cons.prems(1) d pf have "s' = s1"
      by (simp add: exc_simps)
    with st1 show ?thesis by simp
  next
    case (Inr c)
    with Cons.prems(1) d pf have "poll_walk cfg env w c s1 = (r, s')"
      by (simp add: exc_simps)
    from Cons.IH [OF this _ nn2] st1 have "stays n t s1 s'"
      by (simp add: stays_def)
    with st1 show ?thesis
      by (rule stays_trans)
  qed
qed

lemma poll_stays:
  assumes "poll cfg env s = (r, s')" and "last_seen s n = Some t"
    and "not_newer_than env (walk_candidates cfg (walk env (app_path cfg))) n t"
  shows "stays n t s s'"
proof (cases "path_exists env (app_path cfg)")
  case False
  with assms(1,2) show ?thesis
    by (auto simp: poll_def log_def exc_simps intro: stays_log)
next
  case True
  obtain r1 s1 where pw: "poll_walk cfg env (walk env (app_path cfg)) False s = (r1, s1)"
    by fastforce
  from poll_walk_stays [OF pw assms(2,3)] have st1: "stays n t s s1" .
  then have ls1: "last_seen s1 n = Some t"
    by (simp add: stays_def)
  have "s' = s1 \<or> s' = s1\<lparr>effects := effects s1 @ [NotifiedExecutor]\<rparr>"
    using assms(1) True pw
    by (auto simp: poll_def notify_executor_def log_def exc_simps split: sum.splits if_splits)
  then show ?thesis
    using st1 stays_trans [OF st1 stays_log [OF ls1, of NotifiedExecutor]] by auto
qed

lemma poll_run_stays:
  "last_seen s n = Some t \<Longrightarrow>
   \<forall>env \<in> set envs. not_newer_than env (walk_candidates cfg (walk env (app_path cfg))) n t \<Longrightarrow>
   stays n t s (poll_run cfg envs s)"
proof (induction envs arbitrary: s)
  case Nil
  then show ?case by (simp add: stays_refl)
next
  case (Cons env envs)
  obtain r s1 where p: "poll cfg env s = (r, s1)"
    by fastforce
  from poll_stays [OF p Cons.prems(1)] Cons.prems(2) have st1: "stays n t s s1"
    by simp
  then have "last_seen s1 n = Some t"
    by (simp add: stays_def)
  from Cons.IH [OF this] Cons.prems(2) have "stays n t s1 (poll_run cfg envs s1)"
    by simp
  with st1 p show ?case
    by (simp add: stays_trans)
qed

text \<open>Files of which none is on the allow-list are only logged as skipped.\<close>

lemma poll_files_disallowed:
  "list_all (\<lambda>f. basename f \<notin> set (allowed_files cfg)) files \<Longrightarrow>
   poll_files cfg env root files needed s =
     (Inr needed, s\<lparr>effects := effects s @ map (\<lambda>f. LogSkipped (basename f)) files\<rparr>)"
  by (induction files arbitrary: s) (simp_all add: exc_simps log_def Let_def)

lemma poll_walk_disallowed:
  "list_all (\<lambda>(root, _, files). list_all (\<lambda>f. basename f \<notin> set (allowed_files cfg)) files) w \<Longrightarrow>
   poll_walk cfg env w needed s =
     (Inr needed, s\<lparr>effects := effects s @ map (\<lambda>(r, f). LogSkipped (basename f)) (walk_pairs w)\<rparr>)"
proof (induction w arbitrary: s)
  case (Cons entry w)
  obtain root ds files where e: "entry = (root, ds, files)"
    by (cases entry) blast
  with Cons show ?case
    by (simp add: exc_simps poll_files_disallowed comp_def)
qed (simp add: exc_simps)

section \<open>Theorems\<close>

text \<open>C28. A poll over a file system that does not change while it runs: when every
  file name is a single path component and copy failures are of the two kinds
  \<open>_process_file\<close> catches, the poll returns normally, and afterwards every allowed file
  of the tree is recorded with at least the modification time \<open>getmtime\<close> reports for
  it, so the next poll over the same tree copies nothing.\<close>

theorem poll_static_tree_synced:
  assumes "names_ok es" and "app_path cfg = dir" and "copies_tolerated cp"
  shows "\<exists>s'. poll cfg (tree_env dir es cp) s = (Inr (), s') \<and>
           (\<forall>(p, n, t) \<in> set (tree_files dir es). n \<in> set (allowed_files cfg) \<longrightarrow>
              (\<exists>t0 t'. getmtime (tree_env dir es cp) p = Some t0 \<and> last_seen s' n = Some t' \<and> t0 \<le> t'))"
proof -
  let ?env = "tree_env dir es cp"
  let ?w = "walk ?env (app_path cfg)"
  have w: "?w = fs_walk dir es" and ex: "path_exists ?env (app_path cfg)"
    using assms(2) by (simp_all add: tree_env_def)
  from tree_scan_ok [OF assms(1,3)] w
  have "scan_ok cfg ?env (last_seen s) (walk_candidates cfg ?w)"
    by simp
  from poll_walk_refines [OF this, of False] obtain es' s1 b where
    pw: "poll_walk cfg ?env ?w False s = (Inr b, s1)"
    by blast
  let ?s' = "if b then s1\<lparr>effects := effects s1 @ [NotifiedExecutor]\<rparr> else s1"
  have poll: "poll cfg ?env s = (Inr (), ?s')"
    using ex pw by (simp add: poll_def notify_executor_def exc_simps)
  have ls: "last_seen ?s' = last_seen s1"
    by simp
  from poll_walk_covers [OF pw] w assms(1)
  have cov: "covered ?env (last_seen ?s') (filter (\<lambda>(p, n). n \<in> set (allowed_files cfg))
                (map (\<lambda>(p, n, t). (p, n)) (tree_files dir es)))"
    by (simp add: tree_candidates)
  have key: "\<exists>t0. getmtime ?env p = Some t0 \<and> (\<exists>t'. last_seen s1 n = Some t' \<and> t0 \<le> t')"
    if mem: "(p, n, t) \<in> set (tree_files dir es)" and al: "n \<in> set (allowed_files cfg)" for p n t
  proof -
    from mem al have "(p, n) \<in> set (filter (\<lambda>(p, n). n \<in> set (allowed_files cfg))
                                (map (\<lambda>(p, n, t). (p, n)) (tree_files dir es)))"
      by force
    with cov have "case getmtime ?env p of None \<Rightarrow> False | Some t0 \<Rightarrow> \<not> newer (last_seen ?s') n t0"
      unfolding covered_def list_all_iff by fastforce
    then show ?thesis
      by (auto simp: ls newer_def split: option.splits)
  qed
  show ?thesis
    by (intro exI [of _ ?s'] conjI poll) (auto simp: ls intro: key)
qed

text \<open>C27. The exceptions that can leave a poll, for every environment: when \<open>poll\<close>
  raises, the watched path exists and the exception is either the one
  \<open>os.path.getmtime\<close> raised on an allowed file whose modification time could not be
  read (whatever its kind: \<open>FileNotFoundError\<close>, \<open>PermissionError\<close>, another
  \<open>OSError\<close>), or an error the \<open>except\<close> clause does not name raised by the copy of
  an allowed, readable file. A missing watched path, disallowed files, and copies
  failing with \<open>FileNotFoundError\<close> or \<open>PermissionError\<close> never make a poll raise.\<close>

theorem poll_escaping_exceptions:
  "poll cfg env s = (Inl e, s') \<Longrightarrow>
   path_exists env (app_path cfg) \<and> escapes cfg env (walk_candidates cfg (walk env (app_path cfg))) e"
  by (auto simp: poll_def notify_executor_def log_def exc_simps intro: poll_walk_Inl
      split: if_splits sum.splits prod.splits)

text \<open>C29. Bounds on the work of one poll: it appends at most one effect per file the
  walk lists (a skip record, a copy or a failed-copy record) plus one (the notification,
  or the record of a missing path), and copies at most as many files as the walk lists
  allowed files.\<close>

theorem poll_effects_bounded:
  assumes "poll cfg env s = (r, s')"
  shows "\<exists>es. effects s' = effects s @ es \<and>
           length es \<le> length (walk_pairs (walk env (app_path cfg))) + 1 \<and>
           length (copies es) \<le> length (walk_candidates cfg (walk env (app_path cfg)))"
proof (cases "path_exists env (app_path cfg)")
  case False
  with assms show ?thesis
    by (auto simp: poll_def log_def exc_simps)
next
  case True
  obtain r1 s1 where pw: "poll_walk cfg env (walk env (app_path cfg)) False s = (r1, s1)"
    by fastforce
  from poll_walk_bound [OF pw] obtain es where
    e: "effects s1 = effects s @ es" "length es \<le> length (walk_pairs (walk env (app_path cfg)))"
       "length (copies es) \<le> length (walk_candidates cfg (walk env (app_path cfg)))"
    by blast
  consider (raised) e' where "r1 = Inl e'" | (quiet) "r1 = Inr False" | (notify) "r1 = Inr True"
    by (metis (full_types) sumE)
  then show ?thesis
  proof cases
    case raised
    with assms True pw e show ?thesis
      by (intro exI [of _ es]) (auto simp: poll_def exc_simps)
  next
    case quiet
    with assms True pw e show ?thesis
      by (intro exI [of _ es]) (auto simp: poll_def exc_simps)
  next
    case notify
    with assms True pw e show ?thesis
      by (intro exI [of _ "es @ [NotifiedExecutor]"])
        (auto simp: poll_def notify_executor_def log_def exc_simps)
  qed
qed

text \<open>C13. Over any sequence of polls, whatever the file system does between them, a
  name recorded at time \<open>t\<close> keeps that record and no file of that name is copied
  again, as long as no allowed file of that name the walks list is newer than \<open>t\<close>:
  an unchanged file is never downloaded twice.\<close>

theorem poll_run_no_recopy:
  assumes "last_seen s n = Some t"
    and "\<forall>env \<in> set envs. not_newer_than env (walk_candidates cfg (walk env (app_path cfg))) n t"
  shows "last_seen (poll_run cfg envs s) n = Some t \<and>
         (\<exists>es. effects (poll_run cfg envs s) = effects s @ es \<and>
              (\<forall>(p, d) \<in> set (copies es). basename p \<noteq> n))"
  using poll_run_stays [OF assms] by (simp add: stays_def)

text \<open>C6. A watched directory that holds no allowed file: the poll returns normally,
  logs every file the walk lists as skipped, in walk order, and does nothing else: no
  time is recorded, nothing is copied and the executor is not notified.\<close>

theorem poll_only_disallowed:
  assumes "path_exists env (app_path cfg)"
    and "list_all (\<lambda>(root, _, files). list_all (\<lambda>f. basename f \<notin> set (allowed_files cfg)) files)
           (walk env (app_path cfg))"
  shows "poll cfg env s =
           (Inr (), s\<lparr>effects := effects s @ map (\<lambda>(r, f). LogSkipped (basename f)) (walk_pairs (walk env (app_path cfg)))\<rparr>)"
  using assms by (simp add: poll_def poll_walk_disallowed exc_simps)

section \<open>Witnesses\<close>

theorem poll_escaping_exceptions_witness:
  "poll ex_cfg ex_env_unsearchable ex_state =
     (Inl (PermissionError ''/app/sub/b.json''),
      \<lparr>last_seen = [''b.json'' \<mapsto> 7, ''a.json'' \<mapsto> 5],
       effects = [Copied ''/app/a.json'' ''/dl/a.json'', LogSkipped ''notes.txt'']\<rparr>) \<and>
   path_exists ex_env_unsearchable (app_path ex_cfg) \<and>
   escapes ex_cfg ex_env_unsearchable (walk_candidates ex_cfg (walk ex_env_unsearchable (app_path ex_cfg)))
     (PermissionError ''/app/sub/b.json'')"
proof -
  have p: "poll ex_cfg ex_env_unsearchable ex_state =
     (Inl (PermissionError ''/app/sub/b.json''),
      \<lparr>last_seen = [''b.json'' \<mapsto> 7, ''a.json'' \<mapsto> 5],
       effects = [Copied ''/app/a.json'' ''/dl/a.json'', LogSkipped ''notes.txt'']\<rparr>)"
    by (simp add: poll_def exc_simps process_file_unfold ex_unfold)
  from poll_escaping_exceptions [OF p] p show ?thesis
    by simp
qed
theorem poll_static_tree_synced_witness:
  "names_ok ex_tree \<and> app_path ex_cfg = ''/app'' \<and> copies_tolerated (\<lambda>_ _. None) \<and>
   (\<exists>s'. poll ex_cfg (tree_env ''/app'' ex_tree (\<lambda>_ _. None)) ex_state = (Inr (), s') \<and>
     (\<forall>(p, n, t) \<in> set (tree_files ''/app'' ex_tree). n \<in> set (allowed_files ex_cfg) \<longrightarrow>
        (\<exists>t0 t'. getmtime (tree_env ''/app'' ex_tree (\<lambda>_ _. None)) p = Some t0 \<and>
                 last_seen s' n = Some t' \<and> t0 \<le> t')))"
proof -
  have h: "names_ok ex_tree" "app_path ex_cfg = ''/app''" "copies_tolerated (\<lambda>_ _. None)"
    by (simp_all add: ex_tree_def ex_cfg_def copies_tolerated_def)
  from poll_static_tree_synced [OF h] h show ?thesis
    by blast
qed

theorem poll_effects_bounded_witness:
  "poll ex_cfg ex_env ex_state =
     (Inr (), \<lparr>last_seen = [''b.json'' \<mapsto> 7, ''a.json'' \<mapsto> 5],
               effects = [Copied ''/app/a.json'' ''/dl/a.json'', LogSkipped ''notes.txt'', NotifiedExecutor]\<rparr>) \<and>
   (\<exists>es. [Copied ''/app/a.json'' ''/dl/a.json'', LogSkipped ''notes.txt'', NotifiedExecutor] = effects ex_state @ es \<and>
        length es \<le> length (walk_pairs (walk ex_env (app_path ex_cfg))) + 1 \<and>
        length (copies es) \<le> length (walk_candidates ex_cfg (walk ex_env (app_path ex_cfg))))"
  using poll_effects_bounded [OF ex_poll_result] ex_poll_result by simp

theorem poll_run_no_recopy_witness:
  "last_seen ex_state ''b.json'' = Some 7 \<and>
   not_newer_than ex_env (walk_candidates ex_cfg (walk ex_env (app_path ex_cfg))) ''b.json'' 7 \<and>
   not_newer_than ex_env_twins (walk_candidates ex_cfg (walk ex_env_twins (app_path ex_cfg))) ''b.json'' 7 \<and>
   last_seen (poll_run ex_cfg [ex_env, ex_env_twins] ex_state) ''b.json'' = Some 7 \<and>
   (\<exists>es. effects (poll_run ex_cfg [ex_env, ex_env_twins] ex_state) = effects ex_state @ es \<and>
        (\<forall>(p, d) \<in> set (copies es). basename p \<noteq> ''b.json''))"
proof -
  have h1: "last_seen ex_state ''b.json'' = Some 7"
    by (simp add: ex_state_def)
  have h2: "\<forall>env \<in> set [ex_env, ex_env_twins].
      not_newer_than env (walk_candidates ex_cfg (walk env (app_path ex_cfg))) ''b.json'' 7"
    by (simp add: ex_unfold)
  from poll_run_no_recopy [OF h1 h2] h1 h2 show ?thesis
    by (simp only: list.set ball_simps insert_iff empty_iff)
qed

theorem poll_only_disallowed_witness:
  "path_exists (ex_env\<lparr>walk := \<lambda>_. [(''/app'', [], [''notes.txt'', ''README.md''])]\<rparr>) (app_path ex_cfg) \<and>
   list_all (\<lambda>(root, _, files). list_all (\<lambda>f. basename f \<notin> set (allowed_files ex_cfg)) files)
     (walk (ex_env\<lparr>walk := \<lambda>_. [(''/app'', [], [''notes.txt'', ''README.md''])]\<rparr>) (app_path ex_cfg)) \<and>
   poll ex_cfg (ex_env\<lparr>walk := \<lambda>_. [(''/app'', [], [''notes.txt'', ''README.md''])]\<rparr>) ex_state =
     (Inr (), ex_state\<lparr>effects := [LogSkipped ''notes.txt'', LogSkipped ''README.md'']\<rparr>)"
proof -
  let ?env = "ex_env\<lparr>walk := \<lambda>_. [(''/app'', [], [''notes.txt'', ''README.md''])]\<rparr>"
  have h1: "path_exists ?env (app_path ex_cfg)"
    by (simp add: ex_env_def ex_cfg_def)
  have h2: "list_all (\<lambda>(root, _, files). list_all (\<lambda>f. basename f \<notin> set (allowed_files ex_cfg)) files)
     (walk ?env (app_path ex_cfg))"
    by (simp add: ex_env_def ex_cfg_def basename_def)
  from poll_only_disallowed [OF h1 h2, of ex_state] h1 h2 show ?thesis
    by (simp add: ex_env_def ex_cfg_def ex_state_def basename_def)
qed

end
