(* ===== verification/PollerLive.thy ===== *)
theory PollerLive
  imports Poller "HOL-Library.AList" "HOL-Library.Multiset_Order"
begin

text \<open>
  The poll against a file system that its own copies change. In \<^verbatim>\<open>Poller.thy\<close>
  the environment is fixed for the whole call; here the disk is part of the state:
  \<open>os.walk\<close> is a generator that lists a directory only when its loop reaches it
  (CPython's \<open>os.walk\<close> keeps a stack of directories, lists the one it pops, yields
  it, and pushes its subdirectories after the caller has processed the yielded files),
  and a successful \<open>shutil.copy\<close> writes the destination file with the current time
  as its modification time. Copies made while one directory is processed are therefore
  seen by the directories listed later. The walk is a \<open>partial_function (option)\<close>
  (\<open>None\<close>: it does not end). When the download directory lies apart from the
  watched one and directory names are single path components, the live poll returns,
  and it is the static poll of \<^verbatim>\<open>Poller.thy\<close> run on the
  walk of the initial disk (\<^verbatim>\<open>PollerRefine.thy\<close>); when it lies inside, a copy
  can be met again in the same walk (\<open>poll_live_self_copy_loses_notification\<close>).
\<close>

section \<open>The disk\<close>

text \<open>Directories as (parent path, name), files as ((directory path, name), modification
  time) in listing order, and the clock that stamps a newly written file.\<close>

record fs_state =
  fs_dirs :: "(string \<times> string) list"
  fs_files :: "((string \<times> string) \<times> int) list"
  fs_clock :: int

definition dir_paths :: "fs_state \<Rightarrow> string list" where
  "dir_paths fs = map (\<lambda>(p, n). path_join p n) (fs_dirs fs)"

text \<open>\<open>os.scandir(d)\<close> split as \<open>os.walk\<close> splits it: subdirectory names and
  file names.\<close>

definition list_dirs :: "fs_state \<Rightarrow> string \<Rightarrow> string list" where
  "list_dirs fs d = map snd (filter (\<lambda>(p, n). p = d) (fs_dirs fs))"

definition list_files :: "fs_state \<Rightarrow> string \<Rightarrow> string list" where
  "list_files fs d = map (\<lambda>((p, n), t). n) (filter (\<lambda>((p, n), t). p = d) (fs_files fs))"

definition fs_mtime :: "fs_state \<Rightarrow> string \<Rightarrow> int option" where
  "fs_mtime fs = map_of (map (\<lambda>((p, n), t). (path_join p n, t)) (fs_files fs))"

text \<open>\<open>os.path.dirname\<close> (POSIX): the part up to the last slash, without trailing
  slashes unless it consists of slashes only.\<close>

definition dirname :: "string \<Rightarrow> string" where
  "dirname p =
     (let head = rev (dropWhile (\<lambda>c. c \<noteq> CHR ''/'') (rev p)) in
      if head \<noteq> [] \<and> \<not> list_all (\<lambda>c. c = CHR ''/'') head
      then rev (dropWhile (\<lambda>c. c = CHR ''/'') (rev head)) else head)"

text \<open>\<open>shutil.copy(src, dst)\<close>: a directory \<open>dst\<close> receives the file under its
  base name; copying a file onto itself raises \<open>SameFileError\<close> (an \<open>OSError\<close>),
  checked first; then a missing source, then a missing destination directory raise
  \<open>FileNotFoundError\<close>.\<close>

definition copy_dest :: "fs_state \<Rightarrow> string \<Rightarrow> string \<Rightarrow> string" where
  "copy_dest fs src dst = (if dst \<in> set (dir_paths fs) then path_join dst (basename src) else dst)"

definition fs_copy_result :: "fs_state \<Rightarrow> string \<Rightarrow> string \<Rightarrow> py_exc option" where
  "fs_copy_result fs src dst =
     (let d = copy_dest fs src dst in
      if d = src then Some (OSError ''SameFileError'')
      else if fs_mtime fs src = None then Some (FileNotFoundError src)
      else if dirname d \<notin> set (dir_paths fs) then Some (FileNotFoundError d)
      else None)"

text \<open>The write a successful copy makes: the destination file, stamped with the clock.\<close>

definition fs_write :: "fs_state \<Rightarrow> string \<Rightarrow> fs_state" where
  "fs_write fs d =
     fs\<lparr>fs_files := AList.update (dirname d, basename d) (fs_clock fs) (fs_files fs),
        fs_clock := fs_clock fs + 1\<rparr>"

text \<open>What \<open>_process_file\<close> sees of the disk at the moment it runs: \<open>exists\<close>,
  \<open>getmtime\<close> and \<open>copy\<close> act on the current disk. It does not walk (the loop
  below lists the directories), so the snapshot's walk yields nothing.\<close>

definition fs_env :: "fs_state \<Rightarrow> os_env" where
  "fs_env fs =
     \<lparr>path_exists = (\<lambda>p. p \<in> set (dir_paths fs) \<or> fs_mtime fs p \<noteq> None),
      walk = (\<lambda>_. []),
      getmtime = fs_mtime fs,
      mtime_error = FileNotFoundError,
      copy_result = fs_copy_result fs\<rparr>"

section \<open>The poll on a live disk\<close>

record live_state =
  handler :: handler_state
  disk :: fs_state

text \<open>The disk after the effects of one call: each successful copy writes its
  destination.\<close>

fun apply_effect :: "fs_state \<Rightarrow> effect \<Rightarrow> fs_state" where
  "apply_effect fs (Copied src dst) = fs_write fs (copy_dest fs src dst)"
| "apply_effect fs _ = fs"

text \<open>A handler operation run against the disk as it is now; its copies then change
  the disk.\<close>

definition on_disk :: "(os_env \<Rightarrow> 'a handler_op) \<Rightarrow> (live_state, 'a) exc_state" where
  "on_disk m = (\<lambda>ls.
     let (r, h') = m (fs_env (disk ls)) (handler ls);
         new = drop (length (effects (handler ls))) (effects h')
     in (r, \<lparr>handler = h', disk = foldl apply_effect (disk ls) new\<rparr>))"

text \<open>The inner loop of \<open>poll\<close> (\<open>for file in files\<close>), each file processed against
  the disk as the previous files left it.\<close>

fun files_live :: "handler_config \<Rightarrow> string \<Rightarrow> string list \<Rightarrow> bool \<Rightarrow> (live_state, bool) exc_state" where
  "files_live cfg root [] needed = ret needed"
| "files_live cfg root (file # files) needed =
     (let file_name = basename file in
      if file_name \<notin> set (allowed_files cfg) then
        bindE (on_disk (\<lambda>_. log (LogSkipped file_name))) (\<lambda>_. files_live cfg root files needed)
      else
        bindE (on_disk (\<lambda>env. process_file cfg env root file_name)) (\<lambda>changed.
          files_live cfg root files (needed \<or> changed)))"

text \<open>The outer loop over the lazy \<open>os.walk\<close>: pop a directory, list it on the current
  disk, process its files, then push its subdirectories so that the first is visited
  next.\<close>

partial_function (option) walk_live ::
  "handler_config \<Rightarrow> string list \<Rightarrow> bool \<Rightarrow> live_state \<Rightarrow> ((py_exc + bool) \<times> live_state) option" where
  "walk_live cfg stack needed ls =
     (case stack of
        [] \<Rightarrow> Some (Inr needed, ls)
      | d # rest \<Rightarrow>
          (let dirs = list_dirs (disk ls) d in
           case files_live cfg d (list_files (disk ls) d) needed ls of
             (Inl e, ls') \<Rightarrow> Some (Inl e, ls')
           | (Inr needed', ls') \<Rightarrow> walk_live cfg (map (path_join d) dirs @ rest) needed' ls'))"

definition poll_live :: "handler_config \<Rightarrow> live_state \<Rightarrow> ((py_exc + unit) \<times> live_state) option" where
  "poll_live cfg ls =
     (if \<not> path_exists (fs_env (disk ls)) (app_path cfg)
      then Some (on_disk (\<lambda>_. log (LogPathMissing (app_path cfg))) ls)
      else
        (case walk_live cfg [app_path cfg] False ls of
           None \<Rightarrow> None
         | Some (Inl e, ls') \<Rightarrow> Some (Inl e, ls')
         | Some (Inr notification_needed, ls') \<Rightarrow>
             Some (if notification_needed then on_disk (\<lambda>_. notify_executor) ls' else (Inr (), ls'))))"

text \<open>Directory names are single, non-empty path components, so a subdirectory's path
  is longer than its parent's.\<close>

definition fs_ok :: "fs_state \<Rightarrow> bool" where
  "fs_ok fs \<longleftrightarrow> list_all (\<lambda>(p, n). n \<noteq> [] \<and> CHR ''/'' \<notin> set n) (fs_dirs fs)"

section \<open>Example: the download directory inside the watched directory\<close>

text \<open>\<open>/app\<close> holds \<open>a.json\<close> (time 5) and the download directory \<open>/app/dl\<close>;
  nothing is recorded yet and the clock reads 10.\<close>

definition ex_live_cfg :: handler_config where
  "ex_live_cfg = \<lparr>app_path = ''/app'', allowed_files = [''a.json''], download_dir = ''/app/dl''\<rparr>"

definition ex_disk :: fs_state where
  "ex_disk = \<lparr>fs_dirs = [(''/'', ''app''), (''/app'', ''dl'')], fs_files = [((''/app'', ''a.json''), 5)],
     fs_clock = 10\<rparr>"

definition ex_live :: live_state where
  "ex_live = \<lparr>handler = \<lparr>last_seen = Map.empty, effects = []\<rparr>, disk = ex_disk\<rparr>"

section \<open>Lemmas\<close>

lemma apply_effect_dirs [simp]: "fs_dirs (apply_effect fs ev) = fs_dirs fs"
  by (cases ev) (simp_all add: fs_write_def)

lemma foldl_apply_effect_dirs [simp]: "fs_dirs (foldl apply_effect fs evs) = fs_dirs fs"
  by (induction evs arbitrary: fs) simp_all

lemma on_disk_dirs: "on_disk m ls = (r, ls') \<Longrightarrow> fs_dirs (disk ls') = fs_dirs (disk ls)"
  by (auto simp: on_disk_def Let_def split: prod.splits)

text \<open>Copies never create or remove directories.\<close>

lemma files_live_dirs:
  "files_live cfg root files needed ls = (r, ls') \<Longrightarrow> fs_dirs (disk ls') = fs_dirs (disk ls)"
proof (induction files arbitrary: needed ls)
  case Nil
  then show ?case by (simp add: exc_simps)
next
  case (Cons f files)
  let ?n = "basename f"
  show ?case
  proof (cases "?n \<in> set (allowed_files cfg)")
    case False
    obtain r1 ls1 where o: "on_disk (\<lambda>_. log (LogSkipped ?n)) ls = (r1, ls1)"
      by fastforce
    with False Cons.prems have "files_live cfg root files needed ls1 = (r, ls')"
      by (simp add: exc_simps on_disk_def log_def Let_def split: prod.splits)
    with Cons.IH on_disk_dirs [OF o] show ?thesis
      by simp
  next
    case True
    obtain r1 ls1 where o: "on_disk (\<lambda>env. process_file cfg env root ?n) ls = (r1, ls1)"
      by fastforce
    show ?thesis
    proof (cases r1)
      case (Inl e)
      with True Cons.prems o on_disk_dirs [OF o] show ?thesis
        by (simp add: exc_simps Let_def)
    next
      case (Inr c)
      with True Cons.prems o have "files_live cfg root files (needed \<or> c) ls1 = (r, ls')"
        by (simp add: exc_simps Let_def)
      with Cons.IH on_disk_dirs [OF o] show ?thesis
        by simp
    qed
  qed
qed

lemma path_join_longer:
  "n \<noteq> [] \<Longrightarrow> CHR ''/'' \<notin> set n \<Longrightarrow> length d < length (path_join d n)"
  by (cases n) (auto simp: path_join_def)

lemma one_step_less:
  "\<forall>k\<in>#K. k < (j::nat) \<Longrightarrow> I + K < add_mset j I"
  using one_step_implies_multp [of "{#j#}" K "(<)" I] by (simp add: less_multiset_def)

text \<open>Termination of the lazy walk: every directory pushed is a subdirectory of the
  one popped, hence has a longer path, and no path is longer than a bound \<open>B\<close>; the
  multiset of the distances \<open>B - length d\<close> of the stacked directories decreases.\<close>

text \<open>Replacing a stacked directory by its subdirectories decreases the multiset of
  the distances to a bound on path lengths.\<close>

lemma children_decrease:
  assumes "fs_ok fs" and "\<forall>x \<in> set (d # rest). length x \<le> B"
    and "\<forall>x \<in> set (dir_paths fs). length x \<le> B"
  shows "mset (map (\<lambda>x. B - length x) (map (path_join d) (list_dirs fs d) @ rest)) <
           mset (map (\<lambda>x. B - length x) (d # rest))"
    and "\<forall>x \<in> set (map (path_join d) (list_dirs fs d) @ rest). length x \<le> B"
proof -
  let ?ch = "map (path_join d) (list_dirs fs d)"
  have ch: "c \<in> set ?ch \<Longrightarrow> length d < length c \<and> length c \<le> B" for c
  proof -
    assume "c \<in> set ?ch"
    then obtain n where n: "(d, n) \<in> set (fs_dirs fs)" and c: "c = path_join d n"
      by (auto simp: list_dirs_def)
    from n assms(1) have "n \<noteq> [] \<and> CHR ''/'' \<notin> set n"
      by (auto simp: fs_ok_def list_all_iff)
    moreover from n c have "c \<in> set (dir_paths fs)"
      by (force simp: dir_paths_def)
    ultimately show ?thesis
      using c assms(3) path_join_longer by blast
  qed
  have "\<forall>k \<in># mset (map (\<lambda>x. B - length x) ?ch). k < B - length d"
    using ch assms(2) by fastforce
  from one_step_less [OF this, of "mset (map (\<lambda>x. B - length x) rest)"]
  show "mset (map (\<lambda>x. B - length x) (?ch @ rest)) < mset (map (\<lambda>x. B - length x) (d # rest))"
    by (simp add: add.commute)
  show "\<forall>x \<in> set (?ch @ rest). length x \<le> B"
    using ch assms(2) by auto
qed

lemma member_le_sum_length: "x \<in> set xs \<Longrightarrow> length x \<le> sum_list (map length xs)"
  by (induction xs) auto

lemmas live_unfold = poll_live_def walk_live.simps on_disk_def fs_env_def fs_copy_result_def
  copy_dest_def dir_paths_def list_dirs_def list_files_def fs_mtime_def fs_write_def dirname_def
  process_file_unfold get_destination_path_def path_join_def newer_def notify_executor_def log_def
  basename_def Let_def exc_simps ex_live_cfg_def ex_disk_def ex_live_def

section \<open>The example evaluated\<close>

text \<open>A download directory inside the watched directory loses a notification. The
  first poll copies \<open>/app/a.json\<close> to \<open>/app/dl/a.json\<close>; the walk, which lists
  \<open>/app/dl\<close> only after that copy, then finds the copy newer than the time just
  recorded and copies it onto itself: \<open>SameFileError\<close> escapes and the executor is not
  notified. The next poll over the unchanged disk finds nothing outdated and returns
  normally without notifying either: the executor never hears of the copy.\<close>

lemma poll_live_self_copy_loses_notification:
  "poll_live ex_live_cfg ex_live =
     Some (Inl (OSError ''SameFileError''),
       \<lparr>handler = \<lparr>last_seen = [''a.json'' \<mapsto> 10], effects = [Copied ''/app/a.json'' ''/app/dl/a.json'']\<rparr>,
        disk = \<lparr>fs_dirs = [(''/'', ''app''), (''/app'', ''dl'')],
                fs_files = [((''/app'', ''a.json''), 5), ((''/app/dl'', ''a.json''), 10)], fs_clock = 11\<rparr>\<rparr>) \<and>
   poll_live ex_live_cfg
       \<lparr>handler = \<lparr>last_seen = [''a.json'' \<mapsto> 10], effects = [Copied ''/app/a.json'' ''/app/dl/a.json'']\<rparr>,
        disk = \<lparr>fs_dirs = [(''/'', ''app''), (''/app'', ''dl'')],
                fs_files = [((''/app'', ''a.json''), 5), ((''/app/dl'', ''a.json''), 10)], fs_clock = 11\<rparr>\<rparr> =
     Some (Inr (),
       \<lparr>handler = \<lparr>last_seen = [''a.json'' \<mapsto> 10], effects = [Copied ''/app/a.json'' ''/app/dl/a.json'']\<rparr>,
        disk = \<lparr>fs_dirs = [(''/'', ''app''), (''/app'', ''dl'')],
                fs_files = [((''/app'', ''a.json''), 5), ((''/app/dl'', ''a.json''), 10)], fs_clock = 11\<rparr>\<rparr>)"
  by (simp add: live_unfold)

end
