(* ===== verification/PollerRefine.thy ===== *)
theory PollerRefine
  imports PollerLive
begin

text \<open>
  The live poll of \<^verbatim>\<open>PollerLive.thy\<close> against the static poll of
  \<^verbatim>\<open>Poller.thy\<close>. \<open>walk_list\<close> is the walk of a disk that nothing changes;
  \<open>agrees\<close> says that a disk still looks like the initial one wherever that walk
  looks; \<open>writes_outside\<close> that no copy of an allowed file can land there. Under
  \<open>writes_outside\<close> the live poll returns what \<open>poll\<close> returns on the static
  environment of the initial disk (\<open>poll_live_refines_static\<close>), and a download
  directory that neither contains nor lies inside the watched one
  (\<open>download_apart\<close>) guarantees \<open>writes_outside\<close>: paths are compared by
  prefix with a slash appended (\<open>dir_below\<close>).
\<close>

section \<open>The walk of an unchanging disk\<close>

text \<open>The triples \<open>os.walk\<close> yields on a disk that nothing changes, in the same
  stack order.\<close>

partial_function (option) walk_list ::
  "fs_state \<Rightarrow> string list \<Rightarrow> (string \<times> string list \<times> string list) list option" where
  "walk_list fs stack =
     (case stack of
        [] \<Rightarrow> Some []
      | d # rest \<Rightarrow>
          Option.bind (walk_list fs (map (path_join d) (list_dirs fs d) @ rest))
            (\<lambda>w. Some ((d, list_dirs fs d, list_files fs d) # w)))"

text \<open>The paths \<open>_process_file\<close> reads in a walk.\<close>

definition read_paths :: "(string \<times> string list \<times> string list) list \<Rightarrow> string list" where
  "read_paths w = concat (map (\<lambda>(d, _, files). map (\<lambda>f. path_join d (basename f)) files) w)"

text \<open>No copy of an allowed file can write where the walk lists or reads: the
  destination's directory is not a walked directory and its path is not read.\<close>

definition writes_outside :: "handler_config \<Rightarrow> fs_state \<Rightarrow> (string \<times> string list \<times> string list) list \<Rightarrow> bool" where
  "writes_outside cfg fs w \<longleftrightarrow>
     (\<forall>src. \<forall>n \<in> set (allowed_files cfg).
        let t = copy_dest fs src (get_destination_path cfg n) in
        dirname t \<notin> set (map fst w) \<and> path_join (dirname t) (basename t) \<notin> set (read_paths w))"

text \<open>A disk agrees with the initial one on everything a walk \<open>w\<close> looks at.\<close>

definition agrees :: "(string \<times> string list \<times> string list) list \<Rightarrow> fs_state \<Rightarrow> fs_state \<Rightarrow> bool" where
  "agrees w fs0 fs \<longleftrightarrow>
     fs_dirs fs = fs_dirs fs0 \<and>
     (\<forall>d \<in> set (map fst w). list_files fs d = list_files fs0 d) \<and>
     (\<forall>x \<in> set (read_paths w). fs_mtime fs x = fs_mtime fs0 x)"

text \<open>The static environment of \<^verbatim>\<open>Poller.thy\<close> for that disk and walk.\<close>

definition static_env :: "fs_state \<Rightarrow> (string \<times> string list \<times> string list) list \<Rightarrow> os_env" where
  "static_env fs w = (fs_env fs)\<lparr>walk := (\<lambda>_. w)\<rparr>"

text \<open>A path \<open>p\<close> is the directory \<open>a\<close> or lies below it.\<close>

definition dir_below :: "string \<Rightarrow> string \<Rightarrow> bool" where
  "dir_below a p \<longleftrightarrow> prefix (a @ ''/'') (p @ ''/'')"

definition plain_path :: "string \<Rightarrow> bool" where
  "plain_path p \<longleftrightarrow> p \<noteq> [] \<and> last p \<noteq> CHR ''/''"

definition plain_name :: "string \<Rightarrow> bool" where
  "plain_name n \<longleftrightarrow> n \<noteq> [] \<and> CHR ''/'' \<notin> set n"

text \<open>A configuration whose download directory and watched directory are written
  without trailing slashes, whose allowed names are single path components, and of
  which neither directory contains the other.\<close>

definition download_apart :: "handler_config \<Rightarrow> bool" where
  "download_apart cfg \<longleftrightarrow>
     plain_path (app_path cfg) \<and> plain_path (download_dir cfg) \<and>
     list_all plain_name (allowed_files cfg) \<and>
     \<not> dir_below (app_path cfg) (download_dir cfg) \<and> \<not> dir_below (download_dir cfg) (app_path cfg)"

section \<open>Example: the download directory beside the watched directory\<close>

text \<open>The same file with the download directory \<open>/dl\<close> beside the watched
  directory: no copy lands where the walk looks.\<close>

definition ex_out_cfg :: handler_config where
  "ex_out_cfg = \<lparr>app_path = ''/app'', allowed_files = [''a.json''], download_dir = ''/dl''\<rparr>"

definition ex_out_disk :: fs_state where
  "ex_out_disk = \<lparr>fs_dirs = [(''/'', ''app''), (''/'', ''dl'')], fs_files = [((''/app'', ''a.json''), 5)], fs_clock = 10\<rparr>"

definition ex_out_live :: live_state where
  "ex_out_live = \<lparr>handler = \<lparr>last_seen = Map.empty, effects = []\<rparr>, disk = ex_out_disk\<rparr>"

section \<open>Lemmas\<close>

lemma walk_list_returns:
  assumes "fs_ok fs" and "\<forall>x \<in> set stack. length x \<le> B"
    and "\<forall>x \<in> set (dir_paths fs). length x \<le> B"
  shows "\<exists>w. walk_list fs stack = Some w"
  using assms
proof (induction "mset (map (\<lambda>x. B - length x) stack)" arbitrary: stack rule: less_induct)
  case less
  show ?case
  proof (cases stack)
    case Nil
    then show ?thesis by (simp add: walk_list.simps)
  next
    case (Cons d rest)
    note dec = children_decrease [OF less.prems(1) _ less.prems(3), where rest = rest and d = d]
    from less.hyps [of "map (path_join d) (list_dirs fs d) @ rest"] dec less.prems Cons
    obtain w where "walk_list fs (map (path_join d) (list_dirs fs d) @ rest) = Some w"
      by auto
    with Cons show ?thesis
      by (subst walk_list.simps) simp
  qed
qed

lemma walk_list_Nil [simp]: "walk_list fs [] = Some []"
  by (simp add: walk_list.simps)

lemma walk_list_Cons:
  "walk_list fs (d # rest) = Some w \<Longrightarrow>
   \<exists>w'. w = (d, list_dirs fs d, list_files fs d) # w' \<and>
        walk_list fs (map (path_join d) (list_dirs fs d) @ rest) = Some w'"
  by (subst (asm) walk_list.simps) (auto split: Option.bind_splits)

lemma walk_list_Some_Nil: "walk_list fs stack = Some [] \<Longrightarrow> stack = []"
  by (cases stack) (auto dest: walk_list_Cons)

lemma map_of_update_other:
  "\<forall>t. fst (f (k, t)) \<noteq> x \<Longrightarrow> map_of (map f (AList.update k v xs)) x = map_of (map f xs) x"
  by (induction xs) (auto simp: map_of_Cons_code)

lemma filter_update_other:
  "\<forall>t. \<not> P (k, t) \<Longrightarrow> filter P (AList.update k v xs) = filter P xs"
  by (induction xs) auto

lemma fs_write_mtime:
  "path_join (dirname t) (basename t) \<noteq> x \<Longrightarrow> fs_mtime (fs_write fs t) x = fs_mtime fs x"
  unfolding fs_mtime_def fs_write_def by (simp add: map_of_update_other)

lemma fs_write_list_files:
  "dirname t \<noteq> d \<Longrightarrow> list_files (fs_write fs t) d = list_files fs d"
  unfolding list_files_def fs_write_def by (simp add: filter_update_other)

lemma agrees_fs_write:
  assumes "agrees w fs0 fs" and "dirname t \<notin> set (map fst w)"
    and "path_join (dirname t) (basename t) \<notin> set (read_paths w)"
  shows "agrees w fs0 (fs_write fs t)"
proof -
  have "list_files (fs_write fs t) d = list_files fs0 d" if d: "d \<in> set (map fst w)" for d
  proof -
    from d assms(2) have "dirname t \<noteq> d"
      by auto
    then have "list_files (fs_write fs t) d = list_files fs d"
      by (rule fs_write_list_files)
    with d assms(1) show ?thesis
      by (auto simp: agrees_def)
  qed
  moreover have "fs_mtime (fs_write fs t) x = fs_mtime fs0 x" if x: "x \<in> set (read_paths w)" for x
  proof -
    from x assms(3) have "path_join (dirname t) (basename t) \<noteq> x"
      by auto
    then have "fs_mtime (fs_write fs t) x = fs_mtime fs x"
      by (rule fs_write_mtime)
    with x assms(1) show ?thesis
      by (simp add: agrees_def)
  qed
  moreover have "fs_dirs (fs_write fs t) = fs_dirs fs0"
    using assms(1) by (simp add: agrees_def fs_write_def)
  ultimately show ?thesis
    by (simp add: agrees_def)
qed

lemma copy_dest_dirs: "fs_dirs fs = fs_dirs fs0 \<Longrightarrow> copy_dest fs = copy_dest fs0"
  by (simp add: copy_dest_def dir_paths_def fun_eq_iff)

text \<open>\<open>_process_file\<close> reads the disk at one path only: on two disks with the same
  directories and the same time at that path it does the same.\<close>

lemma process_file_env_cong:
  assumes "getmtime e1 (path_join root n) = getmtime e2 (path_join root n)"
    and "mtime_error e1 (path_join root n) = mtime_error e2 (path_join root n)"
    and "\<And>d. copy_result e1 (path_join root n) d = copy_result e2 (path_join root n) d"
  shows "process_file cfg e1 root n = process_file cfg e2 root n"
  using assms unfolding process_file_def download_file_def local_download_file_def Let_def
  by (simp cong: if_cong option.case_cong)

lemma process_file_same_disk:
  assumes "fs_dirs fs = fs_dirs fs0" and "fs_mtime fs (path_join root n) = fs_mtime fs0 (path_join root n)"
  shows "process_file cfg (fs_env fs) root n = process_file cfg (static_env fs0 w) root n"
proof (rule process_file_env_cong)
  fix d
  show "copy_result (fs_env fs) (path_join root n) d = copy_result (static_env fs0 w) (path_join root n) d"
    using assms by (simp add: fs_env_def static_env_def fs_copy_result_def copy_dest_dirs [OF assms(1)]
      dir_paths_def Let_def)
qed (use assms(2) in \<open>simp_all add: fs_env_def static_env_def\<close>)

text \<open>The effects one call of \<open>_process_file\<close> appends.\<close>

lemma process_file_effects:
  "process_file cfg env root n h = (r, h') \<Longrightarrow>
   \<exists>es. effects h' = effects h @ es \<and>
        (es = [] \<or> es = [LogDownloadFailed n] \<or> es = [Copied (path_join root n) (get_destination_path cfg n)])"
  by (auto simp: process_file_unfold Let_def split: option.splits if_splits)

lemma agrees_effects:
  assumes "agrees w fs0 fs" and "writes_outside cfg fs0 w" and "n \<in> set (allowed_files cfg)"
    and "es = [] \<or> es = [LogDownloadFailed n] \<or> es = [Copied p (get_destination_path cfg n)]"
  shows "agrees w fs0 (foldl apply_effect fs es)"
proof -
  have dirs: "fs_dirs fs = fs_dirs fs0"
    using assms(1) by (simp add: agrees_def)
  let ?t = "copy_dest fs0 p (get_destination_path cfg n)"
  have "dirname ?t \<notin> set (map fst w) \<and> path_join (dirname ?t) (basename ?t) \<notin> set (read_paths w)"
    using assms(2,3) unfolding writes_outside_def Let_def by blast
  then have "agrees w fs0 (fs_write fs ?t)"
    using assms(1) by (intro agrees_fs_write) auto
  moreover have "apply_effect fs (Copied p (get_destination_path cfg n)) = fs_write fs ?t"
    by (simp add: copy_dest_dirs [OF dirs])
  moreover have "apply_effect fs (LogDownloadFailed n) = fs"
    by simp
  ultimately show ?thesis
    using assms(1,4) by (elim disjE) simp_all
qed

lemma on_disk_apply:
  "m (fs_env (disk ls)) (handler ls) = (r, h') \<Longrightarrow> effects h' = effects (handler ls) @ es \<Longrightarrow>
   on_disk m ls = (r, \<lparr>handler = h', disk = foldl apply_effect (disk ls) es\<rparr>)"
  by (simp add: on_disk_def)

text \<open>One directory of the live walk does what \<open>poll_files\<close> does on the static
  environment of the initial disk, as long as the disk still agrees with it.\<close>

lemma files_live_refines:
  assumes "agrees w fs0 (disk ls)" and "writes_outside cfg fs0 w"
    and "list_all (\<lambda>f. path_join d (basename f) \<in> set (read_paths w)) files"
    and "poll_files cfg (static_env fs0 w) d files needed (handler ls) = (r, h')"
  shows "\<exists>fs'. files_live cfg d files needed ls = (r, \<lparr>handler = h', disk = fs'\<rparr>) \<and> agrees w fs0 fs'"
  using assms
proof (induction files arbitrary: needed ls)
  case Nil
  then show ?case
    by (cases ls) (auto simp: exc_simps)
next
  case (Cons f files)
  let ?n = "basename f"
  show ?case
  proof (cases "?n \<in> set (allowed_files cfg)")
    case False
    let ?h1 = "(handler ls)\<lparr>effects := effects (handler ls) @ [LogSkipped ?n]\<rparr>"
    have "on_disk (\<lambda>_. log (LogSkipped ?n)) ls = (Inr (), \<lparr>handler = ?h1, disk = disk ls\<rparr>)"
      using on_disk_apply [of "\<lambda>_. log (LogSkipped ?n)" ls "Inr ()" ?h1 "[LogSkipped ?n]"]
      by (simp add: log_def exc_simps)
    with False Cons.prems Cons.IH [of "\<lparr>handler = ?h1, disk = disk ls\<rparr>" needed] show ?thesis
      by (simp add: exc_simps log_def Let_def)
  next
    case True
    obtain r1 h1 where pf: "process_file cfg (static_env fs0 w) d ?n (handler ls) = (r1, h1)"
      by fastforce
    from process_file_effects [OF pf] obtain es where es: "effects h1 = effects (handler ls) @ es"
      and es_cases: "es = [] \<or> es = [LogDownloadFailed ?n] \<or> es = [Copied (path_join d ?n) (get_destination_path cfg ?n)]"
      by blast
    have same: "process_file cfg (fs_env (disk ls)) d ?n = process_file cfg (static_env fs0 w) d ?n"
      using Cons.prems(1,3) by (intro process_file_same_disk) (auto simp: agrees_def)
    let ?ls1 = "\<lparr>handler = h1, disk = foldl apply_effect (disk ls) es\<rparr>"
    have od: "on_disk (\<lambda>env. process_file cfg env d ?n) ls = (r1, ?ls1)"
      using pf es same by (intro on_disk_apply) simp_all
    have ag: "agrees w fs0 (disk ?ls1)"
      using Cons.prems(1,2) True es_cases by (simp add: agrees_effects)
    show ?thesis
    proof (cases r1)
      case (Inl e)
      with True Cons.prems(4) pf od ag show ?thesis
        by (auto simp: exc_simps Let_def)
    next
      case (Inr changed)
      with True Cons.prems pf od ag Cons.IH [of ?ls1 "needed \<or> changed"] show ?thesis
        by (simp add: exc_simps Let_def)
    qed
  qed
qed

lemma walk_list_Cons_Some:
  "walk_list fs stack = Some ((d, ds, fl) # w') \<Longrightarrow>
   \<exists>rest. stack = d # rest \<and> ds = list_dirs fs d \<and> fl = list_files fs d \<and>
     walk_list fs (map (path_join d) (list_dirs fs d) @ rest) = Some w'"
  by (cases stack) (auto dest: walk_list_Cons)

lemma read_paths_member:
  "(d, ds, fl) \<in> set w \<Longrightarrow> f \<in> set fl \<Longrightarrow> path_join d (basename f) \<in> set (read_paths w)"
  by (force simp: read_paths_def)

lemma walk_live_step:
  "walk_live cfg (d # rest) needed ls =
     (case files_live cfg d (list_files (disk ls) d) needed ls of
        (Inl e, ls') \<Rightarrow> Some (Inl e, ls')
      | (Inr needed', ls') \<Rightarrow> walk_live cfg (map (path_join d) (list_dirs (disk ls) d) @ rest) needed' ls')"
  by (subst walk_live.simps) (simp add: Let_def)

text \<open>The whole live walk does what \<open>poll_walk\<close> does on the triples \<open>w'\<close> the walk
  of the initial disk yields from \<open>stack\<close>.\<close>

lemma walk_live_refines:
  assumes "walk_list fs0 stack = Some w'" and "set w' \<subseteq> set w"
    and "agrees w fs0 (disk ls)" and "writes_outside cfg fs0 w"
    and "poll_walk cfg (static_env fs0 w) w' needed (handler ls) = (r, h')"
  shows "\<exists>fs'. walk_live cfg stack needed ls = Some (r, \<lparr>handler = h', disk = fs'\<rparr>) \<and> agrees w fs0 fs'"
  using assms
proof (induction w' arbitrary: stack needed ls)
  case Nil
  then show ?case
    by (cases ls) (auto simp: exc_simps walk_live.simps dest: walk_list_Some_Nil)
next
  case (Cons t w')
  obtain d ds fl where t: "t = (d, ds, fl)"
    by (cases t) blast
  from Cons.prems(1) t obtain rest where st: "stack = d # rest" and ds: "ds = list_dirs fs0 d"
    and fl: "fl = list_files fs0 d" and wl: "walk_list fs0 (map (path_join d) (list_dirs fs0 d) @ rest) = Some w'"
    by (blast dest: walk_list_Cons_Some)
  have mem: "(d, ds, fl) \<in> set w"
    using Cons.prems(2) t by simp
  have dirs: "fs_dirs (disk ls) = fs_dirs fs0" and files: "list_files (disk ls) d = fl"
    using Cons.prems(3) mem fl by (force simp: agrees_def)+
  then have ldirs: "list_dirs (disk ls) d = list_dirs fs0 d"
    by (simp add: list_dirs_def)
  obtain r1 h1 where pf: "poll_files cfg (static_env fs0 w) d fl needed (handler ls) = (r1, h1)"
    by fastforce
  have "list_all (\<lambda>f. path_join d (basename f) \<in> set (read_paths w)) fl"
    using mem by (simp add: list_all_iff read_paths_member)
  from files_live_refines [OF Cons.prems(3,4) this pf] obtain fs1 where
    fl1: "files_live cfg d fl needed ls = (r1, \<lparr>handler = h1, disk = fs1\<rparr>)" and ag1: "agrees w fs0 fs1"
    by blast
  show ?case
  proof (cases r1)
    case (Inl e)
    with Cons.prems(5) t pf fl1 ag1 show ?thesis
      by (auto simp: st walk_live_step files exc_simps)
  next
    case (Inr n1)
    with Cons.prems(5) t pf have pw: "poll_walk cfg (static_env fs0 w) w' n1 h1 = (r, h')"
      by (simp add: exc_simps)
    let ?ls1 = "\<lparr>handler = h1, disk = fs1\<rparr>"
    have sub: "set w' \<subseteq> set w"
      using Cons.prems(2) by simp
    have ag1': "agrees w fs0 (disk ?ls1)" and pw': "poll_walk cfg (static_env fs0 w) w' n1 (handler ?ls1) = (r, h')"
      using ag1 pw by simp_all
    from Cons.IH [OF wl sub ag1' Cons.prems(4) pw'] obtain fs' where "walk_live cfg (map (path_join d) (list_dirs fs0 d) @ rest) n1 \<lparr>handler = h1, disk = fs1\<rparr> =
        Some (r, \<lparr>handler = h', disk = fs'\<rparr>)" and "agrees w fs0 fs'"
      by auto
    with Inr fl1 show ?thesis
      by (auto simp: st walk_live_step files ldirs)
  qed
qed

lemma path_join_plain:
  "plain_path d \<Longrightarrow> CHR ''/'' \<notin> set n \<Longrightarrow> path_join d n = d @ CHR ''/'' # n"
  by (cases n) (auto simp: path_join_def plain_path_def)

lemma plain_path_child: "plain_path d \<Longrightarrow> plain_name n \<Longrightarrow> plain_path (d @ CHR ''/'' # n)"
  by (simp add: plain_path_def plain_name_def) (metis last_in_set)

lemma dir_below_child: "dir_below a d \<Longrightarrow> dir_below a (d @ CHR ''/'' # n)"
  unfolding dir_below_def by (erule prefix_order.trans) simp

lemma dir_below_refl: "dir_below a a"
  by (simp add: dir_below_def)

lemma dir_below_cases: "dir_below a x \<Longrightarrow> dir_below b x \<Longrightarrow> dir_below a b \<or> dir_below b a"
  unfolding dir_below_def by (rule prefix_same_cases)

lemma dirname_slash:
  assumes "plain_path x" and "CHR ''/'' \<notin> set y"
  shows "dirname (x @ CHR ''/'' # y) = x"
proof -
  from assms(1) obtain c x' where rx: "rev x = c # x'" and c: "c \<noteq> CHR ''/''"
    unfolding plain_path_def by (cases "rev x") (auto simp flip: hd_rev)
  have "dropWhile (\<lambda>c. c \<noteq> CHR ''/'') (rev y @ CHR ''/'' # rev x) = CHR ''/'' # rev x"
    using assms(2) by (subst dropWhile_append2) auto
  moreover have "\<not> list_all (\<lambda>c. c = CHR ''/'') (x @ ''/'')"
  proof
    assume "list_all (\<lambda>c. c = CHR ''/'') (x @ ''/'')"
    then have "list_all (\<lambda>c. c = CHR ''/'') (rev x)"
      by (simp add: list_all_iff)
    with rx c show False
      by simp
  qed
  ultimately show ?thesis
    using rx c by (simp add: dirname_def)
qed

text \<open>Every directory the walk from \<open>a\<close> visits is \<open>a\<close> or lies below it.\<close>

lemma walk_list_below:
  assumes "walk_list fs stack = Some w" and "fs_ok fs"
    and "list_all (\<lambda>d. plain_path d \<and> dir_below a d) stack"
  shows "list_all (\<lambda>(d, _, _). plain_path d \<and> dir_below a d) w"
  using assms(1,3)
proof (induction w arbitrary: stack)
  case Nil
  then show ?case by simp
next
  case (Cons t w)
  obtain d ds fl where t: "t = (d, ds, fl)"
    by (cases t) blast
  from Cons.prems(1) t obtain rest where st: "stack = d # rest"
    and wl: "walk_list fs (map (path_join d) (list_dirs fs d) @ rest) = Some w"
    by (blast dest: walk_list_Cons_Some)
  have d: "plain_path d" "dir_below a d"
    using Cons.prems(2) st by simp_all
  have "plain_path c \<and> dir_below a c" if c: "c \<in> set (map (path_join d) (list_dirs fs d))" for c
  proof -
    from c obtain n where n: "(d, n) \<in> set (fs_dirs fs)" and c: "c = path_join d n"
      by (auto simp: list_dirs_def)
    from n assms(2) have "plain_name n"
      by (auto simp: fs_ok_def list_all_iff plain_name_def)
    with d c show ?thesis
      by (simp add: path_join_plain plain_name_def plain_path_child dir_below_child)
  qed
  with Cons.prems(2) st have "list_all (\<lambda>d. plain_path d \<and> dir_below a d) (map (path_join d) (list_dirs fs d) @ rest)"
    by (auto simp: list_all_iff simp del: set_map)
  from Cons.IH [OF wl this] d t show ?case
    by simp
qed

lemma read_paths_below:
  "list_all (\<lambda>(d, _, _). plain_path d \<and> dir_below a d) w \<Longrightarrow> x \<in> set (read_paths w) \<Longrightarrow> dir_below a x"
  by (auto simp: read_paths_def list_all_iff path_join_plain basename_no_slash_result dir_below_child)

text \<open>A copy to \<open>get_destination_path\<close> writes below the download directory.\<close>

lemma copy_below_download:
  assumes "plain_path dd" and "plain_name n" and "t = copy_dest fs src (path_join dd n)"
  shows "dir_below dd (dirname t) \<and> dir_below dd (path_join (dirname t) (basename t))"
proof -
  have pd: "path_join dd n = dd @ CHR ''/'' # n" and pp: "plain_path (dd @ CHR ''/'' # n)"
    using assms(1,2) by (simp_all add: path_join_plain plain_name_def plain_path_child)
  have b: "dir_below dd (dd @ CHR ''/'' # n)"
    by (intro dir_below_child dir_below_refl)
  show ?thesis
  proof (cases "path_join dd n \<in> set (dir_paths fs)")
    case True
    let ?x = "dd @ CHR ''/'' # n" and ?y = "basename src"
    have t: "t = ?x @ CHR ''/'' # ?y"
      using True assms(3) pd pp by (simp add: copy_dest_def path_join_plain basename_no_slash_result)
    have dn: "dirname t = ?x"
      unfolding t by (rule dirname_slash [OF pp basename_no_slash_result])
    have bn: "basename t = ?y"
      unfolding t by (rule basename_after_slash [OF basename_no_slash_result])
    have "path_join (dirname t) (basename t) = t"
      using dn bn t pp by (simp add: path_join_plain basename_no_slash_result)
    with dn t b show ?thesis
      by (simp add: dir_below_child dir_below_refl)
  next
    case False
    then have "t = dd @ CHR ''/'' # n"
      using assms(3) pd by (simp add: copy_dest_def)
    with assms(1,2) b show ?thesis
      by (simp add: dirname_slash basename_after_slash path_join_plain plain_name_def dir_below_refl)
  qed
qed

lemma download_apart_writes_outside:
  assumes "download_apart cfg" and "fs_ok fs" and "walk_list fs [app_path cfg] = Some w"
  shows "writes_outside cfg fs w"
proof -
  let ?a = "app_path cfg" and ?dd = "download_dir cfg"
  have below: "list_all (\<lambda>(d, _, _). plain_path d \<and> dir_below ?a d) w"
    using assms by (intro walk_list_below [OF assms(3,2)]) (simp add: download_apart_def dir_below_refl)
  have apart: "\<not> (dir_below ?a x \<and> dir_below ?dd x)" for x
    using assms(1) dir_below_cases by (auto simp: download_apart_def)
  have "dirname t \<notin> set (map fst w) \<and> path_join (dirname t) (basename t) \<notin> set (read_paths w)"
    if n: "n \<in> set (allowed_files cfg)" and t: "t = copy_dest fs src (get_destination_path cfg n)" for n src t
  proof -
    have "dir_below ?dd (dirname t) \<and> dir_below ?dd (path_join (dirname t) (basename t))"
      using assms(1) n t by (intro copy_below_download) (auto simp: download_apart_def list_all_iff get_destination_path_def)
    moreover have "dir_below ?a x" if "x \<in> set (map fst w)" for x
      using below that by (auto simp: list_all_iff)
    moreover have "dir_below ?a x" if "x \<in> set (read_paths w)" for x
      using below that by (rule read_paths_below)
    ultimately show ?thesis
      using apart by blast
  qed
  then show ?thesis
    by (simp add: writes_outside_def Let_def)
qed

lemma agrees_refl: "agrees w fs fs"
  by (simp add: agrees_def)

text \<open>When no copy of an allowed file can land in a directory of the walk \<open>w\<close> of the
  initial disk or on a path it reads, the live poll returns what \<open>poll\<close> returns on the
  static environment of the initial disk and ends in the same handler state.\<close>

lemma poll_live_refines_static:
  assumes "walk_list (disk ls) [app_path cfg] = Some w" and "writes_outside cfg (disk ls) w"
    and "poll cfg (static_env (disk ls) w) (handler ls) = (r, h')"
  shows "\<exists>fs'. poll_live cfg ls = Some (r, \<lparr>handler = h', disk = fs'\<rparr>) \<and> agrees w (disk ls) fs'"
proof (cases "path_exists (fs_env (disk ls)) (app_path cfg)")
  case False
  with assms(3) show ?thesis
    by (cases ls) (auto simp: poll_live_def poll_def static_env_def on_disk_def log_def exc_simps agrees_refl)
next
  case True
  obtain r1 h1 where pw: "poll_walk cfg (static_env (disk ls) w) w False (handler ls) = (r1, h1)"
    by fastforce
  from walk_live_refines [OF assms(1) subset_refl agrees_refl assms(2) pw] obtain fs1 where
    wl: "walk_live cfg [app_path cfg] False ls = Some (r1, \<lparr>handler = h1, disk = fs1\<rparr>)"
    and ag: "agrees w (disk ls) fs1"
    by blast
  have st: "path_exists (static_env (disk ls) w) (app_path cfg)" "walk (static_env (disk ls) w) (app_path cfg) = w"
    using True by (simp_all add: static_env_def)
  show ?thesis
    using assms(3) True pw wl ag st
    by (auto simp: poll_live_def poll_def on_disk_def notify_executor_def log_def exc_simps
        split: sum.splits if_splits)
qed

text \<open>With the download directory apart from the watched one, the walk of the disk
  exists and no copy lands where it looks.\<close>

lemma walk_apart:
  assumes "download_apart cfg" and "fs_ok fs"
  shows "\<exists>w. walk_list fs [app_path cfg] = Some w \<and> writes_outside cfg fs w"
proof -
  let ?B = "length (app_path cfg) + sum_list (map length (dir_paths fs))"
  have "\<exists>w. walk_list fs [app_path cfg] = Some w"
    using assms(2) by (rule walk_list_returns [where B = ?B]) (auto dest: member_le_sum_length)
  with download_apart_writes_outside [OF assms] show ?thesis
    by blast
qed

section \<open>Theorems\<close>

text \<open>C11. Refinement of the static model by the live one: when neither the watched
  directory nor the download directory contains the other (both written without a
  trailing slash, the allowed names single path components), and the disk's
  directory names are single path components, the walk of the initial disk exists
  and the live poll, which lists and reads the disk as its own copies change it,
  returns what \<open>poll\<close> returns on the static environment of the initial disk and
  ends in the same handler state (recorded times and effects), on a disk that still
  agrees with the initial one wherever the walk looks.\<close>

theorem poll_live_refines_poll:
  assumes "download_apart cfg" and "fs_ok (disk ls)"
  shows "\<exists>w fs'. walk_list (disk ls) [app_path cfg] = Some w \<and>
           poll_live cfg ls = Some (fst (poll cfg (static_env (disk ls) w) (handler ls)),
             \<lparr>handler = snd (poll cfg (static_env (disk ls) w) (handler ls)), disk = fs'\<rparr>) \<and>
           agrees w (disk ls) fs'"
proof -
  obtain w where w: "walk_list (disk ls) [app_path cfg] = Some w" and out: "writes_outside cfg (disk ls) w"
    using walk_apart [OF assms] by blast
  obtain r h' where p: "poll cfg (static_env (disk ls) w) (handler ls) = (r, h')"
    by fastforce
  from poll_live_refines_static [OF w out p] w p show ?thesis
    by auto
qed

text \<open>C9. The live poll keeps the guarantees of a single poll when the download
  directory lies apart from the watched one: it returns, appends effects only,
  notifies the executor once exactly when it returned normally after copying a file
  and never otherwise, copies only allowed files to their destination paths, and
  never lowers a recorded modification time.\<close>

theorem poll_live_apart_frame:
  assumes "download_apart cfg" and "fs_ok (disk ls)"
  shows "\<exists>r ls' es. poll_live cfg ls = Some (r, ls') \<and> effects (handler ls') = effects (handler ls) @ es \<and>
           count_list es NotifiedExecutor = (if r = Inr () \<and> copies es \<noteq> [] then 1 else 0) \<and>
           list_all (copy_safe cfg) es \<and> seen_le (last_seen (handler ls)) (last_seen (handler ls'))"
proof -
  obtain w where w: "walk_list (disk ls) [app_path cfg] = Some w" and out: "writes_outside cfg (disk ls) w"
    using walk_apart [OF assms] by blast
  obtain r h' where p: "poll cfg (static_env (disk ls) w) (handler ls) = (r, h')"
    by fastforce
  from poll_live_refines_static [OF w out p] obtain fs' where
    "poll_live cfg ls = Some (r, \<lparr>handler = h', disk = fs'\<rparr>)"
    by blast
  with poll_frame [OF p] show ?thesis
    by fastforce
qed

section \<open>Witnesses\<close>

theorem poll_live_refines_poll_witness:
  "download_apart ex_out_cfg \<and> fs_ok (disk ex_out_live) \<and>
   walk_list (disk ex_out_live) [app_path ex_out_cfg] = Some [(''/app'', [], [''a.json''])] \<and>
   poll ex_out_cfg (static_env (disk ex_out_live) [(''/app'', [], [''a.json''])]) (handler ex_out_live) =
     (Inr (), \<lparr>last_seen = [''a.json'' \<mapsto> 5], effects = [Copied ''/app/a.json'' ''/dl/a.json'', NotifiedExecutor]\<rparr>) \<and>
   (\<exists>fs'. poll_live ex_out_cfg ex_out_live =
      Some (Inr (), \<lparr>handler = \<lparr>last_seen = [''a.json'' \<mapsto> 5], effects = [Copied ''/app/a.json'' ''/dl/a.json'', NotifiedExecutor]\<rparr>, disk = fs'\<rparr>))"
proof -
  have a: "download_apart ex_out_cfg"
    by (simp add: download_apart_def ex_out_cfg_def plain_path_def plain_name_def dir_below_def)
  have f: "fs_ok (disk ex_out_live)"
    by (simp add: fs_ok_def ex_out_live_def ex_out_disk_def)
  have w: "walk_list (disk ex_out_live) [app_path ex_out_cfg] = Some [(''/app'', [], [''a.json''])]"
    by (simp add: walk_list.simps ex_out_live_def ex_out_disk_def ex_out_cfg_def list_dirs_def list_files_def path_join_def)
  have p: "poll ex_out_cfg (static_env (disk ex_out_live) [(''/app'', [], [''a.json''])]) (handler ex_out_live) =
     (Inr (), \<lparr>last_seen = [''a.json'' \<mapsto> 5], effects = [Copied ''/app/a.json'' ''/dl/a.json'', NotifiedExecutor]\<rparr>)"
    by (simp add: poll_def static_env_def fs_env_def ex_out_live_def ex_out_disk_def ex_out_cfg_def dir_paths_def
        fs_mtime_def fs_copy_result_def copy_dest_def path_join_def basename_def dirname_def get_destination_path_def
        process_file_unfold newer_def get_bucket_def notify_executor_def log_def exc_simps Let_def)
  from poll_live_refines_poll [OF a f] a f w p show ?thesis
    by auto
qed

theorem poll_live_apart_frame_witness:
  "download_apart ex_out_cfg \<and> fs_ok (disk ex_out_live) \<and>
   (\<exists>r ls' es. poll_live ex_out_cfg ex_out_live = Some (r, ls') \<and>
      effects (handler ls') = effects (handler ex_out_live) @ es \<and>
      count_list es NotifiedExecutor = (if r = Inr () \<and> copies es \<noteq> [] then 1 else 0) \<and>
      list_all (copy_safe ex_out_cfg) es \<and> seen_le (last_seen (handler ex_out_live)) (last_seen (handler ls')))"
proof -
  have a: "download_apart ex_out_cfg"
    by (simp add: download_apart_def ex_out_cfg_def plain_path_def plain_name_def dir_below_def)
  have f: "fs_ok (disk ex_out_live)"
    by (simp add: fs_ok_def ex_out_live_def ex_out_disk_def)
  from poll_live_apart_frame [OF a f] a f show ?thesis
    by blast
qed

end
