(* ===== verification/Schema.thy ===== *)
theory Schema
  imports Complex_Main Prelude "HOL-Library.AList"
begin

text \<open>
  The schema field model of
  \<^verbatim>\<open>src/framework/src/framework/common/schema/schema_object.py\<close>.
\<close>

section \<open>Data\<close>

datatype field_kind = String | Timestamp | Blob | Float | Integer | FloatList | StringList

datatype py_type = PyStr | PyInt | PyFloat | PyBlobInformation | PyListFloat | PyListStr

text \<open>A schema object: its identity, the name of the decorated class it was built for
  (\<open>_base_cls.__name__\<close>), and the name of its own class (\<open>self.__class__.__name__\<close>,
  the \<open>@schema\<close> subclass of \<open>SchemaObject\<close> it is an instance of).\<close>

record schema_object =
  obj_id :: nat
  base_cls_name :: string
  obj_class_name :: string

record schema_field =
  name :: string
  schema_obj :: schema_object
  ftype :: py_type
  field_class :: field_kind

datatype py_value = VStr string | VInt int | VFloat rat | VBlob string | VList "py_value list" | VNone

datatype operand = FieldOp schema_field | OtherOp

record described_blob =
  blob :: schema_field
  description :: schema_field

definition schema_name :: "schema_object \<Rightarrow> string" where
  "schema_name so = base_cls_name so"

fun field_type :: "field_kind \<Rightarrow> py_type" where
  "field_type String = PyStr"
| "field_type Timestamp = PyInt"
| "field_type Blob = PyBlobInformation"
| "field_type Float = PyFloat"
| "field_type Integer = PyInt"
| "field_type FloatList = PyListFloat"
| "field_type StringList = PyListStr"

definition make_field :: "field_kind \<Rightarrow> string \<Rightarrow> schema_object \<Rightarrow> schema_field" where
  "make_field k n so = \<lparr>name = n, schema_obj = so, ftype = field_type k, field_class = k\<rparr>"

fun type_repr :: "py_type \<Rightarrow> string" where
  "type_repr PyStr = ''<class 'str'>''"
| "type_repr PyInt = ''<class 'int'>''"
| "type_repr PyFloat = ''<class 'float'>''"
| "type_repr PyBlobInformation = ''<class 'superlinked.framework.common.schema.blob_information.BlobInformation'>''"
| "type_repr PyListFloat = ''list[float]''"
| "type_repr PyListStr = ''list[str]''"

record field_descriptor =
  d_name :: string
  d_type :: field_kind
  d_type_args :: "py_type list"

text \<open>The attributes \<open>setattr\<close> gives a schema object, in insertion order (an
  object's \<open>__dict__\<close>); a field is stored under its name.\<close>

record schema_object_state =
  obj :: schema_object
  attrs :: "(string \<times> schema_field) list"

section \<open>Operations\<close>

text \<open>\<open>SchemaObject._init_field\<close>: construct the field of the descriptor's class,
  bound to this object, and store it as the attribute of that name.\<close>

definition init_field :: "schema_object_state \<Rightarrow> field_descriptor \<Rightarrow> schema_field \<times> schema_object_state" where
  "init_field st fd =
     (let value = make_field (d_type fd) (d_name fd) (obj st)
      in (value, st\<lparr>attrs := AList.update (d_name fd) value (attrs st)\<rparr>))"

text \<open>\<open>SchemaObject._get_schema_fields\<close> of the base class.\<close>

definition get_schema_fields :: "schema_object \<Rightarrow> schema_field list" where
  "get_schema_fields so = []"

fun class_name :: "field_kind \<Rightarrow> string" where
  "class_name String = ''String''"
| "class_name Timestamp = ''Timestamp''"
| "class_name Blob = ''Blob''"
| "class_name Float = ''Float''"
| "class_name Integer = ''Integer''"
| "class_name FloatList = ''FloatList''"
| "class_name StringList = ''StringList''"

definition schema_object_str :: "schema_object \<Rightarrow> string" where
  "schema_object_str so =
     obj_class_name so @ ''(schema_name='' @ schema_name so @ '', schema_fields=['' @
     str_join '', '' (map (\<lambda>f. ''(name='' @ name f @ '', type='' @ type_repr (ftype f) @ '')'')
                       (get_schema_fields so)) @ ''])''"

definition field_str :: "schema_field \<Rightarrow> string" where
  "field_str f =
     class_name (field_class f) @ ''(name='' @ name f @ '', type='' @ type_repr (ftype f) @
     '', schema_object_name='' @ schema_name (schema_obj f) @ '')''"

text \<open>\<open>parse\<close>: the identity, overridden by \<open>FloatList\<close> and \<open>StringList\<close> to
  wrap a value that is not a list into a one-element list.\<close>

fun is_list :: "py_value \<Rightarrow> bool" where
  "is_list (VList _) = True"
| "is_list _ = False"

fun parse :: "field_kind \<Rightarrow> py_value \<Rightarrow> py_value" where
  "parse FloatList v = (if is_list v then v else VList [v])"
| "parse StringList v = (if is_list v then v else VList [v])"
| "parse _ v = v"

text \<open>\<open>__hash__\<close>: the hash of \<open>(name, schema_obj)\<close>; a schema object hashes by
  identity.\<close>

definition field_hash_key :: "schema_field \<Rightarrow> string \<times> nat" where
  "field_hash_key f = (name f, obj_id (schema_obj f))"

text \<open>\<open>_built_in_equal\<close>: both operands fields, equal names, the same schema object
  (\<open>SchemaObject\<close> defines no \<open>__eq__\<close>: identity).\<close>

fun built_in_equal :: "operand \<Rightarrow> operand \<Rightarrow> bool" where
  "built_in_equal (FieldOp l) (FieldOp r) =
     (name r = name l \<and> obj_id (schema_obj r) = obj_id (schema_obj l))"
| "built_in_equal _ _ = False"

definition built_in_not_equal :: "operand \<Rightarrow> operand \<Rightarrow> bool" where
  "built_in_not_equal l r = (\<not> built_in_equal l r)"

text \<open>\<open>self + other\<close> on fields: \<open>String.__add__\<close> and \<open>Blob.__add__\<close> both test
  \<open>isinstance(other, String)\<close>; the other field classes define no \<open>__add__\<close>, so
  Python raises \<open>TypeError\<close> (unsupported operand types).\<close>

fun field_add :: "schema_field \<Rightarrow> schema_field \<Rightarrow> py_exc + described_blob" where
  "field_add self other =
     (case field_class self of
        String \<Rightarrow>
          if field_class other \<noteq> String then Inl (TypeError ''Operand must be of type Blob'')
          else Inr \<lparr>blob = other, description = self\<rparr>
      | Blob \<Rightarrow>
          if field_class other \<noteq> String then Inl (TypeError ''Operand must be of type String'')
          else Inr \<lparr>blob = self, description = other\<rparr>
      | _ \<Rightarrow> Inl (TypeError ''unsupported operand type(s) for +''))"

section \<open>Invariant\<close>

text \<open>Every attribute holds a field of this object stored under the field's own name.\<close>

definition attrs_wf :: "schema_object_state \<Rightarrow> bool" where
  "attrs_wf st \<longleftrightarrow> list_all (\<lambda>(n, f). name f = n \<and> schema_obj f = obj st) (attrs st)"

definition field_eq :: "schema_field \<Rightarrow> schema_field \<Rightarrow> bool" where
  "field_eq a b = built_in_equal (FieldOp a) (FieldOp b)"

section \<open>Example objects\<close>

definition ex_paragraph :: schema_object where
  "ex_paragraph = \<lparr>obj_id = 1, base_cls_name = ''Paragraph'', obj_class_name = ''ParagraphSchema''\<rparr>"

section \<open>Lemmas\<close>

lemma init_field_simps:
  "fst (init_field st fd) = make_field (d_type fd) (d_name fd) (obj st)"
  "attrs (snd (init_field st fd)) = AList.update (d_name fd) (make_field (d_type fd) (d_name fd) (obj st)) (attrs st)"
  "obj (snd (init_field st fd)) = obj st"
  by (simp_all add: init_field_def Let_def)

lemma make_field_sel [simp]:
  "name (make_field k n so) = n" "schema_obj (make_field k n so) = so"
  "ftype (make_field k n so) = field_type k" "field_class (make_field k n so) = k"
  by (simp_all add: make_field_def)

lemma list_all_update:
  "P (k, v) \<Longrightarrow> list_all P xs \<Longrightarrow> list_all P (AList.update k v xs)"
  by (induction xs) auto


lemma attrs_wf_init_field:
  "attrs_wf st \<Longrightarrow> attrs_wf (snd (init_field st fd))"
  by (auto simp: attrs_wf_def init_field_simps intro: list_all_update)

text \<open>Equality of constructed fields depends on the name and the identity of the
  owning schema object only, whatever their classes, and \<open>!=\<close> is its negation.\<close>

lemma built_in_equal_make_field:
  "built_in_equal (FieldOp (make_field k1 n1 o1)) (FieldOp (make_field k2 n2 o2)) \<longleftrightarrow>
     n1 = n2 \<and> obj_id o1 = obj_id o2"
  "built_in_not_equal (FieldOp (make_field k1 n1 o1)) (FieldOp (make_field k2 n2 o2)) \<longleftrightarrow>
     \<not> (n1 = n2 \<and> obj_id o1 = obj_id o2)"
  by (auto simp: built_in_not_equal_def)

text \<open>The string form of a \<open>String\<close> field of the example schema.\<close>

lemma field_str_ex:
  "field_str (make_field String ''title'' ex_paragraph) =
     ''String(name=title, type=<class 'str'>, schema_object_name=Paragraph)''"
  by (simp add: field_str_def schema_name_def ex_paragraph_def)

text \<open>C7. \<open>Blob + String\<close> builds the described blob of the two fields, the blob
  from the left operand and the description from the right.\<close>

theorem field_add_blob_string:
  "field_class b = Blob \<Longrightarrow> field_class s = String \<Longrightarrow>
   field_add b s = Inr \<lparr>blob = b, description = s\<rparr>"
  by simp

text \<open>C8. \<open>String + Blob\<close> raises \<open>TypeError\<close>: \<open>String.__add__\<close> tests
  \<open>isinstance(other, String)\<close> where its message and its annotation say \<open>Blob\<close>, so
  the order-insensitive pairing the spec promises fails for this order.\<close>

theorem field_add_string_blob_raises:
  "field_class s = String \<Longrightarrow> field_class b = Blob \<Longrightarrow>
   field_add s b = Inl (TypeError ''Operand must be of type Blob'')"
  by simp

text \<open>\<open>String + String\<close> succeeds and yields a described blob whose \<open>blob\<close>
  is a \<open>String\<close> field, not a \<open>Blob\<close>.\<close>

theorem field_add_string_string:
  "field_class s = String \<Longrightarrow> field_class t = String \<Longrightarrow>
   field_add s t = Inr \<lparr>blob = t, description = s\<rparr> \<and> field_class (blob \<lparr>blob = t, description = s\<rparr>) \<noteq> Blob"
  by simp

text \<open>C10. Whatever the operands, a successful addition has a \<open>String\<close> field as its
  description, and its blob is a \<open>Blob\<close> field exactly when the left operand was one.\<close>

theorem field_add_result_shape:
  "field_add a b = Inr d \<Longrightarrow>
   field_class (description d) = String \<and> (field_class (blob d) = Blob \<longleftrightarrow> field_class a = Blob)"
  by (cases "field_class a") (auto split: if_splits)

text \<open>Field equality is an equivalence relation.\<close>

theorem field_eq_equivp: "equivp field_eq"
  by (rule equivpI) (auto simp: reflp_def symp_def transp_def field_eq_def)

text \<open>C12. \<open>__hash__\<close> agrees with \<open>__eq__\<close>: two fields are equal exactly when
  their hash keys \<open>(name, schema_obj)\<close> are.\<close>

theorem field_eq_iff_hash_key: "field_eq a b \<longleftrightarrow> field_hash_key a = field_hash_key b"
  by (auto simp: field_eq_def field_hash_key_def)

text \<open>C14. \<open>parse\<close> is idempotent; list fields always return a list, keeping a list
  and wrapping a scalar into a singleton; the other fields return the value unchanged.\<close>

theorem parse_spec:
  "parse k (parse k v) = parse k v \<and>
   (k \<in> {FloatList, StringList} \<longrightarrow> is_list (parse k v) \<and> (is_list v \<longrightarrow> parse k v = v) \<and>
       (\<not> is_list v \<longrightarrow> parse k v = VList [v])) \<and>
   (k \<notin> {FloatList, StringList} \<longrightarrow> parse k v = v)"
  by (cases k) auto


text \<open>The declared type identifies the class up to \<open>Timestamp\<close> and \<open>Integer\<close>.\<close>

lemma field_type_eq_iff:
  "field_type k1 = field_type k2 \<longleftrightarrow> k1 = k2 \<or> {k1, k2} = {Timestamp, Integer}"
  by (cases k1; cases k2) auto

text \<open>C16. \<open>_init_field\<close> keeps the attribute table well formed and binds the new
  field under its name: the attribute read back is the field, with the descriptor's name,
  this schema object as owner and the class's declared type.\<close>

theorem init_field_binds:
  assumes "attrs_wf st" and "init_field st fd = (f, st')"
  shows "attrs_wf st' \<and> map_of (attrs st') (d_name fd) = Some f \<and>
         name f = d_name fd \<and> schema_obj f = obj st \<and> ftype f = field_type (d_type fd)"
proof -
  from assms(2) have f: "f = make_field (d_type fd) (d_name fd) (obj st)"
    and st': "st' = snd (init_field st fd)"
    by (metis fst_conv init_field_simps(1), simp)
  from assms(1) st' have "attrs_wf st'"
    by (simp add: attrs_wf_init_field)
  moreover from f st' have "map_of (attrs st') (d_name fd) = Some f"
    by (simp add: init_field_simps update_conv')
  ultimately show ?thesis
    using f by simp
qed

section \<open>Witnesses\<close>

theorem field_add_blob_string_witness:
  "field_class (make_field Blob ''image'' ex_paragraph) = Blob \<and>
   field_class (make_field String ''caption'' ex_paragraph) = String \<and>
   field_add (make_field Blob ''image'' ex_paragraph) (make_field String ''caption'' ex_paragraph) =
     Inr \<lparr>blob = make_field Blob ''image'' ex_paragraph, description = make_field String ''caption'' ex_paragraph\<rparr>"
  using field_add_blob_string [of "make_field Blob ''image'' ex_paragraph" "make_field String ''caption'' ex_paragraph"]
  by simp

theorem field_add_string_blob_raises_witness:
  "field_class (make_field String ''caption'' ex_paragraph) = String \<and>
   field_class (make_field Blob ''image'' ex_paragraph) = Blob \<and>
   field_add (make_field String ''caption'' ex_paragraph) (make_field Blob ''image'' ex_paragraph) =
     Inl (TypeError ''Operand must be of type Blob'')"
  using field_add_string_blob_raises [of "make_field String ''caption'' ex_paragraph" "make_field Blob ''image'' ex_paragraph"]
  by simp

theorem field_add_result_shape_witness:
  "field_add (make_field Blob ''image'' ex_paragraph) (make_field String ''caption'' ex_paragraph) =
     Inr \<lparr>blob = make_field Blob ''image'' ex_paragraph, description = make_field String ''caption'' ex_paragraph\<rparr> \<and>
   field_class (make_field String ''caption'' ex_paragraph) = String \<and>
   (field_class (make_field Blob ''image'' ex_paragraph) = Blob \<longleftrightarrow> field_class (make_field Blob ''image'' ex_paragraph) = Blob)"
proof -
  have h: "field_add (make_field Blob ''image'' ex_paragraph) (make_field String ''caption'' ex_paragraph) =
     Inr \<lparr>blob = make_field Blob ''image'' ex_paragraph, description = make_field String ''caption'' ex_paragraph\<rparr>"
    by simp
  show ?thesis
    using h field_add_result_shape [OF h] by simp
qed

theorem parse_spec_witness:
  "parse FloatList (VFloat 3) = VList [VFloat 3] \<and>
   parse FloatList (VList [VFloat 1, VFloat 2]) = VList [VFloat 1, VFloat 2] \<and>
   parse StringList (VStr ''a'') = VList [VStr ''a''] \<and> parse Integer (VInt 4) = VInt 4"
  using parse_spec [of FloatList "VFloat 3"] parse_spec [of FloatList "VList [VFloat 1, VFloat 2]"]
    parse_spec [of StringList "VStr ''a''"] parse_spec [of Integer "VInt 4"]
  by simp

theorem init_field_binds_witness:
  "attrs_wf \<lparr>obj = ex_paragraph, attrs = []\<rparr> \<and>
   init_field \<lparr>obj = ex_paragraph, attrs = []\<rparr> \<lparr>d_name = ''body'', d_type = String, d_type_args = []\<rparr> =
     (make_field String ''body'' ex_paragraph,
      \<lparr>obj = ex_paragraph, attrs = [(''body'', make_field String ''body'' ex_paragraph)]\<rparr>) \<and>
   map_of [(''body'', make_field String ''body'' ex_paragraph)] ''body'' = Some (make_field String ''body'' ex_paragraph)"
proof -
  have h1: "attrs_wf \<lparr>obj = ex_paragraph, attrs = []\<rparr>"
    by (simp add: attrs_wf_def)
  have h2: "init_field \<lparr>obj = ex_paragraph, attrs = []\<rparr> \<lparr>d_name = ''body'', d_type = String, d_type_args = []\<rparr> =
     (make_field String ''body'' ex_paragraph,
      \<lparr>obj = ex_paragraph, attrs = [(''body'', make_field String ''body'' ex_paragraph)]\<rparr>)"
    by (simp add: init_field_def Let_def)
  show ?thesis
    using h1 h2 init_field_binds [OF h1 h2] by simp
qed

end
