(* ===== verification/QuerySetter.thy ===== *)
theory QuerySetter
  imports Prelude
begin

text \<open>
  \<open>QueryParamValueSetter\<close> of
  \<^verbatim>\<open>src/framework/src/framework/dsl/query/query_param_value_setter.py\<close>, with the
  collaborators it calls modelled from the spec (their code is not under \<^verbatim>\<open>src/\<close>):
  the query descriptor and its clauses (\<open>alter_value\<close>, \<open>alter_weight\<close>,
  \<open>replace_clauses\<close>, \<open>get_clause_by_type\<close>, \<open>evaluate\<close>,
  \<open>calculate_param_infos\<close>, \<open>append_missing_mandatory_clauses\<close>) and the natural
  language evaluator, which is a parameter: any function from the parameter infos, the
  query text, the client configuration and the system prompt to a parameter dictionary.
  Python dictionaries are association lists (\<open>map_of\<close> looks a key up).
\<close>

section \<open>Data\<close>

datatype pval = PStr string | PInt int | PBool bool | PList "pval list" | PNone

record param =
  pname :: string
  pvalue :: "pval option"

text \<open>A clause parameter is a \<open>Param\<close> or an \<open>Evaluated[Param]\<close> wrapping one
  (its \<open>item\<close>).\<close>

datatype param_ref = Plain param | Evaluated param

datatype clause_kind = NLQClause | NLQSystemPromptClause | OtherClause string

text \<open>A clause is weighted (a \<open>WeightedQueryClause\<close>) when it has a weight
  parameter.\<close>

record query_clause =
  ckind :: clause_kind
  value_param :: param_ref
  weight_param :: "param_ref option"
  client_config :: string

record query_descriptor =
  clauses :: "query_clause list"
  mandatory_clauses :: "query_clause list"

record param_info =
  info_name :: string
  info_value :: "pval option"

type_synonym params = "(string \<times> pval) list"

type_synonym nlq_evaluator = "param_info list \<Rightarrow> pval \<Rightarrow> string \<Rightarrow> pval option \<Rightarrow> params"

section \<open>Collaborators (modelled from the spec)\<close>

fun ref_item :: "param_ref \<Rightarrow> param" where
  "ref_item (Plain p) = p"
| "ref_item (Evaluated p) = p"

fun map_ref :: "(param \<Rightarrow> param) \<Rightarrow> param_ref \<Rightarrow> param_ref" where
  "map_ref f (Plain p) = Plain (f p)"
| "map_ref f (Evaluated p) = Evaluated (f p)"

text \<open>An explicit override replaces the value; a second, inferred pass only fills a
  parameter that has no value yet (the spec: explicit wins over inferred).\<close>

definition alter_param :: "params \<Rightarrow> bool \<Rightarrow> param \<Rightarrow> param" where
  "alter_param ps is_override_set p =
     (case map_of ps (pname p) of
        Some v \<Rightarrow> if is_override_set \<or> pvalue p = None then p\<lparr>pvalue := Some v\<rparr> else p
      | None \<Rightarrow> p)"

definition alter_value :: "query_clause \<Rightarrow> params \<Rightarrow> bool \<Rightarrow> query_clause" where
  "alter_value c ps ov = c\<lparr>value_param := map_ref (alter_param ps ov) (value_param c)\<rparr>"

definition alter_weight :: "query_clause \<Rightarrow> params \<Rightarrow> bool \<Rightarrow> query_clause" where
  "alter_weight c ps ov = c\<lparr>weight_param := map_option (map_ref (alter_param ps ov)) (weight_param c)\<rparr>"

definition is_weighted :: "query_clause \<Rightarrow> bool" where
  "is_weighted c \<longleftrightarrow> weight_param c \<noteq> None"

definition get_weighted_clauses :: "query_descriptor \<Rightarrow> query_clause list" where
  "get_weighted_clauses qd = filter is_weighted (clauses qd)"

definition replace_clauses :: "query_descriptor \<Rightarrow> query_clause list \<Rightarrow> query_descriptor" where
  "replace_clauses qd cs = qd\<lparr>clauses := cs\<rparr>"

definition get_clause_by_type :: "query_descriptor \<Rightarrow> clause_kind \<Rightarrow> query_clause option" where
  "get_clause_by_type qd k = find (\<lambda>c. ckind c = k) (clauses qd)"

definition clause_evaluate :: "query_clause \<Rightarrow> pval option" where
  "clause_evaluate c = pvalue (ref_item (value_param c))"

definition clause_refs :: "query_clause \<Rightarrow> param_ref list" where
  "clause_refs c = value_param c # (case weight_param c of None \<Rightarrow> [] | Some w \<Rightarrow> [w])"

definition calculate_param_infos :: "query_descriptor \<Rightarrow> param_info list" where
  "calculate_param_infos qd =
     map (\<lambda>r. \<lparr>info_name = pname (ref_item r), info_value = pvalue (ref_item r)\<rparr>)
       (concat (map clause_refs (clauses qd)))"

definition missing_mandatory :: "query_descriptor \<Rightarrow> query_clause list" where
  "missing_mandatory qd =
     filter (\<lambda>m. ckind m \<notin> set (map ckind (clauses qd))) (mandatory_clauses qd)"

definition append_missing_mandatory_clauses :: "query_descriptor \<Rightarrow> query_descriptor" where
  "append_missing_mandatory_clauses qd = qd\<lparr>clauses := clauses qd @ missing_mandatory qd\<rparr>"

text \<open>Python truthiness of a value.\<close>

fun truthy :: "pval \<Rightarrow> bool" where
  "truthy (PStr s) = (s \<noteq> [])"
| "truthy (PInt i) = (i \<noteq> 0)"
| "truthy (PBool b) = b"
| "truthy (PList xs) = (xs \<noteq> [])"
| "truthy PNone = False"

section \<open>QueryParamValueSetter\<close>

text \<open>\<open>param.item.name if isinstance(param, Evaluated) else param.name\<close>.\<close>

definition param_ref_name :: "param_ref \<Rightarrow> string" where
  "param_ref_name r = (case r of Evaluated p \<Rightarrow> pname p | Plain p \<Rightarrow> pname p)"

definition param_names :: "query_descriptor \<Rightarrow> string list" where
  "param_names qd =
     (let weight_params = concat (map (\<lambda>c. case weight_param c of None \<Rightarrow> [] | Some w \<Rightarrow> [w])
                                    (get_weighted_clauses qd));
          value_params = map value_param (clauses qd);
          all_params = weight_params @ value_params
      in map param_ref_name all_params)"

text \<open>\<open>validate_params\<close>: the unknown names, each once, in the order of the
  dictionary (Python iterates the set difference in hash order; only membership is used
  below), joined into the message.\<close>

definition unknown_params :: "query_descriptor \<Rightarrow> params \<Rightarrow> string list" where
  "unknown_params qd ps = remdups (filter (\<lambda>k. k \<notin> set (param_names qd)) (map fst ps))"

definition validate_params :: "query_descriptor \<Rightarrow> params \<Rightarrow> py_exc + unit" where
  "validate_params qd ps =
     (let unknown = unknown_params qd ps in
      if unknown \<noteq> [] then
        Inl (ValueError (''Unknown query parameters: '' @ str_join '', '' unknown @ ''.''))
      else Inr ())"

definition alter_clause :: "query_clause \<Rightarrow> params \<Rightarrow> bool \<Rightarrow> query_clause" where
  "alter_clause c ps ov =
     (let c' = alter_value c ps ov in if is_weighted c' then alter_weight c' ps ov else c')"

definition alter_query_descriptor :: "query_descriptor \<Rightarrow> params \<Rightarrow> bool \<Rightarrow> query_descriptor" where
  "alter_query_descriptor qd ps ov = replace_clauses qd (map (\<lambda>c. alter_clause c ps ov) (clauses qd))"

definition calculate_nlq_params :: "nlq_evaluator \<Rightarrow> query_descriptor \<Rightarrow> params" where
  "calculate_nlq_params ev qd =
     (case get_clause_by_type qd NLQClause of
        None \<Rightarrow> []
      | Some nlq_clause \<Rightarrow>
          (case clause_evaluate nlq_clause of
             None \<Rightarrow> []
           | Some natural_query \<Rightarrow>
               if \<not> truthy natural_query then []
               else
                 (let system_prompt =
                        (case get_clause_by_type qd NLQSystemPromptClause of
                           None \<Rightarrow> None
                         | Some c \<Rightarrow> clause_evaluate c);
                      param_infos = calculate_param_infos qd
                  in ev param_infos natural_query (client_config nlq_clause) system_prompt)))"

definition set_values :: "nlq_evaluator \<Rightarrow> query_descriptor \<Rightarrow> params \<Rightarrow> py_exc + query_descriptor" where
  "set_values ev qd ps =
     (case validate_params qd ps of
        Inl e \<Rightarrow> Inl e
      | Inr _ \<Rightarrow>
          (let altered = alter_query_descriptor qd ps True;
               nlq_params = calculate_nlq_params ev altered;
               nlq_altered = alter_query_descriptor altered nlq_params False
           in Inr (append_missing_mandatory_clauses nlq_altered)))"

section \<open>Abstract view\<close>

text \<open>The parameters of a clause list in order (each clause's value parameter, then its
  weight parameter) as (name, value) pairs.\<close>

definition param_table :: "query_clause list \<Rightarrow> (string \<times> pval option) list" where
  "param_table cs = map (\<lambda>r. (pname (ref_item r), pvalue (ref_item r))) (concat (map clause_refs cs))"

text \<open>One pass over a value: what \<open>alter_param\<close> does to a parameter's value.\<close>

definition alter_val :: "params \<Rightarrow> bool \<Rightarrow> string \<Rightarrow> pval option \<Rightarrow> pval option" where
  "alter_val ps ov n v =
     (case map_of ps n of Some w \<Rightarrow> if ov \<or> v = None then Some w else v | None \<Rightarrow> v)"

text \<open>The two passes of \<open>set_values\<close> as one merge of mappings: an explicit value
  wins; otherwise an existing value stays; otherwise the inferred value fills the gap.\<close>

definition merge_value :: "params \<Rightarrow> params \<Rightarrow> string \<Rightarrow> pval option \<Rightarrow> pval option" where
  "merge_value ps nlq n v =
     (case map_of ps n of
        Some w \<Rightarrow> Some w
      | None \<Rightarrow> (case v of Some u \<Rightarrow> Some u | None \<Rightarrow> map_of nlq n))"

section \<open>Example query\<close>

text \<open>A query with a natural-language clause, a weighted clause whose value \<open>x\<close> and
  weight \<open>w\<close> are unset, and a mandatory limit clause; the evaluator infers
  \<open>x = 2\<close> and \<open>w = 5\<close>.\<close>

definition ex_qd :: query_descriptor where
  "ex_qd = \<lparr>clauses =
      [\<lparr>ckind = NLQClause, value_param = Plain \<lparr>pname = ''natural_query'', pvalue = Some (PStr ''cheap red shoes'')\<rparr>,
        weight_param = None, client_config = ''openai''\<rparr>,
       \<lparr>ckind = OtherClause ''similar'', value_param = Plain \<lparr>pname = ''x'', pvalue = None\<rparr>,
        weight_param = Some (Evaluated \<lparr>pname = ''w'', pvalue = None\<rparr>), client_config = []\<rparr>],
    mandatory_clauses =
      [\<lparr>ckind = OtherClause ''limit'', value_param = Plain \<lparr>pname = ''limit'', pvalue = Some (PInt 10)\<rparr>,
        weight_param = None, client_config = []\<rparr>]\<rparr>"

definition ex_ev :: nlq_evaluator where
  "ex_ev infos q cfg sp = [(''x'', PInt 2), (''w'', PInt 5)]"

text \<open>The same query without the natural-language clause.\<close>

definition ex_qd_plain :: query_descriptor where
  "ex_qd_plain = ex_qd\<lparr>clauses := tl (clauses ex_qd)\<rparr>"

section \<open>Lemmas\<close>

lemma ref_item_map_ref [simp]: "ref_item (map_ref f r) = f (ref_item r)"
  by (cases r) auto

lemma param_ref_name_item: "param_ref_name r = pname (ref_item r)"
  by (cases r) (simp_all add: param_ref_name_def)

lemma alter_param_sel [simp]:
  "pname (alter_param ps ov p) = pname p"
  "pvalue (alter_param ps ov p) = alter_val ps ov (pname p) (pvalue p)"
  by (auto simp: alter_param_def alter_val_def split: option.splits)

lemma alter_clause_eq:
  "alter_clause c ps ov =
     c\<lparr>value_param := map_ref (alter_param ps ov) (value_param c),
       weight_param := map_option (map_ref (alter_param ps ov)) (weight_param c)\<rparr>"
  by (cases "weight_param c")
    (simp_all add: alter_clause_def alter_value_def alter_weight_def is_weighted_def Let_def)

lemma alter_clause_sel [simp]:
  "ckind (alter_clause c ps ov) = ckind c"
  "client_config (alter_clause c ps ov) = client_config c"
  "clause_refs (alter_clause c ps ov) = map (map_ref (alter_param ps ov)) (clause_refs c)"
  by (simp_all add: alter_clause_eq clause_refs_def split: option.splits)

lemma alter_query_descriptor_sel [simp]:
  "clauses (alter_query_descriptor qd ps ov) = map (\<lambda>c. alter_clause c ps ov) (clauses qd)"
  "mandatory_clauses (alter_query_descriptor qd ps ov) = mandatory_clauses qd"
  by (simp_all add: alter_query_descriptor_def replace_clauses_def)

lemma param_table_alter:
  "param_table (map (\<lambda>c. alter_clause c ps ov) cs) =
     map (\<lambda>(n, v). (n, alter_val ps ov n v)) (param_table cs)"
  by (induction cs) (simp_all add: param_table_def comp_def)

lemma param_table_append [simp]: "param_table (xs @ ys) = param_table xs @ param_table ys"
  by (simp add: param_table_def)

lemma missing_mandatory_alter [simp]:
  "missing_mandatory (alter_query_descriptor qd ps ov) = missing_mandatory qd"
  by (simp add: missing_mandatory_def comp_def)

lemma merge_value_two_passes:
  "alter_val nlq False n (alter_val ps True n v) = merge_value ps nlq n v"
  by (simp add: alter_val_def merge_value_def split: option.splits)

lemma set_values_Inr:
  assumes "set_values ev qd ps = Inr qd'"
  shows "validate_params qd ps = Inr () \<and>
   clauses qd' =
     map (\<lambda>c. alter_clause c (calculate_nlq_params ev (alter_query_descriptor qd ps True)) False)
       (map (\<lambda>c. alter_clause c ps True) (clauses qd)) @ missing_mandatory qd"
proof (cases "validate_params qd ps")
  case (Inl e)
  with assms show ?thesis by (simp add: set_values_def)
next
  case (Inr u)
  with assms have "qd' = append_missing_mandatory_clauses
      (alter_query_descriptor (alter_query_descriptor qd ps True)
        (calculate_nlq_params ev (alter_query_descriptor qd ps True)) False)"
    by (simp add: set_values_def Let_def)
  with Inr show ?thesis
    by (simp add: append_missing_mandatory_clauses_def)
qed

lemma set_concat_clause_refs:
  "set (concat (map clause_refs cs)) =
     value_param ` set cs \<union> {w. \<exists>c\<in>set cs. weight_param c = Some w}"
  by (auto simp: clause_refs_def split: option.splits)

lemma set_weight_params:
  "set (concat (map (\<lambda>c. case weight_param c of None \<Rightarrow> [] | Some w \<Rightarrow> [w]) (filter is_weighted cs))) =
     {w. \<exists>c\<in>set cs. weight_param c = Some w}"
  by (auto simp: is_weighted_def split: option.splits)

text \<open>The names \<open>validate_params\<close> accepts: those of the weight parameters of the
  weighted clauses and of the value parameters of all clauses.\<close>

lemma param_names_set:
  "set (param_names qd) =
     (\<lambda>r. pname (ref_item r)) ` ({w. \<exists>c\<in>set (clauses qd). weight_param c = Some w} \<union> value_param ` set (clauses qd))"
  by (simp add: param_names_def get_weighted_clauses_def param_ref_name_item
      Let_def image_Un image_comp) (force simp: is_weighted_def)

lemma param_names_table: "set (param_names qd) = set (map fst (param_table (clauses qd)))"
proof -
  have "set (param_names qd) =
          (\<lambda>r. pname (ref_item r)) ` ({w. \<exists>c\<in>set (clauses qd). weight_param c = Some w} \<union> value_param ` set (clauses qd))"
    by (rule param_names_set)
  also have "\<dots> = (\<lambda>r. pname (ref_item r)) ` set (concat (map clause_refs (clauses qd)))"
    unfolding set_concat_clause_refs by (simp add: Un_commute)
  also have "\<dots> = set (map fst (param_table (clauses qd)))"
    by (simp add: param_table_def image_image del: set_concat)
  finally show ?thesis .
qed

lemma unknown_params_Nil:
  "unknown_params qd ps = [] \<longleftrightarrow> set (map fst ps) \<subseteq> set (param_names qd)"
  by (auto simp: unknown_params_def filter_empty_conv)

lemma set_unknown_params:
  "set (unknown_params qd ps) = set (map fst ps) - set (param_names qd)"
  by (auto simp: unknown_params_def)

lemma validate_params_ok:
  "validate_params qd ps = Inr () \<longleftrightarrow> set (map fst ps) \<subseteq> set (param_names qd)"
  by (cases "unknown_params qd ps = []") (simp_all add: validate_params_def Let_def unknown_params_Nil)


lemma set_values_table:
  assumes "set_values ev qd ps = Inr qd'"
  shows "param_table (clauses qd') =
           map (\<lambda>(n, v). (n, merge_value ps (calculate_nlq_params ev (alter_query_descriptor qd ps True)) n v))
             (param_table (clauses qd)) @ param_table (missing_mandatory qd)"
proof -
  let ?nlq = "calculate_nlq_params ev (alter_query_descriptor qd ps True)"
  have t1: "param_table (map (\<lambda>c. alter_clause c ps True) (clauses qd)) =
              map (\<lambda>(n, v). (n, alter_val ps True n v)) (param_table (clauses qd))"
    by (rule param_table_alter)
  have t2: "param_table (map (\<lambda>c. alter_clause c ?nlq False) (map (\<lambda>c. alter_clause c ps True) (clauses qd))) =
              map (\<lambda>(n, v). (n, alter_val ?nlq False n v)) (param_table (map (\<lambda>c. alter_clause c ps True) (clauses qd)))"
    by (rule param_table_alter)
  from set_values_Inr [OF assms] t1 t2 show ?thesis
    by (simp add: case_prod_beta merge_value_two_passes)
qed

lemma set_values_kinds:
  "set_values ev qd ps = Inr qd' \<Longrightarrow>
   map ckind (clauses qd') = map ckind (clauses qd) @ map ckind (missing_mandatory qd)"
  by (drule set_values_Inr) (simp add: comp_def)

lemma get_clause_by_type_None:
  "k \<notin> set (map ckind (clauses qd)) \<Longrightarrow> get_clause_by_type qd k = None"
  by (auto simp: get_clause_by_type_def find_None_iff)

lemma param_table_alter_names:
  "map fst (param_table (map (\<lambda>c. alter_clause c ps ov) cs)) = map fst (param_table cs)"
  by (simp add: param_table_alter case_prod_beta comp_def)

lemma map_ref_comp: "map_ref f (map_ref g r) = map_ref (f \<circ> g) r"
  by (cases r) simp_all

lemma map_ref_fix: "f (ref_item r) = ref_item r \<Longrightarrow> map_ref f r = r"
  by (cases r) simp_all

lemma alter_param_Nil: "alter_param [] ov = (\<lambda>p. p)"
  by (rule ext) (simp add: alter_param_def)

lemma alter_param_idem: "alter_param ps True (alter_param ps True p) = alter_param ps True p"
  by (simp add: alter_param_def split: option.splits)

lemma map_ref_ident: "map_ref (\<lambda>p. p) = (\<lambda>r. r)"
  by (rule ext, case_tac r) simp_all

lemma alter_param_unnamed: "map_of ps (pname p) = None \<Longrightarrow> alter_param ps ov p = p"
  by (simp add: alter_param_def)

lemma alter_clause_Nil [simp]: "alter_clause c [] ov = c"
  by (simp add: alter_clause_eq alter_param_Nil map_ref_ident option.map_ident [unfolded id_def])

lemma alter_query_descriptor_Nil [simp]: "alter_query_descriptor qd [] ov = qd"
  by (simp add: alter_query_descriptor_def replace_clauses_def)

lemma alter_clause_idem: "alter_clause (alter_clause c ps True) ps True = alter_clause c ps True"
  by (simp add: alter_clause_eq map_ref_comp alter_param_idem option.map_comp comp_def)

lemma alter_clause_unnamed:
  assumes "\<forall>r \<in> set (clause_refs c). map_of ps (pname (ref_item r)) = None"
  shows "alter_clause c ps ov = c"
proof -
  have v: "map_ref (alter_param ps ov) (value_param c) = value_param c"
    using assms by (intro map_ref_fix) (simp add: clause_refs_def alter_param_unnamed)
  have w: "map_option (map_ref (alter_param ps ov)) (weight_param c) = weight_param c"
    using assms by (cases "weight_param c") (simp_all add: clause_refs_def alter_param_unnamed map_ref_fix)
  show ?thesis
    by (simp add: alter_clause_eq v w)
qed

lemma missing_mandatory_appended [simp]:
  "missing_mandatory (append_missing_mandatory_clauses qd) = []"
  by (auto simp: missing_mandatory_def append_missing_mandatory_clauses_def filter_empty_conv)

lemma append_missing_none: "missing_mandatory qd = [] \<Longrightarrow> append_missing_mandatory_clauses qd = qd"
  by (simp add: append_missing_mandatory_clauses_def)

lemma calculate_nlq_params_no_clause:
  "NLQClause \<notin> set (map ckind (clauses qd)) \<Longrightarrow> calculate_nlq_params ev qd = []"
  by (simp add: calculate_nlq_params_def get_clause_by_type_None)

lemma nth_table_merge:
  assumes "set_values ev qd ps = Inr qd'" and "i < length (param_table (clauses qd))"
    and "param_table (clauses qd) ! i = (x, v)"
  shows "param_table (clauses qd') ! i =
           (x, merge_value ps (calculate_nlq_params ev (alter_query_descriptor qd ps True)) x v)"
  using assms by (simp add: set_values_table nth_append)

text \<open>C17. Refinement of \<open>set_values\<close> by a merge of mappings: on success the
  parameters of the original clauses, in order, carry the merge of the explicit values
  (which win), their own values and the values inferred from the natural-language
  query (which only fill gaps); the missing mandatory clauses follow, unaltered, and
  the clause kinds are the original ones followed by those of the mandatory clauses.\<close>

theorem set_values_refines:
  assumes "set_values ev qd ps = Inr qd'"
  shows "param_table (clauses qd') =
           map (\<lambda>(n, v). (n, merge_value ps (calculate_nlq_params ev (alter_query_descriptor qd ps True)) n v))
             (param_table (clauses qd)) @ param_table (missing_mandatory qd) \<and>
         map ckind (clauses qd') = map ckind (clauses qd) @ map ckind (missing_mandatory qd)"
  using set_values_table [OF assms] set_values_kinds [OF assms] by blast

text \<open>C18. Explicit values win: every parameter of the query named by an explicit
  override carries that value in the result, whatever the natural-language evaluator
  infers.\<close>

theorem set_values_explicit_wins:
  assumes "set_values ev qd ps = Inr qd'" and "map_of ps x = Some w"
    and "i < length (param_table (clauses qd))" and "param_table (clauses qd) ! i = (x, v)"
  shows "param_table (clauses qd') ! i = (x, Some w)"
  using nth_table_merge [OF assms(1,3,4)] assms(2) by (simp add: merge_value_def)

text \<open>C19. Inferred values only fill gaps: a parameter without an explicit override
  keeps its own value when it has one, and otherwise takes the value the evaluator
  inferred for its name (none if it inferred none).\<close>

theorem set_values_nlq_fills_gaps:
  assumes "set_values ev qd ps = Inr qd'" and "map_of ps x = None"
    and "i < length (param_table (clauses qd))" and "param_table (clauses qd) ! i = (x, v)"
  shows "param_table (clauses qd') ! i =
           (x, case v of Some u \<Rightarrow> Some u
                | None \<Rightarrow> map_of (calculate_nlq_params ev (alter_query_descriptor qd ps True)) x)"
  using nth_table_merge [OF assms(1,3,4)] assms(2) by (simp add: merge_value_def)

text \<open>C20. \<open>validate_params\<close> accepts a dictionary exactly when every key is the name
  of the value parameter of some clause or of the weight parameter of some weighted
  clause (for an \<open>Evaluated\<close> parameter, the name of its item).\<close>

theorem validate_params_accepts_iff:
  "validate_params qd ps = Inr () \<longleftrightarrow>
   (\<forall>k \<in> set (map fst ps). \<exists>c \<in> set (clauses qd).
      k = pname (ref_item (value_param c)) \<or> (\<exists>w. weight_param c = Some w \<and> k = pname (ref_item w)))"
  unfolding validate_params_ok param_names_set by blast

text \<open>C21. A rejection is a \<open>ValueError\<close> whose message names every unknown key,
  and there is at least one.\<close>

theorem validate_params_message:
  assumes "validate_params qd ps = Inl e"
  shows "\<exists>msg. e = ValueError msg \<and>
           (\<forall>k \<in> set (map fst ps). k \<notin> set (param_names qd) \<longrightarrow> sublist k msg) \<and>
           (\<exists>k \<in> set (map fst ps). k \<notin> set (param_names qd))"
proof -
  from assms have ne: "unknown_params qd ps \<noteq> []"
    and e: "e = ValueError (''Unknown query parameters: '' @ str_join '', '' (unknown_params qd ps) @ ''.'')"
    by (auto simp: validate_params_def Let_def split: if_splits)
  have "sublist k (''Unknown query parameters: '' @ str_join '', '' (unknown_params qd ps) @ ''.'')"
    if "k \<in> set (map fst ps)" "k \<notin> set (param_names qd)" for k
  proof -
    from that have "k \<in> set (unknown_params qd ps)"
      by (simp add: set_unknown_params)
    then have "sublist k (str_join '', '' (unknown_params qd ps))"
      by (rule sublist_str_join)
    then show ?thesis
      using sublist_appendI sublist_order.order_trans by blast
  qed
  moreover from ne have "\<exists>k \<in> set (map fst ps). k \<notin> set (param_names qd)"
    by (auto simp: unknown_params_Nil)
  ultimately show ?thesis
    using e by blast
qed

text \<open>C22. A dictionary that fails validation makes \<open>set_values\<close> fail with the
  same error, whatever the evaluator: the operation is aborted by the validation.\<close>

theorem set_values_error_iff:
  "validate_params qd ps = Inl e \<Longrightarrow> set_values ev qd ps = Inl e"
  by (simp add: set_values_def)

text \<open>C23. Without a natural-language clause the evaluator is never consulted: the
  result does not depend on it.\<close>

theorem set_values_without_nlq_clause:
  "NLQClause \<notin> set (map ckind (clauses qd)) \<Longrightarrow> set_values ev1 qd ps = set_values ev2 qd ps"
proof -
  assume a: "NLQClause \<notin> set (map ckind (clauses qd))"
  then have "NLQClause \<notin> set (map ckind (clauses (alter_query_descriptor qd ps True)))"
    by (simp add: comp_def)
  then have "calculate_nlq_params ev (alter_query_descriptor qd ps True) = []" for ev
    by (simp add: calculate_nlq_params_def get_clause_by_type_None del: alter_query_descriptor_sel)
  then show ?thesis
    by (simp add: set_values_def Let_def split: sum.split)
qed

text \<open>C24. The result of \<open>set_values\<close> validates the same dictionary again: altering
  values never changes a parameter's name.\<close>

theorem set_values_revalidates:
  assumes "set_values ev qd ps = Inr qd'"
  shows "validate_params qd' ps = Inr ()"
proof -
  from set_values_Inr [OF assms] have "set (map fst ps) \<subseteq> set (param_names qd)"
    by (simp add: validate_params_def Let_def unknown_params_Nil split: if_splits)
  moreover have "set (map fst (param_table (clauses qd))) \<subseteq> set (map fst (param_table (clauses qd')))"
    using set_values_table [OF assms] by (auto simp: image_iff case_prod_beta)
  ultimately have "set (map fst ps) \<subseteq> set (param_names qd')"
    by (simp add: param_names_table)
  then show ?thesis
    by (cases "unknown_params qd' ps = []") (simp_all add: validate_params_def Let_def unknown_params_Nil)
qed

text \<open>C25. The result carries every mandatory clause kind.\<close>

theorem set_values_mandatory_present:
  "set_values ev qd ps = Inr qd' \<Longrightarrow>
   set (map ckind (mandatory_clauses qd)) \<subseteq> set (map ckind (clauses qd'))"
  by (drule set_values_kinds) (auto simp: missing_mandatory_def)

section \<open>Witnesses\<close>

lemmas ex_set_values_unfold = set_values_def validate_params_def unknown_params_def param_names_def
      get_weighted_clauses_def is_weighted_def param_ref_name_def alter_query_descriptor_def
      replace_clauses_def alter_clause_eq calculate_nlq_params_def get_clause_by_type_def
      clause_evaluate_def calculate_param_infos_def append_missing_mandatory_clauses_def
      missing_mandatory_def clause_refs_def alter_param_def ex_qd_def ex_ev_def Let_def

lemma ex_set_values:
  "set_values ex_ev ex_qd [(''x'', PInt 1)] = Inr \<lparr>clauses =
      [\<lparr>ckind = NLQClause, value_param = Plain \<lparr>pname = ''natural_query'', pvalue = Some (PStr ''cheap red shoes'')\<rparr>,
        weight_param = None, client_config = ''openai''\<rparr>,
       \<lparr>ckind = OtherClause ''similar'', value_param = Plain \<lparr>pname = ''x'', pvalue = Some (PInt 1)\<rparr>,
        weight_param = Some (Evaluated \<lparr>pname = ''w'', pvalue = Some (PInt 5)\<rparr>), client_config = []\<rparr>,
       \<lparr>ckind = OtherClause ''limit'', value_param = Plain \<lparr>pname = ''limit'', pvalue = Some (PInt 10)\<rparr>,
        weight_param = None, client_config = []\<rparr>],
    mandatory_clauses =
      [\<lparr>ckind = OtherClause ''limit'', value_param = Plain \<lparr>pname = ''limit'', pvalue = Some (PInt 10)\<rparr>,
        weight_param = None, client_config = []\<rparr>]\<rparr>"
  by (simp add: ex_set_values_unfold)

theorem set_values_refines_witness:
  "set_values ex_ev ex_qd [(''x'', PInt 1)] = Inr \<lparr>clauses =
      [\<lparr>ckind = NLQClause, value_param = Plain \<lparr>pname = ''natural_query'', pvalue = Some (PStr ''cheap red shoes'')\<rparr>,
        weight_param = None, client_config = ''openai''\<rparr>,
       \<lparr>ckind = OtherClause ''similar'', value_param = Plain \<lparr>pname = ''x'', pvalue = Some (PInt 1)\<rparr>,
        weight_param = Some (Evaluated \<lparr>pname = ''w'', pvalue = Some (PInt 5)\<rparr>), client_config = []\<rparr>,
       \<lparr>ckind = OtherClause ''limit'', value_param = Plain \<lparr>pname = ''limit'', pvalue = Some (PInt 10)\<rparr>,
        weight_param = None, client_config = []\<rparr>],
    mandatory_clauses =
      [\<lparr>ckind = OtherClause ''limit'', value_param = Plain \<lparr>pname = ''limit'', pvalue = Some (PInt 10)\<rparr>,
        weight_param = None, client_config = []\<rparr>]\<rparr> \<and>
   param_table (clauses \<lparr>clauses =
      [\<lparr>ckind = NLQClause, value_param = Plain \<lparr>pname = ''natural_query'', pvalue = Some (PStr ''cheap red shoes'')\<rparr>,
        weight_param = None, client_config = ''openai''\<rparr>,
       \<lparr>ckind = OtherClause ''similar'', value_param = Plain \<lparr>pname = ''x'', pvalue = Some (PInt 1)\<rparr>,
        weight_param = Some (Evaluated \<lparr>pname = ''w'', pvalue = Some (PInt 5)\<rparr>), client_config = []\<rparr>,
       \<lparr>ckind = OtherClause ''limit'', value_param = Plain \<lparr>pname = ''limit'', pvalue = Some (PInt 10)\<rparr>,
        weight_param = None, client_config = []\<rparr>],
    mandatory_clauses =
      [\<lparr>ckind = OtherClause ''limit'', value_param = Plain \<lparr>pname = ''limit'', pvalue = Some (PInt 10)\<rparr>,
        weight_param = None, client_config = []\<rparr>]\<rparr>) =
     map (\<lambda>(n, v). (n, merge_value [(''x'', PInt 1)]
            (calculate_nlq_params ex_ev (alter_query_descriptor ex_qd [(''x'', PInt 1)] True)) n v))
       (param_table (clauses ex_qd)) @ param_table (missing_mandatory ex_qd)"
  using ex_set_values set_values_refines [OF ex_set_values] by blast

theorem set_values_explicit_wins_witness:
  "set_values ex_ev ex_qd [(''x'', PInt 1)] = Inr \<lparr>clauses =
      [\<lparr>ckind = NLQClause, value_param = Plain \<lparr>pname = ''natural_query'', pvalue = Some (PStr ''cheap red shoes'')\<rparr>,
        weight_param = None, client_config = ''openai''\<rparr>,
       \<lparr>ckind = OtherClause ''similar'', value_param = Plain \<lparr>pname = ''x'', pvalue = Some (PInt 1)\<rparr>,
        weight_param = Some (Evaluated \<lparr>pname = ''w'', pvalue = Some (PInt 5)\<rparr>), client_config = []\<rparr>,
       \<lparr>ckind = OtherClause ''limit'', value_param = Plain \<lparr>pname = ''limit'', pvalue = Some (PInt 10)\<rparr>,
        weight_param = None, client_config = []\<rparr>],
    mandatory_clauses =
      [\<lparr>ckind = OtherClause ''limit'', value_param = Plain \<lparr>pname = ''limit'', pvalue = Some (PInt 10)\<rparr>,
        weight_param = None, client_config = []\<rparr>]\<rparr> \<and>
   map_of [(''x'', PInt 1)] ''x'' = Some (PInt 1) \<and>
   1 < length (param_table (clauses ex_qd)) \<and> param_table (clauses ex_qd) ! 1 = (''x'', None) \<and>
   param_table (clauses \<lparr>clauses =
      [\<lparr>ckind = NLQClause, value_param = Plain \<lparr>pname = ''natural_query'', pvalue = Some (PStr ''cheap red shoes'')\<rparr>,
        weight_param = None, client_config = ''openai''\<rparr>,
       \<lparr>ckind = OtherClause ''similar'', value_param = Plain \<lparr>pname = ''x'', pvalue = Some (PInt 1)\<rparr>,
        weight_param = Some (Evaluated \<lparr>pname = ''w'', pvalue = Some (PInt 5)\<rparr>), client_config = []\<rparr>,
       \<lparr>ckind = OtherClause ''limit'', value_param = Plain \<lparr>pname = ''limit'', pvalue = Some (PInt 10)\<rparr>,
        weight_param = None, client_config = []\<rparr>],
    mandatory_clauses =
      [\<lparr>ckind = OtherClause ''limit'', value_param = Plain \<lparr>pname = ''limit'', pvalue = Some (PInt 10)\<rparr>,
        weight_param = None, client_config = []\<rparr>]\<rparr>) ! 1 = (''x'', Some (PInt 1))"
proof -
  have h2: "map_of [(''x'', PInt 1)] ''x'' = Some (PInt 1)" by simp
  have h3: "1 < length (param_table (clauses ex_qd))"
    by (simp add: param_table_def clause_refs_def ex_qd_def)
  have h4: "param_table (clauses ex_qd) ! 1 = (''x'', None)"
    by (simp add: param_table_def clause_refs_def ex_qd_def)
  show ?thesis
    using ex_set_values h2 h3 h4 set_values_explicit_wins [OF ex_set_values h2 h3 h4] by simp
qed

theorem set_values_nlq_fills_gaps_witness:
  "set_values ex_ev ex_qd [(''x'', PInt 1)] = Inr \<lparr>clauses =
      [\<lparr>ckind = NLQClause, value_param = Plain \<lparr>pname = ''natural_query'', pvalue = Some (PStr ''cheap red shoes'')\<rparr>,
        weight_param = None, client_config = ''openai''\<rparr>,
       \<lparr>ckind = OtherClause ''similar'', value_param = Plain \<lparr>pname = ''x'', pvalue = Some (PInt 1)\<rparr>,
        weight_param = Some (Evaluated \<lparr>pname = ''w'', pvalue = Some (PInt 5)\<rparr>), client_config = []\<rparr>,
       \<lparr>ckind = OtherClause ''limit'', value_param = Plain \<lparr>pname = ''limit'', pvalue = Some (PInt 10)\<rparr>,
        weight_param = None, client_config = []\<rparr>],
    mandatory_clauses =
      [\<lparr>ckind = OtherClause ''limit'', value_param = Plain \<lparr>pname = ''limit'', pvalue = Some (PInt 10)\<rparr>,
        weight_param = None, client_config = []\<rparr>]\<rparr> \<and>
   map_of [(''x'', PInt 1)] ''w'' = None \<and>
   2 < length (param_table (clauses ex_qd)) \<and> param_table (clauses ex_qd) ! 2 = (''w'', None) \<and>
   param_table (clauses \<lparr>clauses =
      [\<lparr>ckind = NLQClause, value_param = Plain \<lparr>pname = ''natural_query'', pvalue = Some (PStr ''cheap red shoes'')\<rparr>,
        weight_param = None, client_config = ''openai''\<rparr>,
       \<lparr>ckind = OtherClause ''similar'', value_param = Plain \<lparr>pname = ''x'', pvalue = Some (PInt 1)\<rparr>,
        weight_param = Some (Evaluated \<lparr>pname = ''w'', pvalue = Some (PInt 5)\<rparr>), client_config = []\<rparr>,
       \<lparr>ckind = OtherClause ''limit'', value_param = Plain \<lparr>pname = ''limit'', pvalue = Some (PInt 10)\<rparr>,
        weight_param = None, client_config = []\<rparr>],
    mandatory_clauses =
      [\<lparr>ckind = OtherClause ''limit'', value_param = Plain \<lparr>pname = ''limit'', pvalue = Some (PInt 10)\<rparr>,
        weight_param = None, client_config = []\<rparr>]\<rparr>) ! 2 =
     (''w'', map_of (calculate_nlq_params ex_ev (alter_query_descriptor ex_qd [(''x'', PInt 1)] True)) ''w'')"
proof -
  have h2: "map_of [(''x'', PInt 1)] ''w'' = None" by simp
  have h3: "2 < length (param_table (clauses ex_qd))"
    by (simp add: param_table_def clause_refs_def ex_qd_def)
  have h4: "param_table (clauses ex_qd) ! 2 = (''w'', None)"
    by (simp add: param_table_def clause_refs_def ex_qd_def)
  show ?thesis
    using ex_set_values h2 h3 h4 set_values_nlq_fills_gaps [OF ex_set_values h2 h3 h4] by simp
qed

theorem validate_params_message_witness:
  "validate_params ex_qd [(''y'', PInt 3)] = Inl (ValueError ''Unknown query parameters: y.'') \<and>
   sublist ''y'' ''Unknown query parameters: y.''"
proof -
  have h: "validate_params ex_qd [(''y'', PInt 3)] = Inl (ValueError ''Unknown query parameters: y.'')"
    by (simp add: ex_set_values_unfold)
  have "\<exists>msg. ValueError ''Unknown query parameters: y.'' = ValueError msg \<and>
          (\<forall>k \<in> set (map fst [(''y'', PInt 3)]). k \<notin> set (param_names ex_qd) \<longrightarrow> sublist k msg) \<and>
          (\<exists>k \<in> set (map fst [(''y'', PInt 3)]). k \<notin> set (param_names ex_qd))"
    by (rule validate_params_message [OF h])
  moreover have "''y'' \<notin> set (param_names ex_qd)"
    by (simp add: ex_set_values_unfold)
  ultimately show ?thesis
    using h by auto
qed

theorem set_values_without_nlq_clause_witness:
  "NLQClause \<notin> set (map ckind (clauses (ex_qd\<lparr>clauses := tl (clauses ex_qd)\<rparr>))) \<and>
   set_values ex_ev (ex_qd\<lparr>clauses := tl (clauses ex_qd)\<rparr>) [(''x'', PInt 1)] =
   set_values (\<lambda>_ _ _ _. []) (ex_qd\<lparr>clauses := tl (clauses ex_qd)\<rparr>) [(''x'', PInt 1)]"
proof -
  have h: "NLQClause \<notin> set (map ckind (clauses (ex_qd\<lparr>clauses := tl (clauses ex_qd)\<rparr>)))"
    by (simp add: ex_qd_def)
  show ?thesis
    using h set_values_without_nlq_clause [OF h] by blast
qed

theorem set_values_revalidates_witness:
  "set_values ex_ev ex_qd [(''x'', PInt 1)] = Inr \<lparr>clauses =
      [\<lparr>ckind = NLQClause, value_param = Plain \<lparr>pname = ''natural_query'', pvalue = Some (PStr ''cheap red shoes'')\<rparr>,
        weight_param = None, client_config = ''openai''\<rparr>,
       \<lparr>ckind = OtherClause ''similar'', value_param = Plain \<lparr>pname = ''x'', pvalue = Some (PInt 1)\<rparr>,
        weight_param = Some (Evaluated \<lparr>pname = ''w'', pvalue = Some (PInt 5)\<rparr>), client_config = []\<rparr>,
       \<lparr>ckind = OtherClause ''limit'', value_param = Plain \<lparr>pname = ''limit'', pvalue = Some (PInt 10)\<rparr>,
        weight_param = None, client_config = []\<rparr>],
    mandatory_clauses =
      [\<lparr>ckind = OtherClause ''limit'', value_param = Plain \<lparr>pname = ''limit'', pvalue = Some (PInt 10)\<rparr>,
        weight_param = None, client_config = []\<rparr>]\<rparr> \<and>
   validate_params \<lparr>clauses =
      [\<lparr>ckind = NLQClause, value_param = Plain \<lparr>pname = ''natural_query'', pvalue = Some (PStr ''cheap red shoes'')\<rparr>,
        weight_param = None, client_config = ''openai''\<rparr>,
       \<lparr>ckind = OtherClause ''similar'', value_param = Plain \<lparr>pname = ''x'', pvalue = Some (PInt 1)\<rparr>,
        weight_param = Some (Evaluated \<lparr>pname = ''w'', pvalue = Some (PInt 5)\<rparr>), client_config = []\<rparr>,
       \<lparr>ckind = OtherClause ''limit'', value_param = Plain \<lparr>pname = ''limit'', pvalue = Some (PInt 10)\<rparr>,
        weight_param = None, client_config = []\<rparr>],
    mandatory_clauses =
      [\<lparr>ckind = OtherClause ''limit'', value_param = Plain \<lparr>pname = ''limit'', pvalue = Some (PInt 10)\<rparr>,
        weight_param = None, client_config = []\<rparr>]\<rparr> [(''x'', PInt 1)] = Inr ()"
  using ex_set_values set_values_revalidates [OF ex_set_values] by blast

theorem set_values_mandatory_present_witness:
  "set_values ex_ev ex_qd [(''x'', PInt 1)] = Inr \<lparr>clauses =
      [\<lparr>ckind = NLQClause, value_param = Plain \<lparr>pname = ''natural_query'', pvalue = Some (PStr ''cheap red shoes'')\<rparr>,
        weight_param = None, client_config = ''openai''\<rparr>,
       \<lparr>ckind = OtherClause ''similar'', value_param = Plain \<lparr>pname = ''x'', pvalue = Some (PInt 1)\<rparr>,
        weight_param = Some (Evaluated \<lparr>pname = ''w'', pvalue = Some (PInt 5)\<rparr>), client_config = []\<rparr>,
       \<lparr>ckind = OtherClause ''limit'', value_param = Plain \<lparr>pname = ''limit'', pvalue = Some (PInt 10)\<rparr>,
        weight_param = None, client_config = []\<rparr>],
    mandatory_clauses =
      [\<lparr>ckind = OtherClause ''limit'', value_param = Plain \<lparr>pname = ''limit'', pvalue = Some (PInt 10)\<rparr>,
        weight_param = None, client_config = []\<rparr>]\<rparr> \<and>
   set (map ckind (mandatory_clauses ex_qd)) \<subseteq> set (map ckind (clauses \<lparr>clauses =
      [\<lparr>ckind = NLQClause, value_param = Plain \<lparr>pname = ''natural_query'', pvalue = Some (PStr ''cheap red shoes'')\<rparr>,
        weight_param = None, client_config = ''openai''\<rparr>,
       \<lparr>ckind = OtherClause ''similar'', value_param = Plain \<lparr>pname = ''x'', pvalue = Some (PInt 1)\<rparr>,
        weight_param = Some (Evaluated \<lparr>pname = ''w'', pvalue = Some (PInt 5)\<rparr>), client_config = []\<rparr>,
       \<lparr>ckind = OtherClause ''limit'', value_param = Plain \<lparr>pname = ''limit'', pvalue = Some (PInt 10)\<rparr>,
        weight_param = None, client_config = []\<rparr>],
    mandatory_clauses =
      [\<lparr>ckind = OtherClause ''limit'', value_param = Plain \<lparr>pname = ''limit'', pvalue = Some (PInt 10)\<rparr>,
        weight_param = None, client_config = []\<rparr>]\<rparr>))"
  using ex_set_values set_values_mandatory_present [OF ex_set_values] by blast

theorem validate_params_accepts_iff_witness:
  "validate_params ex_qd [(''w'', PInt 3)] = Inr () \<and>
   (\<exists>c \<in> set (clauses ex_qd). \<exists>w. weight_param c = Some w \<and> ''w'' = pname (ref_item w))"
proof -
  have h: "validate_params ex_qd [(''w'', PInt 3)] = Inr ()"
    by (simp add: ex_set_values_unfold)
  from validate_params_accepts_iff [of ex_qd "[(''w'', PInt 3)]"] h show ?thesis
    by (auto simp: ex_qd_def)
qed

theorem set_values_error_iff_witness:
  "validate_params ex_qd [(''y'', PInt 3)] = Inl (ValueError ''Unknown query parameters: y.'') \<and>
   set_values ex_ev ex_qd [(''y'', PInt 3)] = Inl (ValueError ''Unknown query parameters: y.'')"
proof -
  have h: "validate_params ex_qd [(''y'', PInt 3)] = Inl (ValueError ''Unknown query parameters: y.'')"
    by (simp add: ex_set_values_unfold)
  from set_values_error_iff [OF h, of ex_ev] h show ?thesis
    by simp
qed

end
