(* ===== verification/Spec2Isabelle.thy ===== *)
theory Spec2Isabelle
  imports Prelude Poller PollerTree PollerLive PollerRefine Schema QuerySetter
begin

text \<open>
  \<^bold>\<open>A verification library for three fragments of superlinked.\<close>

  The repository excerpt holds three independent Python components; none calls another,
  so the development is one theory per component over a shared prelude, and this root
  theory gathers them.

  \<^item> \<^bold>\<open>Prelude\<close> (\<^verbatim>\<open>Prelude.thy\<close>): the Python exceptions raised or caught
    (\<open>py_exc\<close>); a state-and-exception monad \<open>('s, 'a) exc_state\<close> with \<open>ret\<close>,
    \<open>raise\<close>, \<open>bindE\<close>, \<open>modify\<close> and \<open>try_except\<close> (an exception keeps the state
    reached, as Python keeps the mutations made before a raise), its monad laws and the
    evaluation rules collected in \<open>exc_simps\<close>; the POSIX path helpers
    \<open>basename\<close> and \<open>path_join\<close> and \<open>str.join\<close> as \<open>str_join\<close>, with the lemmas
    \<open>basename_path_join\<close> (a name joined to a directory is read back) and
    \<open>sublist_str_join\<close> (every joined item occurs in the result).

  \<^item> \<^bold>\<open>Poller\<close> (\<^verbatim>\<open>Poller.thy\<close>) models
    \<^verbatim>\<open>src/server/runner/poller/app/resource_handler/local/local_resource_handler.py\<close>:
    \<open>poll\<close> (with its two loops, \<open>poll_walk\<close> over \<open>os.walk\<close> and
    \<open>poll_files\<close> over the files of one directory), \<open>_process_file\<close> as
    \<open>process_file\<close>, \<open>_download_file\<close> as \<open>local_download_file\<close>, and
    \<open>get_bucket\<close>. The operating system is the record \<open>os_env\<close> of the results of
    \<open>os.path.exists\<close>, \<open>os.walk\<close>, \<open>os.path.getmtime\<close> (\<open>None\<close>: the call fails,
    raising \<open>mtime_error\<close> of the path: \<open>FileNotFoundError\<close> for a vanished file,
    \<open>PermissionError\<close> for an unsearchable directory, another \<open>OSError\<close>) and
    \<open>shutil.copy\<close> (\<open>Some e\<close>: the exception it raises). The handler state
    \<open>handler_state\<close> is the base class's table of recorded times (\<open>last_seen\<close>) and
    the trace of observable effects (\<open>effects\<close>: log records, copies, notifications).
    The base class \<open>ResourceHandler\<close> is not in the sources; its members are modelled
    from the spec: \<open>is_object_outdated\<close> (outdated when nothing is recorded or the
    file is strictly newer; the new time is recorded at the comparison, the spec's step
    4, before the copy), \<open>download_file\<close>, \<open>get_destination_path\<close> (the download
    directory joined with the name) and \<open>notify_executor\<close>.
    Abstract specification: \<open>scan\<close> computes, from the recorded table and the allowed
    files in walk order (\<open>walk_candidates\<close>), the outdated files and the new table;
    \<open>poll_refines_scan\<close> (C1) shows that \<open>poll\<close> implements it whenever no
    exception can escape (\<open>scan_ok\<close>). Further theorems: no retry of a poll over
    an unchanged tree (C2), one notification per poll exactly when something was copied
    (C3), copies only of allowed files to their destination (C4), and the missing root
    path (C5); the evaluated example \<open>poll_twins_share_destination\<close> shows that
    same-named files in different directories share one record and one destination.
    The loops are structural recursion over the walk's lists, so
    no fuel is needed: the walk's result is finite data of the environment.
    Repeated polls: the inductive relation \<open>reachable_handler cfg\<close> holds of the
    initial handler state (nothing recorded, no effects) and of every state one
    \<open>poll\<close> leads to from a reachable one, in an arbitrary environment each time (the
    file system changes freely between polls, and a poll may end in an exception).
    \<open>reachable_handler_inv\<close> (C26), by rule induction, shows the invariant
    \<open>handler_inv\<close>: only allowed names are recorded, every copy is of an allowed file
    to its destination, and notifications never outnumber copies; the frame lemma
    \<open>poll_frame\<close> carries it across one poll.

  \<^item> \<^bold>\<open>PollerTree\<close> (\<^verbatim>\<open>PollerTree.thy\<close>) studies the poller's loops and
    its environment. \<open>walk_pairs\<close> lists the (directory, file) pairs the two loops
    visit; \<open>poll_only_disallowed\<close> (C6) shows that a walk with no allowed file is
    only logged, file by file, and changes nothing else. \<open>escapes\<close> names the
    exceptions that can leave the processing of a list of candidates, and
    \<open>poll_escaping_exceptions\<close> (C27) shows that every exception out of \<open>poll\<close> is
    one of them (whatever \<open>getmtime\<close> raised on an allowed file, or a copy error the
    \<open>except\<close> clause does not name). The file
    system is modelled as a tree (\<open>fs_entry\<close>: files with their modification time,
    directories with their entries); \<open>fs_walk\<close> is \<open>os.walk\<close> top-down,
    \<open>tree_files\<close> lists the tree's files, and \<open>tree_env\<close> derives the
    \<open>os_env\<close> record from a tree, so that the walk and \<open>getmtime\<close> agree.
    \<open>poll_static_tree_synced\<close> (C28) shows that on a tree that does not change
    during the poll, with single-component file names and only caught copy errors, the
    poll returns normally and leaves every allowed file recorded at its modification time
    or later. \<open>poll_effects_bounded\<close> (C29) bounds one poll's effects by the number of
    files walked plus one, and its copies by the number of allowed files.
    \<open>poll_run\<close> runs \<open>poll\<close> over a list of environments, one per call, as the
    poller's scheduler does; \<open>poll_run_no_recopy\<close> (C13) shows that a name recorded
    at time \<open>t\<close> keeps its record and is never copied again while no file of that
    name is newer than \<open>t\<close>, whatever else changes between the calls.

  \<^item> \<^bold>\<open>PollerLive\<close> (\<^verbatim>\<open>PollerLive.thy\<close>) runs the poll against a disk that
    its own copies change. The disk (\<open>fs_state\<close>) holds the directories as (parent,
    name) pairs, the files with their modification times in listing order, and a clock
    that stamps written files. \<open>os.walk\<close> is modelled as CPython implements it, a
    stack of directories of which the popped one is listed on the disk as it is at that
    moment, its files are processed, and then its subdirectories are pushed; this is
    \<open>walk_live\<close>, with \<open>files_live\<close> the inner loop (each file processed by
    \<open>_process_file\<close> against the current disk, \<open>on_disk\<close>) and \<open>poll_live\<close> the
    method. \<open>shutil.copy\<close> is \<open>fs_copy_result\<close> and \<open>fs_write\<close>: a directory
    destination receives the base name, a copy onto itself raises \<open>SameFileError\<close>,
    a missing source or destination directory raises \<open>FileNotFoundError\<close>, and a
    successful copy writes the destination with the clock's time. Because a model disk
    may be ill-formed (a directory that is its own child), \<open>walk_live\<close> is a
    \<open>partial_function (option)\<close>. The example \<open>poll_live_self_copy_loses_notification\<close>
    evaluates two polls
    with the download directory inside the watched one: the first copies a file, meets
    the copy later in the same walk and raises \<open>SameFileError\<close> before notifying, and
    the second finds nothing to do, so the executor never hears of the copy.

  \<^item> \<^bold>\<open>PollerRefine\<close> (\<^verbatim>\<open>PollerRefine.thy\<close>) relates the live poll to
    the static one. \<open>poll_live_refines_poll\<close> (C11): when neither the
    watched directory nor the download directory contains the other
    (\<open>download_apart\<close>: \<open>dir_below\<close> compares the paths with a slash appended)
    and the disk's directory names are single path components, the walk of the
    initial disk (\<open>walk_list\<close>, the walk of a disk nothing changes) exists (by
    induction on the multiset of the distances \<open>B - length d\<close> of the stacked
    directories to a bound \<open>B\<close> on path lengths, a subdirectory's path being longer
    than its parent's), the live poll returns, and the
    live poll returns what \<open>poll\<close> returns on the static environment of the initial
    disk (\<open>static_env\<close>) and ends in the same handler state. It rests on
    \<open>poll_live_refines_static\<close>, which needs only that no copy of an allowed file
    can land in a directory of the walk or on a path it reads (\<open>writes_outside\<close>),
    proved level by level: \<open>_process_file\<close> reads the disk at one path only
    (\<open>process_file_same_disk\<close>), a copy outside the walk keeps the disk in
    agreement with the initial one where the walk looks (\<open>agrees_effects\<close>), then
    \<open>files_live_refines\<close> and \<open>walk_live_refines\<close> by induction on the
    directory's files and on the walk; \<open>download_apart_writes_outside\<close> derives
    \<open>writes_outside\<close> from the walk staying below the watched directory
    (\<open>walk_list_below\<close>) and the copies landing below the download directory
    (\<open>copy_below_download\<close>). So the theorems about \<open>poll\<close> in
    \<^verbatim>\<open>Poller.thy\<close> hold of the live poll whenever the download
    directory lies outside the watched tree: \<open>poll_live_apart_frame\<close> (C9) carries
    the frame of a single poll (effects appended, one notification exactly when a file
    was copied and the poll returned normally, only allowed copies, recorded times
    never lowered) over to the live poll. The example of \<^verbatim>\<open>PollerLive.thy\<close>
    shows what happens when the download directory is inside the watched one.

  \<^item> \<^bold>\<open>Schema\<close> (\<^verbatim>\<open>Schema.thy\<close>) models
    \<^verbatim>\<open>src/framework/src/framework/common/schema/schema_object.py\<close>: the field
    classes as the datatype \<open>field_kind\<close>, a field as the record \<open>schema_field\<close>
    (name, owning object, declared type \<open>ftype\<close>, class), a schema object by its
    identity, the decorated class's name and its own class's name (\<open>schema_object\<close>) and its attribute table in insertion
    order (\<open>schema_object_state\<close>, updated by \<open>AList.update\<close> for \<open>setattr\<close>);
    \<open>make_field\<close> (the constructors), \<open>init_field\<close>, \<open>parse\<close>,
    \<open>built_in_equal\<close> and \<open>built_in_not_equal\<close>, \<open>field_hash_key\<close>,
    \<open>field_add\<close> (\<open>__add__\<close>), \<open>field_str\<close> and \<open>schema_object_str\<close>.
    Theorems: the additions (C7, C8, C10; C8 proves that \<open>String + Blob\<close> raises,
    because \<open>String.__add__\<close> tests for \<open>String\<close> where it means \<open>Blob\<close>), equality
    agreeing with the hash (C12; \<open>field_eq_equivp\<close>: an equivalence), \<open>parse\<close> (C14),
    the declared type of every class (C15), and the attribute-table invariant kept by
    \<open>_init_field\<close> (C16).

  \<^item> \<^bold>\<open>QuerySetter\<close> (\<^verbatim>\<open>QuerySetter.thy\<close>) models
    \<^verbatim>\<open>src/framework/src/framework/dsl/query/query_param_value_setter.py\<close>:
    \<open>set_values\<close>, \<open>validate_params\<close>, \<open>__alter_query_descriptor\<close>,
    \<open>__alter_clause\<close> and \<open>__calculate_nlq_params\<close>, a parameter dictionary being an
    association list. Query descriptors, clauses and their methods are not in the
    sources and are modelled from the spec (an explicit override replaces a value, the
    inferred pass only fills unset values, missing mandatory clauses are appended);
    the natural-language evaluator is an arbitrary function argument, so every lemma
    holds for any evaluator. Abstract view: \<open>param_table\<close> lists the parameters as
    (name, value) pairs and \<open>merge_value\<close> is the two passes as one merge of
    mappings; \<open>set_values_refines\<close> (C17) is the refinement, and C18 to C25 state
    explicit-wins, gap filling, the names validation accepts (stated over the clauses'
    value and weight parameters), the rejection message, the abort on a failed
    validation, independence from the evaluator without an NLQ clause, re-validation
    and mandatory clauses.

  Every claim with a hypothesis has a witness theorem that applies it to the example
  configurations defined in its theory (\<open>ex_cfg\<close>, \<open>ex_env\<close> and its variants,
  \<open>ex_tree\<close>, \<open>ex_out_live\<close>, \<open>ex_paragraph\<close>, \<open>ex_qd\<close> and \<open>ex_ev\<close>),
  evaluated by \<open>simp\<close>. No fuel is used: every loop of the sources over a list the
  environment or the caller supplies (a given walk, a directory's files, the clauses)
  is structural recursion and total; the one loop whose length depends on the data it
  changes, the lazy walk of \<^verbatim>\<open>PollerLive.thy\<close>, is a partial function, and C11
  proves that it returns when the download directory lies apart from the watched one.

  Not modelled: logging itself (log calls appear as effects only), the OS and
  \<open>shutil\<close> beyond the results they return (the tree of \<^verbatim>\<open>PollerTree.thy\<close>
  and the disk of \<^verbatim>\<open>PollerLive.thy\<close> are environments among those the code
  may meet; symbolic links, permissions, \<open>shutil.copy\<close>'s copying of the permission
  bits, and the order in which a real directory lists its entries are not modelled), the
  typing machinery (\<open>Generic\<close>, \<open>TypeVar\<close>, \<open>beartype\<close>), \<open>BlobInformation\<close>
  and the \<open>ComparisonOperand\<close> framework (field values are the abstract
  \<open>py_value\<close>), the \<open>@schema\<close> decorator (not in the sources), and the NLQ evaluator's internals. Python's set
  iteration order in the \<open>validate_params\<close> message is replaced by dictionary order;
  only the membership of the names is used. Modification times are integers;
  \<open>datetime.fromtimestamp\<close> only changes their representation, and the comparison is
  the same (its range error on an out-of-range time is not modelled).

  The query DSL around the setter (\<open>QueryDescriptor\<close>, the clause classes,
  \<open>NLQParamEvaluator\<close>) is not in the repository and the spec puts its internals
  out of scope; it is modelled at the contract the spec states (override, fill-in,
  mandatory clauses, lookup by kind), which is all the setter relies on, and a finer
  model of the clause classes could not be checked against any source. Every method of
  the three source files is translated by a definition; the lines left out of the map
  are imports, class headers, logger set-up, type variables, documentation tables,
  and the base \<open>SchemaField.parse\<close> (the identity), which is the last equation of
  \<open>parse\<close>, mapped to the overriding methods.
\<close>

end
